theory Spec2Isabelle
  imports Main "HOL-Library.AList" "HOL-Library.Sublist"
begin

section \<open>The constant tables of \<open>ca.cpp\<close>\<close>

text \<open>
  \<open>ca.cpp\<close> publishes five groups of named integer constants of the EPICS client
  library as enumeration types of the Python runtime. The constants come from the headers
  \<open>alarm.h\<close>, \<open>db_access.h\<close>, \<open>caeventmask.h\<close> and \<open>epicsTime.h\<close>, which are not part of
  the repository: they are the fields of the record \<open>epics\<close>, a parameter of every
  definition that reads them. C \<open>int\<close> and \<open>long\<close> are \<open>int\<close>: the only arithmetic
  of the file is \<open>dbf_text_dim - 2\<close>, the loop counter and a bitwise or of small masks.
\<close>

record epics =
  ALARM_NSTATUS :: int
  epicsAlarmConditionStrings :: "string list"
  ALARM_NSEV :: int
  epicsAlarmSeverityStrings :: "string list"
  dbf_text_dim :: int
  dbf_type_to_text :: "int \<Rightarrow> string"
  DBE_VALUE :: int
  DBE_ARCHIVE :: int
  DBE_ALARM :: int
  DBE_PROPERTY :: int
  POSIX_TIME_AT_EPICS_EPOCH :: int

text \<open>\<open>struct Entry\<close>: one row of a table written out in the file.\<close>

record Entry =
  "text" :: string
  "value" :: int

text \<open>
  The template parameter \<open>EnumDef\<close> of \<open>add_enum\<close>: a struct with the static members
  \<open>name\<close>, \<open>doc\<close> (a pointer that may be null), \<open>count()\<close>, \<open>text(i)\<close> and
  \<open>value(i)\<close>. The value is a \<open>long\<close> and is kept as an integer; where the code reads it as an
  \<open>int\<close>, in \<open>Py_BuildValue\<close>, the narrowing is written out there.
\<close>

record EnumDef =
  name :: string
  doc :: "string option"
  count :: int
  "text" :: "int \<Rightarrow> string"
  "value" :: "int \<Rightarrow> int"

text \<open>
  The documentation strings \<open>status__doc__\<close>, \<open>severity__doc__\<close>, \<open>field_type__doc__\<close>,
  \<open>access_rights__doc__\<close> and \<open>trigger__doc__\<close> (a name cannot end in an underscore
  here) are raw string literals that start and end with a line break.
\<close>

definition status_doc :: string where
  "status_doc = CHR 0x0A # ''Alarm status of a channel access PV.'' @ [CHR 0x0A]"

definition severity_doc :: string where
  "severity_doc = CHR 0x0A # ''Alarm severity of a channel access PV.'' @ [CHR 0x0A]"

definition field_type_doc :: string where
  "field_type_doc = CHR 0x0A # ''Possible types of a channel access PV.'' @ [CHR 0x0A]"

definition access_rights_doc :: string where
  "access_rights_doc =
     CHR 0x0A # ''Access rights for channel access PVs.'' @ [CHR 0x0A, CHR 0x0A]
       @ ''These can be combined by or-ing them together.'' @ [CHR 0x0A]"

definition trigger_doc :: string where
  "trigger_doc =
     CHR 0x0A # ''Available event sources for channel access PVs.'' @ [CHR 0x0A, CHR 0x0A]
       @ ''These can be combined by or-ing them together.'' @ [CHR 0x0A]"

text \<open>
  Indexing a C array is \<open>xs ! nat i\<close>; \<open>add_enum\<close> reads the tables at the indices
  \<open>0 \<le> i < count()\<close> only. \<open>p + 4\<close> on a C string of at least four characters is the
  string without its first four characters.
\<close>

definition Status :: "epics \<Rightarrow> EnumDef" where
  "Status lib =
     \<lparr> name = ''Status'', doc = Some status_doc,
       count = ALARM_NSTATUS lib,
       EnumDef.text = (\<lambda>i. epicsAlarmConditionStrings lib ! nat i),
       EnumDef.value = (\<lambda>i. i) \<rparr>"

definition Severity :: "epics \<Rightarrow> EnumDef" where
  "Severity lib =
     \<lparr> name = ''Severity'', doc = Some severity_doc,
       count = ALARM_NSEV lib,
       EnumDef.text = (\<lambda>i. epicsAlarmSeverityStrings lib ! nat i),
       EnumDef.value = (\<lambda>i. i) \<rparr>"

definition Type :: "epics \<Rightarrow> EnumDef" where
  "Type lib =
     \<lparr> name = ''Type'', doc = Some field_type_doc,
       count = dbf_text_dim lib - 2,
       EnumDef.text = (\<lambda>i. drop 4 (dbf_type_to_text lib i)),
       EnumDef.value = (\<lambda>i. i) \<rparr>"

definition AccessRights_entries :: "Entry list" where
  "AccessRights_entries =
     [ \<lparr> Entry.text = ''NO_ACCESS'', Entry.value = 0 \<rparr>,
       \<lparr> Entry.text = ''READ_ACCESS'', Entry.value = 1 \<rparr>,
       \<lparr> Entry.text = ''WRITE_ACCESS'', Entry.value = 2 \<rparr>,
       \<lparr> Entry.text = ''RW_ACCESS'', Entry.value = 3 \<rparr> ]"

definition AccessRights :: EnumDef where
  "AccessRights =
     \<lparr> name = ''AccessRights'', doc = Some access_rights_doc,
       count = int (length AccessRights_entries),
       EnumDef.text = (\<lambda>i. Entry.text (AccessRights_entries ! nat i)),
       EnumDef.value = (\<lambda>i. Entry.value (AccessRights_entries ! nat i)) \<rparr>"

definition Events_entries :: "epics \<Rightarrow> Entry list" where
  "Events_entries lib =
     [ \<lparr> Entry.text = ''NONE'', Entry.value = 0 \<rparr>,
       \<lparr> Entry.text = ''VALUE'', Entry.value = DBE_VALUE lib \<rparr>,
       \<lparr> Entry.text = ''ARCHIVE'', Entry.value = DBE_ARCHIVE lib \<rparr>,
       \<lparr> Entry.text = ''ALARM'', Entry.value = DBE_ALARM lib \<rparr>,
       \<lparr> Entry.text = ''PROPERTY'', Entry.value = DBE_PROPERTY lib \<rparr>,
       \<lparr> Entry.text = ''ALL'',
         Entry.value = or (or (or (DBE_VALUE lib) (DBE_ARCHIVE lib)) (DBE_ALARM lib))
                          (DBE_PROPERTY lib) \<rparr> ]"

definition Events :: "epics \<Rightarrow> EnumDef" where
  "Events lib =
     \<lparr> name = ''Events'', doc = Some trigger_doc,
       count = int (length (Events_entries lib)),
       EnumDef.text = (\<lambda>i. Entry.text (Events_entries lib ! nat i)),
       EnumDef.value = (\<lambda>i. Entry.value (Events_entries lib ! nat i)) \<rparr>"

text \<open>
  The rows of a group in the order of the loop of \<open>add_enum\<close>, \<open>i = 0, \<dots>, count() - 1\<close>,
  and the value a group gives to a member name.
\<close>

definition rows :: "EnumDef \<Rightarrow> (string \<times> int) list" where
  "rows d = map (\<lambda>k. (EnumDef.text d (int k), EnumDef.value d (int k))) [0 ..< nat (count d)]"

definition member_value :: "EnumDef \<Rightarrow> string \<Rightarrow> int option" where
  "member_value d n = map_of (rows d) n"

text \<open>
  A C \<open>int\<close> of 32 bits read from a wider integer: the low 32 bits, as a signed number. The
  rows of a group with each value read as such an \<open>int\<close>; a group fits when this changes none
  of its values.
\<close>

definition c_int :: "int \<Rightarrow> int" where
  "c_int v = (v + 2147483648) mod 4294967296 - 2147483648"

definition handed :: "EnumDef \<Rightarrow> (string \<times> int) list" where
  "handed d =
     map (\<lambda>k. (EnumDef.text d (int k), c_int (EnumDef.value d (int k)))) [0 ..< nat (count d)]"


text \<open>
  The tables of EPICS base 3.15 and 7, for running the definitions on the library the file
  is built against.
\<close>

definition epics_base :: epics where
  "epics_base =
     \<lparr> ALARM_NSTATUS = 22,
       epicsAlarmConditionStrings =
         [''NO_ALARM'', ''READ'', ''WRITE'', ''HIHI'', ''HIGH'', ''LOLO'', ''LOW'', ''STATE'',
          ''COS'', ''COMM'', ''TIMEOUT'', ''HWLIMIT'', ''CALC'', ''SCAN'', ''LINK'', ''SOFT'',
          ''BAD_SUB'', ''UDF'', ''DISABLE'', ''SIMM'', ''READ_ACCESS'', ''WRITE_ACCESS''],
       ALARM_NSEV = 4,
       epicsAlarmSeverityStrings = [''NO_ALARM'', ''MINOR'', ''MAJOR'', ''INVALID''],
       dbf_text_dim = 9,
       dbf_type_to_text =
         (\<lambda>t. if - 1 \<le> t \<and> t < 9 - 2
              then [''TYPENOTCONN'', ''DBF_STRING'', ''DBF_SHORT'', ''DBF_FLOAT'', ''DBF_ENUM'',
                    ''DBF_CHAR'', ''DBF_LONG'', ''DBF_DOUBLE'', ''DBF_NO_ACCESS''] ! nat (t + 1)
              else ''DBF_invalid''),
       DBE_VALUE = 1, DBE_ARCHIVE = 2, DBE_ALARM = 4, DBE_PROPERTY = 8,
       POSIX_TIME_AT_EPICS_EPOCH = 631152000 \<rparr>"

section \<open>The Python runtime\<close>

text \<open>
  \<open>add_enum\<close> and \<open>PyInit_ca\<close> work on objects of the Python runtime through its C
  interface. The runtime is the state below: the live objects by address, each with its
  reference count and its value, the next unused address, the error indicator of the
  thread, and the log of the calls made. The members of a tuple are kept by value; a list
  keeps the addresses of its items, a module and a type those of their attributes, as the
  ownership of these matters to the code. Of the attributes of a module or a type only those
  the code attaches are kept. A type made by a class of the module \<open>enum\<close> is kept as the
  name of the class, the name of the type and the list of pairs the class was called with:
  which members the class makes of the pairs is its own matter, and no part of this file.
\<close>

type_synonym addr = nat

datatype pyval =
    PyLong int
  | PyUnicode string
  | PyTuple_si string int
  | PyList "addr option list"
  | PyClass string
  | PyEnumType string string "(string \<times> int) list" "(string \<times> addr) list"
  | PyModule string "(string \<times> addr) list"

record pyobject =
  refcnt :: nat
  val :: pyval

datatype pyerr = HostError | RuntimeError string

datatype call =
    Module_Create string
  | Module_AddIntConstant string int
  | Import_ImportModule string
  | Object_GetAttrString string
  | List_New int
  | BuildValue_si string int
  | Object_CallFunction "string option" string "(string \<times> int) list option"
  | Unicode_FromString string
  | Object_SetAttrString string
  | Module_AddObject string

datatype outcome = Failed | Done | New addr

datatype event = Host call outcome | Decref addr

record pystate =
  heap :: "(addr \<times> pyobject) list"
  fresh :: addr
  err :: "pyerr option"
  trace :: "event list"
  tick :: nat

text \<open>The value and the reference count of the object at an address, if it is live.\<close>

definition objs :: "pystate \<Rightarrow> addr \<Rightarrow> pyval option" where
  "objs s a = map_option val (map_of (heap s) a)"

definition refs :: "pystate \<Rightarrow> addr \<Rightarrow> nat" where
  "refs s a = (case map_of (heap s) a of None \<Rightarrow> 0 | Some ob \<Rightarrow> refcnt ob)"

text \<open>
  Whether a call of the runtime succeeds is not in the hands of the code: memory runs out, a
  module or an attribute is missing, a constructor rejects its arguments. A \<open>host\<close> says
  for the n-th call that can fail whether it succeeds; \<open>tick\<close> counts these calls.
\<close>

type_synonym host = "nat \<Rightarrow> bool"

definition record_event :: "event \<Rightarrow> pystate \<Rightarrow> pystate" where
  "record_event e s = s\<lparr>trace := trace s @ [e]\<rparr>"

definition answered :: "call \<Rightarrow> outcome \<Rightarrow> pystate \<Rightarrow> pystate" where
  "answered c r s = (record_event (Host c r) s)\<lparr>tick := tick s + 1\<rparr>"

definition raise_host :: "call \<Rightarrow> pystate \<Rightarrow> pystate" where
  "raise_host c s = (answered c Failed s)\<lparr>err := Some HostError\<rparr>"

definition alloc :: "pyval \<Rightarrow> nat \<Rightarrow> pystate \<Rightarrow> addr \<times> pystate" where
  "alloc v rc s =
     (fresh s, s\<lparr>heap := AList.update (fresh s) \<lparr>refcnt = rc, val = v\<rparr> (heap s),
                 fresh := fresh s + 1\<rparr>)"

definition put :: "addr \<Rightarrow> pyval \<Rightarrow> pystate \<Rightarrow> pystate" where
  "put a v s = s\<lparr>heap := AList.map_entry a (\<lambda>ob. ob\<lparr>val := v\<rparr>) (heap s)\<rparr>"

text \<open>
  Giving up one reference to an object: the count goes down, or the object is gone when the
  reference was the last.
\<close>

definition drop_ref :: "addr \<Rightarrow> pystate \<Rightarrow> pystate" where
  "drop_ref a s =
     (if refs s a \<le> 1
      then s\<lparr>heap := AList.delete a (heap s)\<rparr>
      else s\<lparr>heap := AList.map_entry a (\<lambda>ob. ob\<lparr>refcnt := refcnt ob - 1\<rparr>) (heap s)\<rparr>)"

definition incref :: "addr \<Rightarrow> pystate \<Rightarrow> pystate" where
  "incref a s = s\<lparr>heap := AList.map_entry a (\<lambda>ob. ob\<lparr>refcnt := refcnt ob + 1\<rparr>) (heap s)\<rparr>"

text \<open>The references that an object holds: a list to its items, a module and a type to
  their attributes.\<close>

fun held :: "pyval option \<Rightarrow> addr list" where
  "held (Some (PyList items)) = List.map_filter id items"
| "held (Some (PyModule n d)) = map snd d"
| "held (Some (PyEnumType cls n ps as)) = map snd as"
| "held _ = []"

text \<open>
  Giving up references for good: an object whose last reference goes is gone, and the
  references it held are given up in turn, before the remaining ones of the list.
\<close>

function decref_all :: "addr list \<Rightarrow> pystate \<Rightarrow> pystate" where
  "decref_all [] s = s"
| "decref_all (a # as) s =
     (case map_of (heap s) a of
        None \<Rightarrow> decref_all as s
      | Some ob \<Rightarrow>
          if refcnt ob \<le> 1
          then decref_all (held (Some (val ob)) @ as) (s\<lparr>heap := AList.delete a (heap s)\<rparr>)
          else decref_all as
                 (s\<lparr>heap := AList.map_entry a (\<lambda>ob. ob\<lparr>refcnt := refcnt ob - 1\<rparr>) (heap s)\<rparr>))"
  by pat_completeness auto
termination
proof (relation "measures [\<lambda>(ws, s). length (heap s), \<lambda>(ws, s). length ws]")
  have gone: "length (AList.delete a al) < length al"
    if "map_of al a = Some ob" for a ob and al :: "(addr \<times> pyobject) list"
    using that by (induction al) (auto simp add: less_Suc_eq_le length_delete_le split: if_splits)
  have same: "length (AList.map_entry a f al) = length al"
    for a f and al :: "(addr \<times> pyobject) list"
    by (induction al) auto
  show "wf (measures [\<lambda>(ws, s). length (heap s), \<lambda>(ws, s). length ws])"
    by simp
  show "((as, s), a # as, s) \<in> measures [\<lambda>(ws, s). length (heap s), \<lambda>(ws, s). length ws]"
    for as s a
    by simp
  show "((held (Some (val ob)) @ as, s\<lparr>heap := AList.delete a (heap s)\<rparr>), a # as, s)
      \<in> measures [\<lambda>(ws, s). length (heap s), \<lambda>(ws, s). length ws]"
    if "map_of (heap s) a = Some ob" for as s a ob
    using gone [OF that] by simp
  show "((as, s\<lparr>heap := AList.map_entry a (\<lambda>ob. ob\<lparr>refcnt := refcnt ob - 1\<rparr>) (heap s)\<rparr>),
       a # as, s) \<in> measures [\<lambda>(ws, s). length (heap s), \<lambda>(ws, s). length ws]"
    for as s a
    by (simp add: same)
qed

definition release :: "addr \<Rightarrow> pystate \<Rightarrow> pystate" where
  "release a s = decref_all [a] s"

definition Py_DECREF :: "addr \<Rightarrow> pystate \<Rightarrow> pystate" where
  "Py_DECREF a s = release a (record_event (Decref a) s)"

definition Py_XDECREF :: "addr option \<Rightarrow> pystate \<Rightarrow> pystate" where
  "Py_XDECREF p s = (case p of None \<Rightarrow> s | Some a \<Rightarrow> Py_DECREF a s)"

definition PyErr_Clear :: "pystate \<Rightarrow> pystate" where
  "PyErr_Clear s = s\<lparr>err := None\<rparr>"

definition PyErr_Format_RuntimeError :: "string \<Rightarrow> pystate \<Rightarrow> pystate" where
  "PyErr_Format_RuntimeError msg s = s\<lparr>err := Some (RuntimeError msg)\<rparr>"

definition is_module :: "pystate \<Rightarrow> addr \<Rightarrow> bool" where
  "is_module s a = (case objs s a of Some (PyModule n d) \<Rightarrow> True | _ \<Rightarrow> False)"

text \<open>
  Storing an attribute in the dictionary of a module: a new name goes to the end, an old
  one keeps its place and the value it had loses the reference of the dictionary.
\<close>

definition module_store :: "addr \<Rightarrow> string \<Rightarrow> addr \<Rightarrow> pystate \<Rightarrow> pystate" where
  "module_store m n v s =
     (case objs s m of
        Some (PyModule mn d) \<Rightarrow>
          (case map_of d n of
             None \<Rightarrow> put m (PyModule mn (AList.update n v d)) s
           | Some old \<Rightarrow> release old (put m (PyModule mn (AList.update n v d)) s))
      | _ \<Rightarrow> s)"

text \<open>
  A call that returns a new reference, or null with the error indicator set: the new object
  \<open>v\<close> starts with \<open>rc\<close> references, one of them the caller's. A call whose arguments are
  not what it expects fails whatever the host says.
\<close>

definition new_object :: "host \<Rightarrow> call \<Rightarrow> pyval \<Rightarrow> nat \<Rightarrow> pystate \<Rightarrow> addr option \<times> pystate" where
  "new_object h c v rc s =
     (if h (tick s)
      then (case alloc v rc s of (a, s1) \<Rightarrow> (Some a, answered c (New a) s1))
      else (None, raise_host c s))"

definition PyModule_Create :: "host \<Rightarrow> string \<Rightarrow> pystate \<Rightarrow> addr option \<times> pystate" where
  "PyModule_Create h mn s = new_object h (Module_Create mn) (PyModule mn []) 1 s"

text \<open>
  The runtime keeps a reference of its own to an imported module, and a module to its
  attributes: the returned reference is the second one.
\<close>

definition PyImport_ImportModule :: "host \<Rightarrow> string \<Rightarrow> pystate \<Rightarrow> addr option \<times> pystate" where
  "PyImport_ImportModule h mn s = new_object h (Import_ImportModule mn) (PyModule mn []) 2 s"

definition PyObject_GetAttrString ::
    "host \<Rightarrow> addr \<Rightarrow> string \<Rightarrow> pystate \<Rightarrow> addr option \<times> pystate" where
  "PyObject_GetAttrString h obj attr s =
     (if is_module s obj
      then new_object h (Object_GetAttrString attr) (PyClass attr) 2 s
      else (None, raise_host (Object_GetAttrString attr) s))"

definition PyList_New :: "host \<Rightarrow> int \<Rightarrow> pystate \<Rightarrow> addr option \<times> pystate" where
  "PyList_New h n s =
     (if 0 \<le> n
      then new_object h (List_New n) (PyList (replicate (nat n) None)) 1 s
      else (None, raise_host (List_New n) s))"

text \<open>
  \<open>Py_BuildValue("(si)", t, v)\<close>: a tuple of a string and an integer. The format unit \<open>i\<close>
  reads a C \<open>int\<close>, and \<open>add_enum\<close> passes the \<open>long\<close> of \<open>value(i)\<close>: where \<open>long\<close> has 64 bits
  the integer of the tuple is \<open>c_int\<close> of the value.
\<close>

definition Py_BuildValue_si :: "host \<Rightarrow> string \<Rightarrow> int \<Rightarrow> pystate \<Rightarrow> addr option \<times> pystate" where
  "Py_BuildValue_si h t v s = new_object h (BuildValue_si t v) (PyTuple_si t (c_int v)) 1 s"

definition PyUnicode_FromString :: "host \<Rightarrow> string \<Rightarrow> pystate \<Rightarrow> addr option \<times> pystate" where
  "PyUnicode_FromString h t s = new_object h (Unicode_FromString t) (PyUnicode t) 1 s"

text \<open>
  \<open>PyList_SET_ITEM\<close> is a macro without checks: it stores the item and takes over the
  caller's reference to it.
\<close>

definition PyList_SET_ITEM :: "addr \<Rightarrow> int \<Rightarrow> addr \<Rightarrow> pystate \<Rightarrow> pystate" where
  "PyList_SET_ITEM list i v s =
     (case objs s list of
        Some (PyList items) \<Rightarrow> put list (PyList (items[nat i := Some v])) s
      | _ \<Rightarrow> s)"

text \<open>
  \<open>PyObject_CallFunction(callable, "sN", name, list)\<close>: the callable is called with the
  name and the list. The format \<open>N\<close> hands the caller's reference to the list over to the
  call, which gives it up when it returns, with or without a result. A class of the
  enumeration module called with a name and a list of pairs returns a new type, kept here
  with the pairs it was made from, or fails.
\<close>

definition class_of :: "pystate \<Rightarrow> addr \<Rightarrow> string option" where
  "class_of s a = (case objs s a of Some (PyClass c) \<Rightarrow> Some c | _ \<Rightarrow> None)"

definition pair_at :: "pystate \<Rightarrow> addr option \<Rightarrow> (string \<times> int) option" where
  "pair_at s p =
     (case p of
        None \<Rightarrow> None
      | Some a \<Rightarrow> (case objs s a of Some (PyTuple_si t v) \<Rightarrow> Some (t, v) | _ \<Rightarrow> None))"

definition list_rows :: "pystate \<Rightarrow> addr \<Rightarrow> (string \<times> int) list option" where
  "list_rows s a =
     (case objs s a of
        Some (PyList items) \<Rightarrow> those (map (pair_at s) items)
      | _ \<Rightarrow> None)"

definition PyObject_CallFunction_sN ::
    "host \<Rightarrow> addr \<Rightarrow> string \<Rightarrow> addr \<Rightarrow> pystate \<Rightarrow> addr option \<times> pystate" where
  "PyObject_CallFunction_sN h callable n list s =
     (case (class_of s callable, list_rows s list) of
        (Some cls, Some ps) \<Rightarrow>
          (case new_object h (Object_CallFunction (Some cls) n (Some ps))
                  (PyEnumType cls n ps []) 1 s of
             (r, s1) \<Rightarrow> (r, release list s1))
      | (c, ps) \<Rightarrow> (None, release list (raise_host (Object_CallFunction c n ps) s)))"

text \<open>
  A call that returns 0 after its effect \<open>f\<close>, or -1 with the error indicator set and no
  effect.
\<close>

definition status_call :: "host \<Rightarrow> call \<Rightarrow> (pystate \<Rightarrow> pystate) \<Rightarrow> pystate \<Rightarrow> int \<times> pystate" where
  "status_call h c f s =
     (if h (tick s) then (0, answered c Done (f s)) else (- 1, raise_host c s))"

text \<open>
  \<open>PyObject_SetAttrString\<close> on a type: the type takes a reference of its own to the value,
  the caller keeps its own, and a value the attribute had before loses the reference of the
  type.
\<close>

definition type_store :: "addr \<Rightarrow> string \<Rightarrow> addr \<Rightarrow> pystate \<Rightarrow> pystate" where
  "type_store obj attr v s =
     (case objs s obj of
        Some (PyEnumType cls n ps as) \<Rightarrow>
          (case map_of as attr of
             None \<Rightarrow> incref v (put obj (PyEnumType cls n ps (AList.update attr v as)) s)
           | Some old \<Rightarrow>
               release old (incref v (put obj (PyEnumType cls n ps (AList.update attr v as)) s)))
      | _ \<Rightarrow> s)"

definition PyObject_SetAttrString ::
    "host \<Rightarrow> addr \<Rightarrow> string \<Rightarrow> addr \<Rightarrow> pystate \<Rightarrow> int \<times> pystate" where
  "PyObject_SetAttrString h obj attr v s =
     (case (objs s obj, objs s v) of
        (Some (PyEnumType cls n ps as), Some (PyUnicode t)) \<Rightarrow>
          status_call h (Object_SetAttrString attr) (type_store obj attr v) s
      | _ \<Rightarrow> (- 1, raise_host (Object_SetAttrString attr) s))"

text \<open>
  \<open>PyModule_AddObject\<close> takes over the caller's reference to the value when it succeeds,
  and only then: after a failure the reference is still the caller's.
\<close>

definition PyModule_AddObject ::
    "host \<Rightarrow> addr \<Rightarrow> string \<Rightarrow> addr \<Rightarrow> pystate \<Rightarrow> int \<times> pystate" where
  "PyModule_AddObject h m n v s =
     (if is_module s m
      then status_call h (Module_AddObject n) (module_store m n v) s
      else (- 1, raise_host (Module_AddObject n) s))"

text \<open>\<open>PyModule_AddIntConstant\<close> makes the integer object and stores it in the module.\<close>

definition add_int :: "addr \<Rightarrow> string \<Rightarrow> int \<Rightarrow> pystate \<Rightarrow> pystate" where
  "add_int m n v s = (case alloc (PyLong v) 1 s of (a, s1) \<Rightarrow> module_store m n a s1)"

definition PyModule_AddIntConstant ::
    "host \<Rightarrow> addr \<Rightarrow> string \<Rightarrow> int \<Rightarrow> pystate \<Rightarrow> int \<times> pystate" where
  "PyModule_AddIntConstant h m n v s =
     (if is_module s m
      then status_call h (Module_AddIntConstant n v) (add_int m n v) s
      else (- 1, raise_host (Module_AddIntConstant n v) s))"

section \<open>\<open>add_enum\<close>\<close>

text \<open>
  The \<open>for\<close> loop of \<open>add_enum\<close>, from the index \<open>i\<close> on: one tuple per row, stored in
  the list; when a tuple cannot be built the list is given up and the loop reports failure.
\<close>

function add_enum_loop ::
    "host \<Rightarrow> EnumDef \<Rightarrow> addr \<Rightarrow> int \<Rightarrow> int \<Rightarrow> pystate \<Rightarrow> bool \<times> pystate" where
  "add_enum_loop h d list n i s =
     (if i < n
      then (case Py_BuildValue_si h (EnumDef.text d i) (EnumDef.value d i) s of
              (None, s1) \<Rightarrow> (False, Py_DECREF list s1)
            | (Some entry, s1) \<Rightarrow> add_enum_loop h d list n (i + 1) (PyList_SET_ITEM list i entry s1))
      else (True, s))"
  by pat_completeness auto
termination
  by (relation "measure (\<lambda>(h, d, list, n, i, s). nat (n - i))") auto

text \<open>
  The documentation step of \<open>add_enum\<close>: nothing when \<open>doc\<close> is null or the string cannot be
  made; otherwise the attribute is set, the result of that call is dropped, and the string
  is given up.
\<close>

definition add_enum_doc :: "host \<Rightarrow> EnumDef \<Rightarrow> addr \<Rightarrow> pystate \<Rightarrow> pystate" where
  "add_enum_doc h d type s =
     (case doc d of
        None \<Rightarrow> s
      | Some docstring \<Rightarrow>
          (case PyUnicode_FromString h docstring s of
             (None, s1) \<Rightarrow> s1
           | (Some doc_str, s1) \<Rightarrow>
               (case PyObject_SetAttrString h type ''__doc__'' doc_str s1 of
                  (r, s2) \<Rightarrow> Py_DECREF doc_str s2)))"

definition add_enum :: "host \<Rightarrow> EnumDef \<Rightarrow> addr \<Rightarrow> addr \<Rightarrow> pystate \<Rightarrow> bool \<times> pystate" where
  "add_enum h d module type_class' s =
     (case PyList_New h (count d) s of
        (None, s1) \<Rightarrow> (False, s1)
      | (Some list, s1) \<Rightarrow>
     (case add_enum_loop h d list (count d) 0 s1 of
        (False, s2) \<Rightarrow> (False, s2)
      | (True, s2) \<Rightarrow>
     (case PyObject_CallFunction_sN h type_class' (name d) list s2 of
        (None, s3) \<Rightarrow> (False, s3)
      | (Some type, s3) \<Rightarrow>
     (case PyModule_AddObject h module (name d) type (add_enum_doc h d type s3) of
        (r, s4) \<Rightarrow>
          if r \<noteq> 0
          then (False, PyErr_Format_RuntimeError (''Could not add '' @ name d @ '' enum'') s4)
          else (True, s4)))))"

section \<open>\<open>PyInit_ca\<close>\<close>

text \<open>The lookup of the class for the flag groups: \<open>Flag\<close>, and \<open>IntEnum\<close> without it.\<close>

definition lookup_flag_class :: "host \<Rightarrow> addr \<Rightarrow> pystate \<Rightarrow> addr option \<times> pystate" where
  "lookup_flag_class h enum_module s =
     (case PyObject_GetAttrString h enum_module ''Flag'' s of
        (Some flag_class, s1) \<Rightarrow> (Some flag_class, s1)
      | (None, s1) \<Rightarrow> PyObject_GetAttrString h enum_module ''IntEnum'' (PyErr_Clear s1))"

text \<open>The five calls of \<open>add_enum\<close>, each leaving for the label \<open>error\<close> when it fails.\<close>

definition register_groups ::
    "host \<Rightarrow> epics \<Rightarrow> addr \<Rightarrow> addr \<Rightarrow> addr \<Rightarrow> pystate \<Rightarrow> bool \<times> pystate" where
  "register_groups h lib m ec fc s =
     (case add_enum h (Severity lib) m ec s of
        (False, s1) \<Rightarrow> (False, s1)
      | (True, s1) \<Rightarrow>
     (case add_enum h (Status lib) m ec s1 of
        (False, s2) \<Rightarrow> (False, s2)
      | (True, s2) \<Rightarrow>
     (case add_enum h (Type lib) m ec s2 of
        (False, s3) \<Rightarrow> (False, s3)
      | (True, s3) \<Rightarrow>
     (case add_enum h AccessRights m fc s3 of
        (False, s4) \<Rightarrow> (False, s4)
      | (True, s4) \<Rightarrow> add_enum h (Events lib) m fc s4))))"

text \<open>The four local variables of \<open>PyInit_ca\<close>; \<open>None\<close> is the null pointer.\<close>

record locals =
  module :: "addr option"
  enum_module :: "addr option"
  enum_class :: "addr option"
  flag_class :: "addr option"

text \<open>
  The body of \<open>PyInit_ca\<close> up to its two exits: \<open>Inl\<close> is \<open>goto error\<close>, with the local
  variables and the state at that point; \<open>Inr\<close> is the \<open>return module\<close> after the three
  references to the enumeration module and its classes are given up.
\<close>

definition PyInit_body :: "host \<Rightarrow> epics \<Rightarrow> pystate \<Rightarrow> (locals \<times> pystate) + (addr \<times> pystate)" where
  "PyInit_body h lib s =
     (case PyModule_Create h ''ca_client.ca'' s of
        (None, s1) \<Rightarrow>
          Inl (\<lparr>module = None, enum_module = None, enum_class = None, flag_class = None\<rparr>, s1)
      | (Some m, s1) \<Rightarrow>
     (case PyModule_AddIntConstant h m ''EPICS_EPOCH'' (POSIX_TIME_AT_EPICS_EPOCH lib) s1 of
        (r, s2) \<Rightarrow>
          if r \<noteq> 0
          then Inl (\<lparr>module = Some m, enum_module = None, enum_class = None,
                     flag_class = None\<rparr>, s2)
          else
     (case PyImport_ImportModule h ''enum'' s2 of
        (None, s3) \<Rightarrow>
          Inl (\<lparr>module = Some m, enum_module = None, enum_class = None, flag_class = None\<rparr>, s3)
      | (Some em, s3) \<Rightarrow>
     (case PyObject_GetAttrString h em ''Enum'' s3 of
        (None, s4) \<Rightarrow>
          Inl (\<lparr>module = Some m, enum_module = Some em, enum_class = None,
                flag_class = None\<rparr>, s4)
      | (Some ec, s4) \<Rightarrow>
     (case lookup_flag_class h em s4 of
        (None, s5) \<Rightarrow>
          Inl (\<lparr>module = Some m, enum_module = Some em, enum_class = Some ec,
                flag_class = None\<rparr>, s5)
      | (Some fc, s5) \<Rightarrow>
     (case register_groups h lib m ec fc s5 of
        (False, s6) \<Rightarrow>
          Inl (\<lparr>module = Some m, enum_module = Some em, enum_class = Some ec,
                flag_class = Some fc\<rparr>, s6)
      | (True, s6) \<Rightarrow> Inr (m, Py_DECREF em (Py_DECREF ec (Py_DECREF fc s6)))))))))"

text \<open>The label \<open>error\<close>: the four variables are given up, null pointers skipped.\<close>

definition error_exit :: "locals \<Rightarrow> pystate \<Rightarrow> pystate" where
  "error_exit l s =
     Py_XDECREF (module l) (Py_XDECREF (enum_module l) (Py_XDECREF (enum_class l)
       (Py_XDECREF (flag_class l) s)))"

definition PyInit_ca :: "host \<Rightarrow> epics \<Rightarrow> pystate \<Rightarrow> addr option \<times> pystate" where
  "PyInit_ca h lib s =
     (case PyInit_body h lib s of
        Inl (l, s1) \<Rightarrow> (None, error_exit l s1)
      | Inr (m, s1) \<Rightarrow> (Some m, s1))"

text \<open>The runtime before the module is loaded, with none of the objects of the file.\<close>

definition start :: pystate where
  "start = \<lparr>heap = [], fresh = 0, err = None, trace = [], tick = 0\<rparr>"

text \<open>The names and values of the attributes of a module, in the order of its dictionary.\<close>

definition namespace :: "pystate \<Rightarrow> addr \<Rightarrow> (string \<times> pyval option) list" where
  "namespace s m =
     (case objs s m of
        Some (PyModule mn d) \<Rightarrow> map (\<lambda>(n, a). (n, objs s a)) d
      | _ \<Rightarrow> [])"

section \<open>The events and the heap of a run\<close>

text \<open>The events that a run from \<open>s\<close> to \<open>s'\<close> has added to the trace.\<close>

definition since :: "pystate \<Rightarrow> pystate \<Rightarrow> event list" where
  "since s s' = drop (length (trace s)) (trace s')"

text \<open>
  The two outcomes of a call that makes an object: the call fails, which sets the error
  indicator and changes no object; or the object is new at the next free address, with the
  given content and reference count.
\<close>

definition failed_call :: "call \<Rightarrow> pystate \<Rightarrow> pystate \<Rightarrow> bool" where
  "failed_call c s s' \<longleftrightarrow>
     objs s' = objs s \<and> refs s' = refs s \<and> fresh s' = fresh s \<and> err s' = Some HostError \<and>
     trace s' = trace s @ [Host c Failed]"

definition made_object :: "call \<Rightarrow> pyval \<Rightarrow> nat \<Rightarrow> pystate \<Rightarrow> addr \<Rightarrow> pystate \<Rightarrow> bool" where
  "made_object c v rc s a s' \<longleftrightarrow>
     a = fresh s \<and> objs s' = (objs s)(a \<mapsto> v) \<and> refs s' = (refs s)(a := rc) \<and>
     fresh s' = fresh s + 1 \<and> err s' = err s \<and> trace s' = trace s @ [Host c (New a)]"

text \<open>The events of the loop that succeed: a pair was built.\<close>

fun built :: "event \<Rightarrow> bool" where
  "built (Host (BuildValue_si t v) (New a)) = True"
| "built _ = False"

text \<open>A call of the runtime that has failed.\<close>

fun failed :: "event \<Rightarrow> bool" where
  "failed (Host c Failed) = True"
| "failed _ = False"

text \<open>
  The events of the documentation step: none; the string is not made; or the string is made,
  the attribute is set or not, and the string is given up.
\<close>

definition doc_events :: "event list \<Rightarrow> bool" where
  "doc_events evs \<longleftrightarrow>
     evs = [] \<or> (\<exists>t. evs = [Host (Unicode_FromString t) Failed]) \<or>
     (\<exists>t u r. (r = Done \<or> r = Failed) \<and>
        evs = [Host (Unicode_FromString t) (New u), Host (Object_SetAttrString ''__doc__'') r,
               Decref u])"

text \<open>
  The four shapes of the events of one run of \<open>add_enum\<close>: the list is not made; an entry is
  not built and the list is given up; the call of the class fails; or the type is made, the
  documentation step runs, and the installation succeeds or not. Only the last, with a
  successful installation, is a run that returns true.
\<close>

definition group_events :: "EnumDef \<Rightarrow> bool \<Rightarrow> event list \<Rightarrow> bool" where
  "group_events d ok evs \<longleftrightarrow>
     (\<not> ok \<and> evs = [Host (List_New (count d)) Failed]) \<or>
     (\<exists>l bs. list_all built bs \<and>
        ((\<not> ok \<and> (\<exists>t v. evs = Host (List_New (count d)) (New l) # bs @
                        [Host (BuildValue_si t v) Failed, Decref l])) \<or>
         (\<not> ok \<and> (\<exists>c. evs = Host (List_New (count d)) (New l) # bs @
                        [Host (Object_CallFunction c (name d) (Some (handed d))) Failed])) \<or>
         (\<exists>cls t ds. doc_events ds \<and>
            evs = Host (List_New (count d)) (New l) # bs @
              Host (Object_CallFunction (Some cls) (name d) (Some (handed d))) (New t) # ds @
              [Host (Module_AddObject (name d)) (if ok then Done else Failed)])))"

text \<open>The calls of the documentation step.\<close>

fun doc_step :: "event \<Rightarrow> bool" where
  "doc_step (Host (Unicode_FromString t) r) = True"
| "doc_step (Host (Object_SetAttrString a) r) = True"
| "doc_step _ = False"

text \<open>
  A runtime in which the module is object 0 and the class \<open>Flag\<close> is object 1, as they are
  when \<open>PyInit_ca\<close> calls \<open>add_enum\<close>.
\<close>

definition prepared :: pystate where
  "prepared =
     \<lparr>heap = [(0, \<lparr>refcnt = 1, val = PyModule ''ca_client.ca'' []\<rparr>),
              (1, \<lparr>refcnt = 2, val = PyClass ''Flag''\<rparr>)],
      fresh = 2, err = None, trace = [], tick = 0\<rparr>"


text \<open>
  What the events of a run say: the names attached to the module, the references that
  \<open>PyInit_ca\<close> acquires for its four variables, the steps of the initialisation, the lookups
  in the module \<open>enum\<close>, and the failures that \<open>PyInit_ca\<close> does not survive, which are all
  but those of the documentation step and of the lookup of \<open>Flag\<close>.
\<close>

fun attaches :: "event \<Rightarrow> string option" where
  "attaches (Host (Module_AddIntConstant n v) Done) = Some n"
| "attaches (Host (Module_AddObject n) Done) = Some n"
| "attaches _ = None"

definition attached :: "event list \<Rightarrow> string list" where
  "attached evs = List.map_filter attaches evs"

fun acquires :: "event \<Rightarrow> addr option" where
  "acquires (Host (Module_Create n) (New a)) = Some a"
| "acquires (Host (Import_ImportModule n) (New a)) = Some a"
| "acquires (Host (Object_GetAttrString n) (New a)) = Some a"
| "acquires _ = None"

definition acquired :: "event list \<Rightarrow> addr list" where
  "acquired evs = List.map_filter acquires evs"

fun step_of :: "event \<Rightarrow> call option" where
  "step_of (Host (Module_Create n) r) = Some (Module_Create n)"
| "step_of (Host (Module_AddIntConstant n v) r) = Some (Module_AddIntConstant n v)"
| "step_of (Host (Object_CallFunction k n ps) r) = Some (Object_CallFunction k n ps)"
| "step_of (Host (Module_AddObject n) r) = Some (Module_AddObject n)"
| "step_of _ = None"

definition steps :: "event list \<Rightarrow> call list" where
  "steps evs = List.map_filter step_of evs"

fun lookup :: "event \<Rightarrow> bool" where
  "lookup (Host (Import_ImportModule n) r) = True"
| "lookup (Host (Object_GetAttrString n) r) = True"
| "lookup _ = False"

fun fatal :: "event \<Rightarrow> bool" where
  "fatal (Host (Unicode_FromString t) Failed) = False"
| "fatal (Host (Object_SetAttrString a) Failed) = False"
| "fatal (Host (Object_GetAttrString a) Failed) = (a \<noteq> ''Flag'')"
| "fatal (Host c Failed) = True"
| "fatal _ = False"

text \<open>
  A list of calls of \<open>add_enum\<close>, each with its group and its class, stopping at the first
  that fails: the five calls of \<open>PyInit_ca\<close> are the list of \<open>register_groups_list\<close>.
\<close>

fun add_enums :: "host \<Rightarrow> (EnumDef \<times> addr) list \<Rightarrow> addr \<Rightarrow> pystate \<Rightarrow> bool \<times> pystate" where
  "add_enums h [] m s = (True, s)"
| "add_enums h ((d, c) # ds) m s =
     (case add_enum h d m c s of
        (False, s1) \<Rightarrow> (False, s1)
      | (True, s1) \<Rightarrow> add_enums h ds m s1)"

text \<open>The steps of such a list when nothing fails: each class called, each type installed.\<close>

definition group_steps :: "pystate \<Rightarrow> (EnumDef \<times> addr) list \<Rightarrow> call list" where
  "group_steps s ds =
     concat (map (\<lambda>(d, c). [Object_CallFunction (class_of s c) (name d) (Some (handed d)),
                             Module_AddObject (name d)]) ds)"

text \<open>
  The description of the attributes that a list of groups adds to the module: each is a type
  made in the run, with one reference, of the class and from the pairs of one of the groups.
\<close>

definition new_types ::
    "pystate \<Rightarrow> (EnumDef \<times> addr) list \<Rightarrow> pystate \<Rightarrow> (string \<times> addr) list \<Rightarrow> bool" where
  "new_types s ds s' new \<longleftrightarrow>
     (\<forall>(n, t)\<in>set new. fresh s \<le> t \<and> t < fresh s' \<and> refs s' t = 1 \<and>
        (\<exists>x\<in>set ds. \<exists>k as. n = name (fst x) \<and> class_of s (snd x) = Some k \<and>
           objs s' t = Some (PyEnumType k n (handed (fst x)) as)))"

text \<open>
  The initialisation as the specification has it: the five groups with the name of the class
  of each, \<open>fk\<close> being the class of the flag groups, and the steps in their order.
\<close>

definition groups :: "epics \<Rightarrow> string \<Rightarrow> (EnumDef \<times> string) list" where
  "groups lib fk =
     [(Severity lib, ''Enum''), (Status lib, ''Enum''), (Type lib, ''Enum''),
      (AccessRights, fk), (Events lib, fk)]"

definition plan :: "epics \<Rightarrow> string \<Rightarrow> call list" where
  "plan lib fk =
     Module_Create ''ca_client.ca'' #
     Module_AddIntConstant ''EPICS_EPOCH'' (POSIX_TIME_AT_EPICS_EPOCH lib) #
     concat (map (\<lambda>(d, k). [Object_CallFunction (Some k) (name d) (Some (handed d)),
                             Module_AddObject (name d)]) (groups lib fk))"

text \<open>Attributes that are types of the groups, each of the class and from the pairs of its group.\<close>

definition typed_entries :: "epics \<Rightarrow> string \<Rightarrow> (string \<times> pyval option) list \<Rightarrow> bool" where
  "typed_entries lib fk ns \<longleftrightarrow>
     (\<forall>(n, v)\<in>set ns. \<exists>(d, k)\<in>set (groups lib fk).
        n = name d \<and> (\<exists>as. v = Some (PyEnumType k n (handed d) as)))"

text \<open>
  The state in which the classes are looked up and the groups registered: the module is the
  first new object, with one reference and the attribute \<open>EPICS_EPOCH\<close>, an integer that is the
  second new object.
\<close>

definition epoch_published :: "epics \<Rightarrow> pystate \<Rightarrow> addr \<Rightarrow> pystate \<Rightarrow> bool" where
  "epoch_published lib s m s' \<longleftrightarrow>
     m = fresh s \<and> fresh s' = m + 2 \<and> err s' = err s \<and>
     trace s' = trace s @
       [Host (Module_Create ''ca_client.ca'') (New m),
        Host (Module_AddIntConstant ''EPICS_EPOCH'' (POSIX_TIME_AT_EPICS_EPOCH lib)) Done] \<and>
     objs s' = (objs s)(m + 1 \<mapsto> PyLong (POSIX_TIME_AT_EPICS_EPOCH lib),
                        m \<mapsto> PyModule ''ca_client.ca'' [(''EPICS_EPOCH'', m + 1)]) \<and>
     refs s' = (refs s)(m := 1, m + 1 := 1)"

section \<open>The tables\<close>

lemmas table_defs = member_value_def rows_def AccessRights_def AccessRights_entries_def
  Events_def Events_entries_def upt_rec

text \<open>
  Claim C6. The count of the group \<open>Type\<close> is the field-type count of the library minus 2,
  and that many member names are produced; the name of member \<open>i\<close> is the library's name of
  field type \<open>i\<close> without its first four characters, so when the library's name is a prefix
  of four characters followed by a rest, the member name is the rest and the prefix is gone.
\<close>

theorem Type_count_and_names:
  "count (Type lib) = dbf_text_dim lib - 2 \<and>
   length (rows (Type lib)) = nat (dbf_text_dim lib - 2) \<and>
   map fst (rows (Type lib)) =
     map (\<lambda>k. drop 4 (dbf_type_to_text lib (int k))) [0 ..< nat (dbf_text_dim lib - 2)] \<and>
   (\<forall>i p r. dbf_type_to_text lib i = p @ r \<and> length p = 4 \<longrightarrow>
      EnumDef.text (Type lib) i = r)"
  by (auto simp add: Type_def rows_def comp_def)

text \<open>
  On the tables of EPICS base the field type 5 is \<open>DBF_LONG\<close> and its member is \<open>LONG\<close>; the
  seven members are the seven field types without \<open>DBF_\<close>.
\<close>

theorem Type_count_and_names_witness:
  "dbf_type_to_text epics_base 5 = ''DBF_'' @ ''LONG'' \<and> length ''DBF_'' = 4 \<and>
   EnumDef.text (Type epics_base) 5 = ''LONG'' \<and>
   count (Type epics_base) = 7 \<and>
   map fst (rows (Type epics_base)) =
     [''STRING'', ''SHORT'', ''FLOAT'', ''ENUM'', ''CHAR'', ''LONG'', ''DOUBLE'']"
  using Type_count_and_names [of epics_base]
  by (simp add: epics_base_def Type_def rows_def upt_rec)

text \<open>
  Claim C7. In the table \<open>AccessRights\<close> the value of \<open>RW_ACCESS\<close> is the bitwise or of the
  values of \<open>READ_ACCESS\<close> and \<open>WRITE_ACCESS\<close>, 3 = 1 | 2. In the table \<open>Events\<close> the value of
  \<open>NONE\<close> is 0 and the value of \<open>ALL\<close> is the bitwise or of the values of \<open>VALUE\<close>,
  \<open>ARCHIVE\<close>, \<open>ALARM\<close> and \<open>PROPERTY\<close>, whatever masks the library defines.
\<close>

theorem flag_tables_unions:
  "member_value AccessRights ''READ_ACCESS'' = Some 1 \<and>
   member_value AccessRights ''WRITE_ACCESS'' = Some 2 \<and>
   member_value AccessRights ''RW_ACCESS'' = Some (or 1 2) \<and>
   or (1::int) 2 = 3 \<and>
   member_value (Events lib) ''NONE'' = Some 0 \<and>
   member_value (Events lib) ''VALUE'' = Some (DBE_VALUE lib) \<and>
   member_value (Events lib) ''ARCHIVE'' = Some (DBE_ARCHIVE lib) \<and>
   member_value (Events lib) ''ALARM'' = Some (DBE_ALARM lib) \<and>
   member_value (Events lib) ''PROPERTY'' = Some (DBE_PROPERTY lib) \<and>
   member_value (Events lib) ''ALL'' =
     Some (or (or (or (DBE_VALUE lib) (DBE_ARCHIVE lib)) (DBE_ALARM lib)) (DBE_PROPERTY lib))"
  by (simp add: table_defs)

section \<open>The calls of the runtime\<close>

declare add_enum_loop.simps [simp del]

subsection \<open>What the basic updates change\<close>

lemma objs_heap_only [simp]:
  "objs (fresh_update f1 s) = objs s" "objs (err_update f2 s) = objs s"
  "objs (trace_update f3 s) = objs s" "objs (tick_update f4 s) = objs s"
  by (simp_all add: objs_def fun_eq_iff)

lemma refs_heap_only [simp]:
  "refs (fresh_update f1 s) = refs s" "refs (err_update f2 s) = refs s"
  "refs (trace_update f3 s) = refs s" "refs (tick_update f4 s) = refs s"
  by (simp_all add: refs_def fun_eq_iff)

lemma record_event_obs [simp]:
  "objs (record_event e s) = objs s" "refs (record_event e s) = refs s"
  "fresh (record_event e s) = fresh s" "err (record_event e s) = err s"
  "trace (record_event e s) = trace s @ [e]"
  by (simp_all add: record_event_def)

lemma answered_obs [simp]:
  "objs (answered c r s) = objs s" "refs (answered c r s) = refs s"
  "fresh (answered c r s) = fresh s" "err (answered c r s) = err s"
  "trace (answered c r s) = trace s @ [Host c r]"
  by (simp_all add: answered_def)

lemma raise_host_obs [simp]:
  "objs (raise_host c s) = objs s" "refs (raise_host c s) = refs s"
  "fresh (raise_host c s) = fresh s" "err (raise_host c s) = Some HostError"
  "trace (raise_host c s) = trace s @ [Host c Failed]"
  by (simp_all add: raise_host_def)

lemma PyErr_obs [simp]:
  "objs (PyErr_Clear s) = objs s" "refs (PyErr_Clear s) = refs s"
  "fresh (PyErr_Clear s) = fresh s" "err (PyErr_Clear s) = None"
  "trace (PyErr_Clear s) = trace s"
  "objs (PyErr_Format_RuntimeError msg s) = objs s"
  "refs (PyErr_Format_RuntimeError msg s) = refs s"
  "fresh (PyErr_Format_RuntimeError msg s) = fresh s"
  "err (PyErr_Format_RuntimeError msg s) = Some (RuntimeError msg)"
  "trace (PyErr_Format_RuntimeError msg s) = trace s"
  by (simp_all add: PyErr_Clear_def PyErr_Format_RuntimeError_def)

lemma put_obs [simp]:
  "objs (put a v s) = (if objs s a = None then objs s else (objs s)(a \<mapsto> v))"
  "refs (put a v s) = refs s"
  "fresh (put a v s) = fresh s" "err (put a v s) = err s" "trace (put a v s) = trace s"
  by (auto simp add: put_def objs_def refs_def fun_eq_iff map_of_map_entry split: option.splits)

lemma drop_ref_obs [simp]:
  "objs (drop_ref a s) = (if refs s a \<le> 1 then (objs s)(a := None) else objs s)"
  "refs (drop_ref a s) = (refs s)(a := refs s a - 1)"
  "fresh (drop_ref a s) = fresh s" "err (drop_ref a s) = err s"
  "trace (drop_ref a s) = trace s"
  by (auto simp add: drop_ref_def objs_def refs_def fun_eq_iff map_of_map_entry delete_conv'
        split: option.splits)

lemma alloc_obs:
  "alloc v rc s = (a, s') \<Longrightarrow>
     a = fresh s \<and> objs s' = (objs s)(fresh s \<mapsto> v) \<and> refs s' = (refs s)(fresh s := rc) \<and>
     fresh s' = fresh s + 1 \<and> err s' = err s \<and> trace s' = trace s"
  by (auto simp add: alloc_def objs_def refs_def fun_eq_iff update_conv')

lemma incref_obs [simp]:
  "objs (incref a s) = objs s"
  "refs (incref a s) = (if objs s a = None then refs s else (refs s)(a := refs s a + 1))"
  "fresh (incref a s) = fresh s" "err (incref a s) = err s" "trace (incref a s) = trace s"
  by (auto simp add: incref_def objs_def refs_def fun_eq_iff map_of_map_entry
        split: option.splits)

lemma fold_drop_ref_obs [simp]:
  "fresh (fold drop_ref xs s) = fresh s" "err (fold drop_ref xs s) = err s"
  "trace (fold drop_ref xs s) = trace s"
  by (induction xs arbitrary: s) simp_all

lemma fold_drop_ref_other:
  "b \<notin> set xs \<Longrightarrow> objs (fold drop_ref xs s) b = objs s b \<and> refs (fold drop_ref xs s) b = refs s b"
  by (induction xs arbitrary: s) auto

subsection \<open>Giving up references\<close>

declare decref_all.simps [simp del]

lemma delete_absent: "map_of al a = None \<Longrightarrow> AList.delete a al = al"
  by (induction al) (auto split: if_splits)

text \<open>One step of \<open>decref_all\<close>, by the count of the first object.\<close>

lemma decref_all_step:
  "decref_all (a # as) s =
     decref_all ((if refs s a \<le> 1 then held (objs s a) else []) @ as) (drop_ref a s)"
proof (cases "map_of (heap s) a")
  case None
  then show ?thesis
    by (simp add: decref_all.simps refs_def objs_def drop_ref_def delete_absent)
next
  case (Some ob)
  then show ?thesis
    by (simp add: decref_all.simps refs_def objs_def drop_ref_def)
qed

lemma decref_all_obs [simp]:
  "fresh (decref_all ws s) = fresh s" "err (decref_all ws s) = err s"
  "trace (decref_all ws s) = trace s"
  by (induction ws s rule: decref_all.induct; simp add: decref_all.simps split: option.splits)+

text \<open>Objects that hold no reference are given up one after the other.\<close>

lemma decref_all_leaves:
  "\<forall>c\<in>set cs. held (objs s c) = [] \<Longrightarrow> decref_all cs s = fold drop_ref cs s"
proof (induction cs arbitrary: s)
  case Nil
  then show ?case
    by (simp add: decref_all.simps)
next
  case (Cons a cs)
  have "\<forall>c\<in>set cs. held (objs (drop_ref a s) c) = []"
    using Cons.prems by auto
  from Cons.IH [OF this] Cons.prems show ?case
    by (simp add: decref_all_step)
qed

lemma release_flat:
  assumes "\<forall>c\<in>set (held (objs s a)). held (objs s c) = []"
  shows "release a s =
     (if refs s a \<le> 1 then fold drop_ref (held (objs s a)) (drop_ref a s) else drop_ref a s)"
proof (cases "refs s a \<le> 1")
  case True
  have "\<forall>c\<in>set (held (objs s a)). held (objs (drop_ref a s) c) = []"
    using assms by auto
  from decref_all_leaves [OF this] True show ?thesis
    by (simp add: release_def decref_all_step)
next
  case False
  then show ?thesis
    by (simp add: release_def decref_all_step decref_all.simps)
qed

lemma release_obs [simp]:
  "fresh (release a s) = fresh s" "err (release a s) = err s" "trace (release a s) = trace s"
  by (simp_all add: release_def)

lemma release_other:
  "b \<noteq> a \<Longrightarrow> b \<notin> set (held (objs s a)) \<Longrightarrow> \<forall>c\<in>set (held (objs s a)). held (objs s c) = [] \<Longrightarrow>
     objs (release a s) b = objs s b \<and> refs (release a s) b = refs s b"
  by (simp add: release_flat fold_drop_ref_other)

lemma Py_DECREF_obs [simp]:
  "fresh (Py_DECREF a s) = fresh s" "err (Py_DECREF a s) = err s"
  "trace (Py_DECREF a s) = trace s @ [Decref a]"
  by (simp_all add: Py_DECREF_def)

lemma Py_DECREF_other:
  "b \<noteq> a \<Longrightarrow> b \<notin> set (held (objs s a)) \<Longrightarrow> \<forall>c\<in>set (held (objs s a)). held (objs s c) = [] \<Longrightarrow>
     objs (Py_DECREF a s) b = objs s b \<and> refs (Py_DECREF a s) b = refs s b"
  using release_other [of b a "record_event (Decref a) s"] by (simp add: Py_DECREF_def)

text \<open>The last reference to an object that holds none: the object is gone.\<close>

lemma Py_DECREF_leaf:
  assumes "held (objs s a) = []"
  shows "objs (Py_DECREF a s) = (if refs s a \<le> 1 then (objs s)(a := None) else objs s)"
    "refs (Py_DECREF a s) = (refs s)(a := refs s a - 1)"
  using assms release_flat [of "record_event (Decref a) s" a] by (simp_all add: Py_DECREF_def)

text \<open>An object that is gone stays gone, and the last reference to an object frees it.\<close>

lemma decref_all_gone: "objs s b = None \<Longrightarrow> objs (decref_all ws s) b = None"
proof (induction ws s rule: decref_all.induct)
  case (1 s)
  then show ?case
    by (simp add: decref_all.simps)
next
  case (2 a as s)
  show ?case
  proof (cases "map_of (heap s) a")
    case None
    with 2 show ?thesis
      by (simp add: decref_all.simps)
  next
    case (Some ob)
    show ?thesis
    proof (cases "refcnt ob \<le> 1")
      case True
      have "objs (s\<lparr>heap := AList.delete a (heap s)\<rparr>) b = None"
        using "2.prems" by (simp add: objs_def delete_conv')
      from "2.IH"(2) [OF Some True this] Some True show ?thesis
        by (simp add: decref_all.simps)
    next
      case False
      have "objs (s\<lparr>heap := AList.map_entry a (\<lambda>ob. ob\<lparr>refcnt := refcnt ob - 1\<rparr>) (heap s)\<rparr>) b
          = None"
        using "2.prems" by (auto simp add: objs_def map_of_map_entry split: option.splits)
      from "2.IH"(3) [OF Some False this] Some False show ?thesis
        by (simp add: decref_all.simps)
    qed
  qed
qed

lemma Py_DECREF_last: "refs s a \<le> 1 \<Longrightarrow> objs (Py_DECREF a s) a = None"
  by (simp add: Py_DECREF_def release_def decref_all_step decref_all_gone)

lemma raise_host_failed: "failed_call c s (raise_host c s)"
  by (simp add: failed_call_def)

lemma new_object_result:
  assumes "new_object h c v rc s = (r, s')"
  shows "(r = None \<and> failed_call c s s') \<or> (\<exists>a. r = Some a \<and> made_object c v rc s a s')"
proof (cases "h (tick s)")
  case True
  obtain a s1 where al: "alloc v rc s = (a, s1)"
    by (cases "alloc v rc s")
  from alloc_obs [OF al] True assms al show ?thesis
    by (auto simp add: new_object_def made_object_def)
next
  case False
  with assms show ?thesis
    by (auto simp add: new_object_def failed_call_def)
qed

lemma PyModule_Create_result:
  "PyModule_Create h mn s = (r, s') \<Longrightarrow>
     (r = None \<and> failed_call (Module_Create mn) s s') \<or>
     (\<exists>a. r = Some a \<and> made_object (Module_Create mn) (PyModule mn []) 1 s a s')"
  unfolding PyModule_Create_def by (rule new_object_result)

lemma PyImport_ImportModule_result:
  "PyImport_ImportModule h mn s = (r, s') \<Longrightarrow>
     (r = None \<and> failed_call (Import_ImportModule mn) s s') \<or>
     (\<exists>a. r = Some a \<and> made_object (Import_ImportModule mn) (PyModule mn []) 2 s a s')"
  unfolding PyImport_ImportModule_def by (rule new_object_result)

lemma PyObject_GetAttrString_result:
  "PyObject_GetAttrString h obj attr s = (r, s') \<Longrightarrow>
     (r = None \<and> failed_call (Object_GetAttrString attr) s s') \<or>
     (\<exists>a. r = Some a \<and> made_object (Object_GetAttrString attr) (PyClass attr) 2 s a s')"
  unfolding PyObject_GetAttrString_def
  by (auto split: if_splits dest: new_object_result simp: raise_host_failed)

lemma PyList_New_result:
  "PyList_New h n s = (r, s') \<Longrightarrow>
     (r = None \<and> failed_call (List_New n) s s') \<or>
     (\<exists>a. r = Some a \<and> 0 \<le> n \<and>
        made_object (List_New n) (PyList (replicate (nat n) None)) 1 s a s')"
  unfolding PyList_New_def
  by (auto split: if_splits dest: new_object_result simp: raise_host_failed)

lemma Py_BuildValue_si_result:
  "Py_BuildValue_si h t v s = (r, s') \<Longrightarrow>
     (r = None \<and> failed_call (BuildValue_si t v) s s') \<or>
     (\<exists>a. r = Some a \<and> made_object (BuildValue_si t v) (PyTuple_si t (c_int v)) 1 s a s')"
  unfolding Py_BuildValue_si_def by (rule new_object_result)

lemma PyUnicode_FromString_result:
  "PyUnicode_FromString h t s = (r, s') \<Longrightarrow>
     (r = None \<and> failed_call (Unicode_FromString t) s s') \<or>
     (\<exists>a. r = Some a \<and> made_object (Unicode_FromString t) (PyUnicode t) 1 s a s')"
  unfolding PyUnicode_FromString_def by (rule new_object_result)

lemma status_call_result:
  assumes "status_call h c f s = (r, s')"
  shows "(r = - 1 \<and> failed_call c s s') \<or> (r = 0 \<and> s' = answered c Done (f s))"
  using assms by (auto simp add: status_call_def failed_call_def split: if_splits)

lemma update_new_key: "map_of d n = None \<Longrightarrow> AList.update n v d = d @ [(n, v)]"
  by (induction d) (auto split: if_splits)

lemma module_store_obs [simp]:
  "fresh (module_store m n v s) = fresh s" "err (module_store m n v s) = err s"
  "trace (module_store m n v s) = trace s"
  by (simp_all add: module_store_def split: option.splits pyval.splits)

lemma module_store_new:
  "objs s m = Some (PyModule mn d) \<Longrightarrow> map_of d n = None \<Longrightarrow>
     objs (module_store m n v s) = (objs s)(m \<mapsto> PyModule mn (d @ [(n, v)])) \<and>
     refs (module_store m n v s) = refs s"
  by (simp add: module_store_def update_new_key)

lemma PyModule_AddObject_result:
  assumes "PyModule_AddObject h m n v s = (r, s')"
  shows "(r = - 1 \<and> failed_call (Module_AddObject n) s s') \<or>
         (r = 0 \<and> fresh s' = fresh s \<and> err s' = err s \<and>
          trace s' = trace s @ [Host (Module_AddObject n) Done] \<and>
          objs s' = objs (module_store m n v s) \<and> refs s' = refs (module_store m n v s))"
  using assms unfolding PyModule_AddObject_def
  by (auto split: if_splits dest!: status_call_result simp: raise_host_failed)

lemma add_int_new:
  assumes "objs s m = Some (PyModule mn d)" "map_of d n = None" "m \<noteq> fresh s"
  shows "objs (add_int m n v s) = (objs s)(fresh s \<mapsto> PyLong v, m \<mapsto> PyModule mn (d @ [(n, fresh s)]))"
    and "refs (add_int m n v s) = (refs s)(fresh s := 1)"
proof -
  obtain a s1 where al: "alloc (PyLong v) 1 s = (a, s1)"
    by (cases "alloc (PyLong v) 1 s")
  note ob = alloc_obs [OF al]
  from ob assms have m: "objs s1 m = Some (PyModule mn d)"
    by simp
  from module_store_new [OF m assms(2), of a] ob al
  show "objs (add_int m n v s) = (objs s)(fresh s \<mapsto> PyLong v, m \<mapsto> PyModule mn (d @ [(n, fresh s)]))"
    and "refs (add_int m n v s) = (refs s)(fresh s := 1)"
    by (simp_all add: add_int_def)
qed

lemma add_int_obs [simp]:
  "fresh (add_int m n v s) = fresh s + 1" "err (add_int m n v s) = err s"
  "trace (add_int m n v s) = trace s"
  by (simp_all add: add_int_def alloc_def)

lemma PyModule_AddIntConstant_result:
  assumes "PyModule_AddIntConstant h m n v s = (r, s')"
  shows "(r = - 1 \<and> failed_call (Module_AddIntConstant n v) s s') \<or>
         (r = 0 \<and> fresh s' = fresh s + 1 \<and> err s' = err s \<and>
          trace s' = trace s @ [Host (Module_AddIntConstant n v) Done] \<and>
          objs s' = objs (add_int m n v s) \<and> refs s' = refs (add_int m n v s))"
  using assms unfolding PyModule_AddIntConstant_def
  by (auto split: if_splits dest!: status_call_result simp: raise_host_failed)

lemma type_store_obs [simp]:
  "fresh (type_store obj attr v s) = fresh s" "err (type_store obj attr v s) = err s"
  "trace (type_store obj attr v s) = trace s"
  by (simp_all add: type_store_def split: option.splits pyval.splits)

lemma type_store_new:
  "objs s obj = Some (PyEnumType cls n ps as) \<Longrightarrow> map_of as attr = None \<Longrightarrow> objs s v \<noteq> None \<Longrightarrow>
     objs (type_store obj attr v s) = (objs s)(obj \<mapsto> PyEnumType cls n ps (as @ [(attr, v)])) \<and>
     refs (type_store obj attr v s) = (refs s)(v := refs s v + 1)"
  by (auto simp add: type_store_def update_new_key)

lemma PyObject_SetAttrString_result:
  assumes "PyObject_SetAttrString h obj attr v s = (r, s')"
  shows "(r = - 1 \<and> failed_call (Object_SetAttrString attr) s s') \<or>
         (r = 0 \<and> fresh s' = fresh s \<and> err s' = err s \<and>
          trace s' = trace s @ [Host (Object_SetAttrString attr) Done] \<and>
          objs s' = objs (type_store obj attr v s) \<and> refs s' = refs (type_store obj attr v s))"
  using assms unfolding PyObject_SetAttrString_def
  by (auto split: option.splits pyval.splits dest!: status_call_result
        simp: raise_host_failed)

lemma PyObject_CallFunction_sN_result:
  assumes "PyObject_CallFunction_sN h c n l s = (r, s')"
  shows "\<exists>s1. s' = release l s1 \<and>
           ((r = None \<and> failed_call (Object_CallFunction (class_of s c) n (list_rows s l)) s s1) \<or>
            (\<exists>a cls ps. r = Some a \<and> class_of s c = Some cls \<and> list_rows s l = Some ps \<and>
               made_object (Object_CallFunction (Some cls) n (Some ps))
                 (PyEnumType cls n ps []) 1 s a s1))"
  using assms unfolding PyObject_CallFunction_sN_def
  by (auto split: option.splits prod.splits dest!: new_object_result
        simp: raise_host_failed)

lemma PyList_SET_ITEM_obs [simp]:
  "refs (PyList_SET_ITEM l i v s) = refs s" "fresh (PyList_SET_ITEM l i v s) = fresh s"
  "err (PyList_SET_ITEM l i v s) = err s" "trace (PyList_SET_ITEM l i v s) = trace s"
  by (simp_all add: PyList_SET_ITEM_def split: option.splits pyval.splits)

lemma PyList_SET_ITEM_objs:
  "objs s l = Some (PyList items) \<Longrightarrow>
     objs (PyList_SET_ITEM l i v s) = (objs s)(l \<mapsto> PyList (items[nat i := Some v]))"
  by (simp add: PyList_SET_ITEM_def)

section \<open>One run of \<open>add_enum\<close>\<close>

lemma loop_trace:
  "add_enum_loop h d l n i s = (b, s') \<Longrightarrow>
     \<exists>bs. list_all built bs \<and> fresh s \<le> fresh s' \<and>
       (if b then trace s' = trace s @ bs \<and> err s' = err s
        else (\<exists>t v. trace s' = trace s @ bs @ [Host (BuildValue_si t v) Failed, Decref l]) \<and>
             err s' = Some HostError)"
proof (induction h d l n i s arbitrary: b s' rule: add_enum_loop.induct)
  case (1 h d l n i s)
  show ?case
  proof (cases "i < n")
    case False
    with "1.prems" have "b" "s' = s"
      by (simp_all add: add_enum_loop.simps)
    then show ?thesis
      by (intro exI [of _ "[]"]) simp
  next
    case True
    obtain r s1 where bv: "Py_BuildValue_si h (EnumDef.text d i) (EnumDef.value d i) s = (r, s1)"
      by (cases "Py_BuildValue_si h (EnumDef.text d i) (EnumDef.value d i) s")
    show ?thesis
    proof (cases r)
      case None
      with bv True "1.prems" have res: "b = False" "s' = Py_DECREF l s1"
        by (simp_all add: add_enum_loop.simps)
      from Py_BuildValue_si_result [OF bv] None
      have "failed_call (BuildValue_si (EnumDef.text d i) (EnumDef.value d i)) s s1"
        by simp
      with res show ?thesis
        by (intro exI [of _ "[]"]) (auto simp add: failed_call_def)
    next
      case (Some e)
      with bv True "1.prems"
      have rec: "add_enum_loop h d l n (i + 1) (PyList_SET_ITEM l i e s1) = (b, s')"
        by (simp add: add_enum_loop.simps)
      from Py_BuildValue_si_result [OF bv] Some
      have mk: "made_object (BuildValue_si (EnumDef.text d i) (EnumDef.value d i))
                  (PyTuple_si (EnumDef.text d i) (c_int (EnumDef.value d i))) 1 s e s1"
        by simp
      from "1.IH" [OF True bv [symmetric] Some rec]
      obtain bs where bs: "list_all built bs" "fresh (PyList_SET_ITEM l i e s1) \<le> fresh s'"
        "if b then trace s' = trace (PyList_SET_ITEM l i e s1) @ bs \<and>
                   err s' = err (PyList_SET_ITEM l i e s1)
         else (\<exists>t v. trace s' = trace (PyList_SET_ITEM l i e s1) @ bs @
                       [Host (BuildValue_si t v) Failed, Decref l]) \<and>
              err s' = Some HostError"
        by blast
      let ?e = "Host (BuildValue_si (EnumDef.text d i) (EnumDef.value d i)) (New e)"
      from bs mk show ?thesis
        by (intro exI [of _ "?e # bs"]) (auto simp add: made_object_def split: if_splits)
    qed
  qed
qed

lemma set_map_filter_id: "set (List.map_filter id xs) = {a. Some a \<in> set xs}"
  by (induction xs) (auto simp add: List.map_filter_def)

lemma those_map_nth:
  "\<forall>j<length xs. f (xs ! j) = Some (g j) \<Longrightarrow> those (map f xs) = Some (map g [0..<length xs])"
proof (induction xs arbitrary: g)
  case Nil
  then show ?case by simp
next
  case (Cons x xs)
  from Cons.prems have x: "f x = Some (g 0)"
    by auto
  from Cons.prems have "\<forall>j<length xs. f (xs ! j) = Some ((\<lambda>k. g (Suc k)) j)"
    by auto
  from Cons.IH [OF this] x show ?case
    by (simp add: map_upt_Suc del: upt_Suc)
qed

lemma loop_heap:
  assumes "add_enum_loop h d l n i s = (b, s')"
    and "objs s l = Some (PyList items)" and "l < fresh s" and "0 \<le> i"
    and "length items = nat n"
    and "\<forall>a. Some a \<in> set items \<longrightarrow> l < a \<and> a < fresh s \<and> held (objs s a) = []"
  shows "(\<forall>a<l. objs s' a = objs s a \<and> refs s' a = refs s a) \<and>
         (b \<longrightarrow> (\<exists>items'. objs s' l = Some (PyList items') \<and> length items' = nat n \<and>
            refs s' l = refs s l \<and>
            (\<forall>j<nat i. items' ! j = items ! j) \<and>
            (\<forall>j. nat i \<le> j \<and> j < nat n \<longrightarrow>
               pair_at s' (items' ! j) = Some (EnumDef.text d (int j), c_int (EnumDef.value d (int j)))) \<and>
            (\<forall>a<fresh s. a \<noteq> l \<longrightarrow> objs s' a = objs s a \<and> refs s' a = refs s a) \<and>
            (\<forall>a. Some a \<in> set items' \<longrightarrow> l < a \<and> a < fresh s')))"
  using assms
proof (induction h d l n i s arbitrary: b s' items rule: add_enum_loop.induct)
  case (1 h d l n i s)
  note inv = "1.prems"(2-6)
  show ?case
  proof (cases "i < n")
    case False
    with "1.prems"(1) have "b" "s' = s"
      by (simp_all add: add_enum_loop.simps)
    with inv False show ?thesis
      by auto
  next
    case True
    obtain r s1 where bv: "Py_BuildValue_si h (EnumDef.text d i) (EnumDef.value d i) s = (r, s1)"
      by (cases "Py_BuildValue_si h (EnumDef.text d i) (EnumDef.value d i) s")
    show ?thesis
    proof (cases r)
      case None
      with bv True "1.prems"(1) have res: "b = False" "s' = Py_DECREF l s1"
        by (simp_all add: add_enum_loop.simps)
      from Py_BuildValue_si_result [OF bv] None
      have s1: "objs s1 = objs s" "refs s1 = refs s"
        by (simp_all add: failed_call_def)
      have "objs s' a = objs s a \<and> refs s' a = refs s a" if "a < l" for a
      proof -
        from that inv have "a \<noteq> l" "a \<notin> set (held (objs s1 l))"
          "\<forall>c\<in>set (held (objs s1 l)). held (objs s1 c) = []"
          by (auto simp add: s1 set_map_filter_id)
        from Py_DECREF_other [OF this] show ?thesis
          by (simp add: res s1)
      qed
      with res show ?thesis
        by simp
    next
      case (Some e)
      with bv True "1.prems"(1)
      have rec: "add_enum_loop h d l n (i + 1) (PyList_SET_ITEM l i e s1) = (b, s')"
        by (simp add: add_enum_loop.simps)
      let ?s2 = "PyList_SET_ITEM l i e s1"
      let ?items2 = "items[nat i := Some e]"
      from Py_BuildValue_si_result [OF bv] Some
      have e: "e = fresh s"
        and mk: "objs s1 = (objs s)(e \<mapsto> PyTuple_si (EnumDef.text d i) (c_int (EnumDef.value d i)))"
        "refs s1 = (refs s)(e := 1)" "fresh s1 = e + 1"
        by (simp_all add: made_object_def)
      from e inv have le: "l < e" "l \<noteq> e"
        by simp_all
      from mk inv le have l1: "objs s1 l = Some (PyList items)"
        by simp
      have o2: "objs ?s2 = (objs s1)(l \<mapsto> PyList ?items2)"
        by (rule PyList_SET_ITEM_objs [OF l1])
      have i2: "objs ?s2 l = Some (PyList ?items2)" "l < fresh ?s2" "0 \<le> i + 1"
        "length ?items2 = nat n"
        using inv mk le by (simp_all add: o2)
      have i3: "\<forall>a. Some a \<in> set ?items2 \<longrightarrow> l < a \<and> a < fresh ?s2 \<and> held (objs ?s2 a) = []"
      proof (intro allI impI)
        fix a assume "Some a \<in> set ?items2"
        then have "Some a = Some e \<or> Some a \<in> set items"
          using set_update_subset_insert [of items "nat i" "Some e"] by auto
        then consider "a = e" | "Some a \<in> set items" "a \<noteq> e"
          by auto
        then show "l < a \<and> a < fresh ?s2 \<and> held (objs ?s2 a) = []"
        proof cases
          case 1
          have "objs ?s2 e = Some (PyTuple_si (EnumDef.text d i) (c_int (EnumDef.value d i)))"
            using mk le by (simp add: o2)
          with 1 le mk show ?thesis
            by simp
        next
          case 2
          with inv have a: "l < a" "a < fresh s" "held (objs s a) = []"
            by auto
          with 2 mk have "objs ?s2 a = objs s a"
            by (simp add: o2)
          with a mk e show ?thesis
            by simp
        qed
      qed
      from "1.IH" [OF True bv [symmetric] Some rec i2 i3]
      have frame: "\<forall>a<l. objs s' a = objs ?s2 a \<and> refs s' a = refs ?s2 a"
        and succ: "b \<longrightarrow> (\<exists>items'. objs s' l = Some (PyList items') \<and> length items' = nat n \<and>
            refs s' l = refs ?s2 l \<and>
            (\<forall>j<nat (i + 1). items' ! j = ?items2 ! j) \<and>
            (\<forall>j. nat (i + 1) \<le> j \<and> j < nat n \<longrightarrow>
               pair_at s' (items' ! j) = Some (EnumDef.text d (int j), c_int (EnumDef.value d (int j)))) \<and>
            (\<forall>a<fresh ?s2. a \<noteq> l \<longrightarrow> objs s' a = objs ?s2 a \<and> refs s' a = refs ?s2 a) \<and>
            (\<forall>a. Some a \<in> set items' \<longrightarrow> l < a \<and> a < fresh s'))"
        by blast+
      have fe: "fresh ?s2 = fresh s + 1"
        using mk e by simp
      have old: "objs ?s2 a = objs s a \<and> refs ?s2 a = refs s a" if "a < fresh s" "a \<noteq> l" for a
      proof -
        from that e have "a \<noteq> e"
          by simp
        with that mk show ?thesis
          by (simp add: o2)
      qed
      have part1: "\<forall>a<l. objs s' a = objs s a \<and> refs s' a = refs s a"
        using frame old inv by auto
      have part2: "\<exists>items'. objs s' l = Some (PyList items') \<and> length items' = nat n \<and>
            refs s' l = refs s l \<and>
            (\<forall>j<nat i. items' ! j = items ! j) \<and>
            (\<forall>j. nat i \<le> j \<and> j < nat n \<longrightarrow>
               pair_at s' (items' ! j) = Some (EnumDef.text d (int j), c_int (EnumDef.value d (int j)))) \<and>
            (\<forall>a<fresh s. a \<noteq> l \<longrightarrow> objs s' a = objs s a \<and> refs s' a = refs s a) \<and>
            (\<forall>a. Some a \<in> set items' \<longrightarrow> l < a \<and> a < fresh s')" if b
      proof -
        from succ that obtain items' where it:
          "objs s' l = Some (PyList items')" "length items' = nat n" "refs s' l = refs ?s2 l"
          "\<forall>j<nat (i + 1). items' ! j = ?items2 ! j"
          "\<forall>j. nat (i + 1) \<le> j \<and> j < nat n \<longrightarrow>
               pair_at s' (items' ! j) = Some (EnumDef.text d (int j), c_int (EnumDef.value d (int j)))"
          "\<forall>a<fresh ?s2. a \<noteq> l \<longrightarrow> objs s' a = objs ?s2 a \<and> refs s' a = refs ?s2 a"
          "\<forall>a. Some a \<in> set items' \<longrightarrow> l < a \<and> a < fresh s'"
          by blast
        have ni: "nat (i + 1) = Suc (nat i)" "nat i < length items" "int (nat i) = i"
          using inv True by simp_all
        have at_i: "items' ! nat i = Some e"
          using it(4) ni by simp
        have e_obj: "objs s' e = Some (PyTuple_si (EnumDef.text d i) (c_int (EnumDef.value d i)))"
          using it(6) mk le by (simp add: o2)
        have "pair_at s' (items' ! j) = Some (EnumDef.text d (int j), c_int (EnumDef.value d (int j)))"
          if "nat i \<le> j" "j < nat n" for j
        proof (cases "j = nat i")
          case True
          with at_i e_obj ni show ?thesis
            by (simp add: pair_at_def)
        next
          case False
          with that ni it(5) show ?thesis
            by simp
        qed
        moreover have "\<forall>j<nat i. items' ! j = items ! j"
          using it(4) ni by simp
        moreover have "\<forall>a<fresh s. a \<noteq> l \<longrightarrow> objs s' a = objs s a \<and> refs s' a = refs s a"
          using it(6) old fe by simp
        moreover have "refs s' l = refs s l"
          using it(3) mk le by simp
        ultimately show ?thesis
          using it(1,2,7) by blast
      qed
      from part1 part2 show ?thesis
        by blast
    qed
  qed
qed

lemma add_enum_doc_result:
  assumes t: "objs s t = Some (PyEnumType cls n ps [])" "t < fresh s"
    and s'_def: "s' = add_enum_doc h d t s"
  shows "\<exists>ds as. doc_events ds \<and> trace s' = trace s @ ds \<and>
           err s' = (if \<exists>e\<in>set ds. failed e then Some HostError else err s) \<and>
           fresh s \<le> fresh s' \<and>
           objs s' t = Some (PyEnumType cls n ps as) \<and>
           (\<forall>a<fresh s. refs s' a = refs s a \<and> (a \<noteq> t \<longrightarrow> objs s' a = objs s a))"
proof (cases "doc d")
  case None
  then have "s' = s"
    by (simp add: s'_def add_enum_doc_def)
  with t show ?thesis
    by (intro exI [of _ "[]"] exI [of _ "[]"]) (simp add: doc_events_def)
next
  case (Some docstring)
  obtain r s1 where u: "PyUnicode_FromString h docstring s = (r, s1)"
    by (cases "PyUnicode_FromString h docstring s")
  show ?thesis
  proof (cases r)
    case None
    with u Some have "s' = s1"
      by (simp add: s'_def add_enum_doc_def)
    moreover from PyUnicode_FromString_result [OF u] None
    have "failed_call (Unicode_FromString docstring) s s1"
      by simp
    ultimately show ?thesis
      using t
      by (intro exI [of _ "[Host (Unicode_FromString docstring) Failed]"] exI [of _ "[]"])
         (simp add: doc_events_def failed_call_def)
  next
    case (Some u')
    obtain r2 s2 where sa: "PyObject_SetAttrString h t ''__doc__'' u' s1 = (r2, s2)"
      by (cases "PyObject_SetAttrString h t ''__doc__'' u' s1")
    from u Some \<open>doc d = Some docstring\<close> sa have s': "s' = Py_DECREF u' s2"
      by (simp add: s'_def add_enum_doc_def)
    from PyUnicode_FromString_result [OF u] Some
    have u': "u' = fresh s"
      and mk: "objs s1 = (objs s)(u' \<mapsto> PyUnicode docstring)" "refs s1 = (refs s)(u' := 1)"
        "fresh s1 = u' + 1" "err s1 = err s"
        "trace s1 = trace s @ [Host (Unicode_FromString docstring) (New u')]"
      by (simp_all add: made_object_def)
    from u' t have tu: "t \<noteq> u'" "t < u'"
      by simp_all
    from PyObject_SetAttrString_result [OF sa]
    obtain as ro where set: "ro = Done \<or> ro = Failed"
      "trace s2 = trace s1 @ [Host (Object_SetAttrString ''__doc__'') ro]"
      "err s2 = (if ro = Failed then Some HostError else err s1)"
      "fresh s2 = fresh s1" "\<forall>a. a \<noteq> u' \<longrightarrow> refs s2 a = refs s1 a"
      "objs s2 = (objs s1)(t \<mapsto> PyEnumType cls n ps as)"
    proof (elim disjE conjE)
      assume "r2 = - 1" "failed_call (Object_SetAttrString ''__doc__'') s1 s2"
      with mk t tu show ?thesis
        by (intro that [of Failed "[]"]) (auto simp add: failed_call_def)
    next
      assume ok: "r2 = 0" "fresh s2 = fresh s1" "err s2 = err s1"
        "trace s2 = trace s1 @ [Host (Object_SetAttrString ''__doc__'') Done]"
        "objs s2 = objs (type_store t ''__doc__'' u' s1)"
        "refs s2 = refs (type_store t ''__doc__'' u' s1)"
      have "objs s1 t = Some (PyEnumType cls n ps [])" "map_of [] ''__doc__'' = None"
        "objs s1 u' \<noteq> None"
        using mk t tu by simp_all
      from type_store_new [OF this] ok show ?thesis
        by (intro that [of Done "[] @ [(''__doc__'', u')]"]) simp_all
    qed
    have held: "held (objs s2 u') = []"
      using set mk tu by simp
    have other: "objs s' a = objs s2 a \<and> refs s' a = refs s2 a" if "a \<noteq> u'" for a
      using Py_DECREF_other [of a u' s2] that held by (simp add: s')
    have "objs s' t = Some (PyEnumType cls n ps as)"
      using other [of t] tu set by simp
    moreover have "\<forall>a<fresh s. refs s' a = refs s a \<and> (a \<noteq> t \<longrightarrow> objs s' a = objs s a)"
      using other set mk u' by simp
    moreover have "trace s' = trace s @ [Host (Unicode_FromString docstring) (New u'),
        Host (Object_SetAttrString ''__doc__'') ro, Decref u']"
      using set mk by (simp add: s')
    moreover have "err s' = (if ro = Failed then Some HostError else err s)"
      using set mk by (simp add: s')
    moreover have "fresh s \<le> fresh s'"
      using set mk u' by (simp add: s')
    ultimately show ?thesis
      using set(1)
      by (intro exI [of _ "[Host (Unicode_FromString docstring) (New u'),
            Host (Object_SetAttrString ''__doc__'') ro, Decref u']"] exI [of _ as])
         (auto simp add: doc_events_def)
  qed
qed

lemma add_enum_cases [consumes 1, case_names no_list no_entry no_type no_install installed]:
  assumes "add_enum h d m c s = (ok, s')"
  obtains
    (no_list) "\<not> ok" "failed_call (List_New (count d)) s s'"
  | (no_entry) l s1 where "\<not> ok" "0 \<le> count d"
      "made_object (List_New (count d)) (PyList (replicate (nat (count d)) None)) 1 s l s1"
      "add_enum_loop h d l (count d) 0 s1 = (False, s')"
  | (no_type) l s1 s2 s3 where "\<not> ok" "0 \<le> count d"
      "made_object (List_New (count d)) (PyList (replicate (nat (count d)) None)) 1 s l s1"
      "add_enum_loop h d l (count d) 0 s1 = (True, s2)"
      "failed_call (Object_CallFunction (class_of s2 c) (name d) (list_rows s2 l)) s2 s3"
      "s' = release l s3"
  | (no_install) l s1 s2 t cls ps s3 s4 s5 where "\<not> ok" "0 \<le> count d"
      "made_object (List_New (count d)) (PyList (replicate (nat (count d)) None)) 1 s l s1"
      "add_enum_loop h d l (count d) 0 s1 = (True, s2)"
      "class_of s2 c = Some cls" "list_rows s2 l = Some ps"
      "made_object (Object_CallFunction (Some cls) (name d) (Some ps))
         (PyEnumType cls (name d) ps []) 1 s2 t s3"
      "s4 = add_enum_doc h d t (release l s3)"
      "failed_call (Module_AddObject (name d)) s4 s5"
      "s' = PyErr_Format_RuntimeError (''Could not add '' @ name d @ '' enum'') s5"
  | (installed) l s1 s2 t cls ps s3 s4 where "ok" "0 \<le> count d"
      "made_object (List_New (count d)) (PyList (replicate (nat (count d)) None)) 1 s l s1"
      "add_enum_loop h d l (count d) 0 s1 = (True, s2)"
      "class_of s2 c = Some cls" "list_rows s2 l = Some ps"
      "made_object (Object_CallFunction (Some cls) (name d) (Some ps))
         (PyEnumType cls (name d) ps []) 1 s2 t s3"
      "s4 = add_enum_doc h d t (release l s3)"
      "fresh s' = fresh s4" "err s' = err s4"
      "trace s' = trace s4 @ [Host (Module_AddObject (name d)) Done]"
      "objs s' = objs (module_store m (name d) t s4)"
      "refs s' = refs (module_store m (name d) t s4)"
proof -
  obtain r1 s1 where ln: "PyList_New h (count d) s = (r1, s1)"
    by (cases "PyList_New h (count d) s")
  show thesis
  proof (cases r1)
    case None
    with ln assms have "\<not> ok" "s' = s1"
      by (simp_all add: add_enum_def)
    with PyList_New_result [OF ln] None show thesis
      by (intro no_list) simp_all
  next
    case (Some l)
    with PyList_New_result [OF ln]
    have mk: "0 \<le> count d"
      "made_object (List_New (count d)) (PyList (replicate (nat (count d)) None)) 1 s l s1"
      by simp_all
    obtain b s2 where lp: "add_enum_loop h d l (count d) 0 s1 = (b, s2)"
      by (cases "add_enum_loop h d l (count d) 0 s1")
    show thesis
    proof (cases b)
      case False
      with ln Some lp assms have "\<not> ok" "s' = s2"
        by (simp_all add: add_enum_def)
      with mk lp False show thesis
        by (intro no_entry [of l s1]) simp_all
    next
      case True
      obtain r3 s3' where cf: "PyObject_CallFunction_sN h c (name d) l s2 = (r3, s3')"
        by (cases "PyObject_CallFunction_sN h c (name d) l s2")
      from PyObject_CallFunction_sN_result [OF cf]
      obtain s3 where s3: "s3' = release l s3"
        "(r3 = None \<and> failed_call (Object_CallFunction (class_of s2 c) (name d) (list_rows s2 l)) s2 s3) \<or>
         (\<exists>a cls ps. r3 = Some a \<and> class_of s2 c = Some cls \<and> list_rows s2 l = Some ps \<and>
            made_object (Object_CallFunction (Some cls) (name d) (Some ps))
              (PyEnumType cls (name d) ps []) 1 s2 a s3)"
        by blast
      show thesis
      proof (cases r3)
        case None
        with ln Some lp True cf assms have "\<not> ok" "s' = s3'"
          by (simp_all add: add_enum_def)
        with mk lp True s3 None show thesis
          by (intro no_type [of l s1 s2 s3]) simp_all
      next
        case (Some t)
        with s3 obtain cls ps where call: "class_of s2 c = Some cls" "list_rows s2 l = Some ps"
          "made_object (Object_CallFunction (Some cls) (name d) (Some ps))
              (PyEnumType cls (name d) ps []) 1 s2 t s3"
          by auto
        define s4 where "s4 = add_enum_doc h d t (release l s3)"
        obtain r5 s5 where ao: "PyModule_AddObject h m (name d) t s4 = (r5, s5)"
          by (cases "PyModule_AddObject h m (name d) t s4")
        from ln \<open>r1 = Some l\<close> lp True cf Some ao assms s3(1)
        have fin: "(ok, s') = (if r5 \<noteq> 0
             then (False, PyErr_Format_RuntimeError (''Could not add '' @ name d @ '' enum'') s5)
             else (True, s5))"
          by (simp add: add_enum_def s4_def)
        from PyModule_AddObject_result [OF ao] show thesis
        proof (elim disjE conjE)
          assume "r5 = - 1" "failed_call (Module_AddObject (name d)) s4 s5"
          with fin mk lp True call s4_def show thesis
            by (intro no_install [of l s1 s2 cls ps t s3 s4 s5]) simp_all
        next
          assume "r5 = 0" "fresh s5 = fresh s4" "err s5 = err s4"
            "trace s5 = trace s4 @ [Host (Module_AddObject (name d)) Done]"
            "objs s5 = objs (module_store m (name d) t s4)"
            "refs s5 = refs (module_store m (name d) t s4)"
          with fin mk lp True call s4_def show thesis
            by (intro installed [of l s1 s2 cls ps t s3 s4]) simp_all
        qed
      qed
    qed
  qed
qed

lemma since_append: "trace s' = trace s @ evs \<Longrightarrow> since s s' = evs"
  by (simp add: since_def)

text \<open>The state after the list is made and the loop has run.\<close>

lemma after_loop:
  assumes mk: "made_object (List_New (count d)) (PyList (replicate (nat (count d)) None)) 1 s l s1"
    and lp: "add_enum_loop h d l (count d) 0 s1 = (b, s2)"
  shows "\<exists>bs. list_all built bs \<and> fresh s < fresh s2 \<and> l = fresh s \<and>
           (\<forall>a<fresh s. objs s2 a = objs s a \<and> refs s2 a = refs s a) \<and>
           (if b
            then trace s2 = trace s @ Host (List_New (count d)) (New l) # bs \<and> err s2 = err s \<and>
                 list_rows s2 l = Some (handed d) \<and> refs s2 l = 1 \<and>
                 (\<exists>items. objs s2 l = Some (PyList items) \<and>
                    (\<forall>a. Some a \<in> set items \<longrightarrow>
                       l < a \<and> a < fresh s2 \<and> held (objs s2 a) = []))
            else (\<exists>t v. trace s2 = trace s @ Host (List_New (count d)) (New l) # bs @
                           [Host (BuildValue_si t v) Failed, Decref l]) \<and>
                 err s2 = Some HostError)"
proof -
  let ?n = "count d"
  let ?items = "replicate (nat ?n) (None :: addr option)"
  from mk have l: "l = fresh s" and s1: "objs s1 = (objs s)(l \<mapsto> PyList ?items)"
    "refs s1 = (refs s)(l := 1)" "fresh s1 = l + 1" "err s1 = err s"
    "trace s1 = trace s @ [Host (List_New ?n) (New l)]"
    by (simp_all add: made_object_def)
  from loop_trace [OF lp] obtain bs where bs: "list_all built bs" "fresh s1 \<le> fresh s2"
    "if b then trace s2 = trace s1 @ bs \<and> err s2 = err s1
     else (\<exists>t v. trace s2 = trace s1 @ bs @ [Host (BuildValue_si t v) Failed, Decref l]) \<and>
          err s2 = Some HostError"
    by blast
  have pre: "objs s1 l = Some (PyList ?items)" "l < fresh s1" "(0::int) \<le> 0"
    "length ?items = nat ?n"
    "\<forall>a. Some a \<in> set ?items \<longrightarrow> l < a \<and> a < fresh s1 \<and> held (objs s1 a) = []"
    using s1 by simp_all
  from loop_heap [OF lp pre]
  have frame: "\<forall>a<l. objs s2 a = objs s1 a \<and> refs s2 a = refs s1 a"
    and succ: "b \<longrightarrow> (\<exists>items'. objs s2 l = Some (PyList items') \<and> length items' = nat ?n \<and>
            refs s2 l = refs s1 l \<and>
            (\<forall>j<nat 0. items' ! j = ?items ! j) \<and>
            (\<forall>j. nat 0 \<le> j \<and> j < nat ?n \<longrightarrow>
               pair_at s2 (items' ! j) = Some (EnumDef.text d (int j), c_int (EnumDef.value d (int j)))) \<and>
            (\<forall>a<fresh s1. a \<noteq> l \<longrightarrow> objs s2 a = objs s1 a \<and> refs s2 a = refs s1 a) \<and>
            (\<forall>a. Some a \<in> set items' \<longrightarrow> l < a \<and> a < fresh s2))"
    by blast+
  have f1: "\<forall>a<fresh s. objs s2 a = objs s a \<and> refs s2 a = refs s a"
    using frame s1 l by simp
  have f2: "fresh s < fresh s2"
    using bs(2) s1 l by simp
  show ?thesis
  proof (cases b)
    case False
    with bs s1 f1 f2 l show ?thesis
      by (intro exI [of _ bs]) auto
  next
    case True
    with succ obtain items' where it: "objs s2 l = Some (PyList items')"
      "length items' = nat ?n" "refs s2 l = refs s1 l"
      "\<forall>j. j < nat ?n \<longrightarrow>
         pair_at s2 (items' ! j) = Some (EnumDef.text d (int j), c_int (EnumDef.value d (int j)))"
      "\<forall>a. Some a \<in> set items' \<longrightarrow> l < a \<and> a < fresh s2"
      by auto
    from it(2,4)
    have "\<forall>j<length items'. pair_at s2 (items' ! j) =
            Some ((\<lambda>k. (EnumDef.text d (int k), c_int (EnumDef.value d (int k)))) j)"
      by simp
    from those_map_nth [OF this] it(1,2) have rows: "list_rows s2 l = Some (handed d)"
      by (simp add: list_rows_def handed_def)
    have leaves: "held (objs s2 a) = []" if "Some a \<in> set items'" for a
    proof -
      from that obtain j where "j < length items'" "items' ! j = Some a"
        by (auto simp add: in_set_conv_nth)
      with it(2,4) have "pair_at s2 (Some a) \<noteq> None"
        by auto
      then show ?thesis
        by (auto simp add: pair_at_def split: option.splits pyval.splits)
    qed
    from True bs s1 f1 f2 l rows it(1,3,5) leaves show ?thesis
      by (intro exI [of _ bs]) auto
  qed
qed

text \<open>Giving up the list after the call: nothing older than the list changes, nor the type.\<close>

lemma release_list:
  assumes "objs s3 l = Some (PyList items)"
    and "\<forall>a. Some a \<in> set items \<longrightarrow> l < a \<and> a < t \<and> held (objs s3 a) = []"
    and "a < l \<or> a = t" and "l < t"
  shows "objs (release l s3) a = objs s3 a \<and> refs (release l s3) a = refs s3 a"
proof -
  from assms have "a \<noteq> l" "a \<notin> set (held (objs s3 l))"
    "\<forall>c\<in>set (held (objs s3 l)). held (objs s3 c) = []"
    by (auto simp add: set_map_filter_id)
  then show ?thesis
    by (rule release_other)
qed

text \<open>The state in which \<open>add_enum\<close> calls \<open>PyModule_AddObject\<close>.\<close>

lemma before_install:
  assumes mk: "made_object (List_New (count d)) (PyList (replicate (nat (count d)) None)) 1 s l s1"
    and lp: "add_enum_loop h d l (count d) 0 s1 = (True, s2)"
    and cls: "class_of s2 c = Some cls" and ps: "list_rows s2 l = Some ps"
    and call: "made_object (Object_CallFunction (Some cls) (name d) (Some ps))
                 (PyEnumType cls (name d) ps []) 1 s2 t s3"
    and s4: "s4 = add_enum_doc h d t (release l s3)"
  shows "\<exists>bs ds as. list_all built bs \<and> doc_events ds \<and>
           trace s4 = trace s @ Host (List_New (count d)) (New l) # bs @
             Host (Object_CallFunction (Some cls) (name d) (Some (handed d))) (New t) # ds \<and>
           err s4 = (if \<exists>e\<in>set ds. failed e then Some HostError else err s) \<and>
           fresh s < t \<and> t < fresh s4 \<and>
           objs s4 t = Some (PyEnumType cls (name d) (handed d) as) \<and> refs s4 t = 1 \<and>
           (\<forall>a<fresh s. objs s4 a = objs s a \<and> refs s4 a = refs s a) \<and>
           (c < fresh s \<longrightarrow> class_of s c = Some cls)"
proof -
  from after_loop [OF mk lp] obtain bs items where lo: "list_all built bs" "fresh s < fresh s2"
    "l = fresh s" "\<forall>a<fresh s. objs s2 a = objs s a \<and> refs s2 a = refs s a"
    "trace s2 = trace s @ Host (List_New (count d)) (New l) # bs" "err s2 = err s"
    "list_rows s2 l = Some (handed d)" "refs s2 l = 1" "objs s2 l = Some (PyList items)"
    "\<forall>a. Some a \<in> set items \<longrightarrow> l < a \<and> a < fresh s2 \<and> held (objs s2 a) = []"
    by auto
  from ps lo have rows: "ps = handed d"
    by simp
  from call have t: "t = fresh s2"
    and s3: "objs s3 = (objs s2)(t \<mapsto> PyEnumType cls (name d) ps [])"
      "refs s3 = (refs s2)(t := 1)" "fresh s3 = t + 1" "err s3 = err s2"
      "trace s3 = trace s2 @ [Host (Object_CallFunction (Some cls) (name d) (Some ps)) (New t)]"
    by (simp_all add: made_object_def)
  from t lo have lt: "l < t" "l \<noteq> t"
    by simp_all
  let ?s3r = "release l s3"
  have l3: "objs s3 l = Some (PyList items)"
    using s3 lt lo by simp
  have it3: "\<forall>a. Some a \<in> set items \<longrightarrow> l < a \<and> a < t \<and> held (objs s3 a) = []"
    using lo t s3 by auto
  have rel: "objs ?s3r a = objs s3 a \<and> refs ?s3r a = refs s3 a" if "a < l \<or> a = t" for a
    using release_list [OF l3 it3 that lt(1)] .
  have t3: "objs ?s3r t = Some (PyEnumType cls (name d) ps [])" "t < fresh ?s3r"
    using rel [of t] s3 by simp_all
  from add_enum_doc_result [OF t3 s4] obtain ds as where doc: "doc_events ds"
    "trace s4 = trace ?s3r @ ds"
    "err s4 = (if \<exists>e\<in>set ds. failed e then Some HostError else err ?s3r)"
    "fresh ?s3r \<le> fresh s4" "objs s4 t = Some (PyEnumType cls (name d) ps as)"
    "\<forall>a<fresh ?s3r. refs s4 a = refs ?s3r a \<and> (a \<noteq> t \<longrightarrow> objs s4 a = objs ?s3r a)"
    by blast
  have old: "objs s4 a = objs s a \<and> refs s4 a = refs s a" if "a < fresh s" for a
  proof -
    from that lo t have a: "a < l" "a \<noteq> t" "a < fresh ?s3r"
      using s3 by simp_all
    with doc(6) rel [of a] s3 lo(4) that show ?thesis
      by simp
  qed
  have "refs s4 t = 1"
    using doc(6) rel [of t] s3 by simp
  moreover have "c < fresh s \<longrightarrow> class_of s c = Some cls"
    using cls lo(4) by (auto simp add: class_of_def)
  moreover have "trace s4 = trace s @ Host (List_New (count d)) (New l) # bs @
             Host (Object_CallFunction (Some cls) (name d) (Some (handed d))) (New t) # ds"
    using doc(2) s3 lo(5) rows by simp
  moreover have "err s4 = (if \<exists>e\<in>set ds. failed e then Some HostError else err s)"
    using doc(3) s3 lo(6) by simp
  moreover have "fresh s < t" "t < fresh s4"
    using lo t doc(4) s3 by simp_all
  ultimately show ?thesis
    using lo(1) doc(1,5) rows old by blast
qed

lemma built_not_failed: "list_all built bs \<Longrightarrow> e \<in> set bs \<Longrightarrow> \<not> failed e"
  by (cases e rule: built.cases) (auto simp add: list_all_iff)

lemma group_events_no_list: "group_events d False [Host (List_New (count d)) Failed]"
  by (simp add: group_events_def)

lemma group_events_no_entry:
  "list_all built bs \<Longrightarrow>
   group_events d False (Host (List_New (count d)) (New l) # bs @
     [Host (BuildValue_si t v) Failed, Decref l])"
  unfolding group_events_def by blast

lemma group_events_no_type:
  "list_all built bs \<Longrightarrow>
   group_events d False (Host (List_New (count d)) (New l) # bs @
     [Host (Object_CallFunction c (name d) (Some (handed d))) Failed])"
  unfolding group_events_def by blast

lemma group_events_type:
  "list_all built bs \<Longrightarrow> doc_events ds \<Longrightarrow>
   group_events d ok (Host (List_New (count d)) (New l) # bs @
     Host (Object_CallFunction (Some cls) (name d) (Some (handed d))) (New t) # ds @
     [Host (Module_AddObject (name d)) (if ok then Done else Failed)])"
  unfolding group_events_def by blast

lemma add_enum_events:
  assumes run: "add_enum h d m c s = (ok, s')"
  shows "trace s' = trace s @ since s s' \<and> group_events d ok (since s s') \<and>
         fresh s \<le> fresh s' \<and>
         (if ok then err s' = (if \<exists>e\<in>set (since s s'). failed e then Some HostError else err s)
          else err s' \<noteq> None)"
proof -
  have "\<exists>evs. trace s' = trace s @ evs \<and> group_events d ok evs \<and> fresh s \<le> fresh s' \<and>
         (if ok then err s' = (if \<exists>e\<in>set evs. failed e then Some HostError else err s)
          else err s' \<noteq> None)"
    using run
  proof (cases rule: add_enum_cases)
    case no_list
    then show ?thesis
      by (intro exI [of _ "[Host (List_New (count d)) Failed]"])
         (simp add: failed_call_def group_events_no_list)
  next
    case (no_entry l s1)
    from after_loop [OF no_entry(3,4)] obtain bs t v where "list_all built bs"
      "fresh s < fresh s'" "err s' = Some HostError"
      "trace s' = trace s @ Host (List_New (count d)) (New l) # bs @
         [Host (BuildValue_si t v) Failed, Decref l]"
      by auto
    with no_entry(1) show ?thesis
      by (intro exI [of _ "Host (List_New (count d)) (New l) # bs @
            [Host (BuildValue_si t v) Failed, Decref l]"])
         (simp add: group_events_no_entry)
  next
    case (no_type l s1 s2 s3)
    from after_loop [OF no_type(3,4)] obtain bs where "list_all built bs"
      "fresh s < fresh s2" "list_rows s2 l = Some (handed d)"
      "trace s2 = trace s @ Host (List_New (count d)) (New l) # bs"
      by auto
    with no_type(1,5,6) show ?thesis
      by (intro exI [of _ "Host (List_New (count d)) (New l) # bs @
            [Host (Object_CallFunction (class_of s2 c) (name d) (Some (handed d))) Failed]"])
         (simp add: group_events_no_type failed_call_def)
  next
    case (no_install l s1 s2 t cls ps s3 s4 s5)
    from before_install [OF no_install(3-8)] obtain bs ds where b: "list_all built bs"
      "doc_events ds" "fresh s < t" "t < fresh s4"
      "trace s4 = trace s @ Host (List_New (count d)) (New l) # bs @
         Host (Object_CallFunction (Some cls) (name d) (Some (handed d))) (New t) # ds"
      by blast
    with no_install(1,9,10) show ?thesis
      by (intro exI [of _ "Host (List_New (count d)) (New l) # bs @
            Host (Object_CallFunction (Some cls) (name d) (Some (handed d))) (New t) # ds @
            [Host (Module_AddObject (name d)) Failed]"])
         (simp add: group_events_type [where ok = False, simplified] failed_call_def)
  next
    case (installed l s1 s2 t cls ps s3 s4)
    from before_install [OF installed(3-8)] obtain bs ds where b: "list_all built bs"
      "doc_events ds" "fresh s < t" "t < fresh s4"
      "trace s4 = trace s @ Host (List_New (count d)) (New l) # bs @
         Host (Object_CallFunction (Some cls) (name d) (Some (handed d))) (New t) # ds"
      "err s4 = (if \<exists>e\<in>set ds. failed e then Some HostError else err s)"
      by blast
    let ?evs = "Host (List_New (count d)) (New l) # bs @
            Host (Object_CallFunction (Some cls) (name d) (Some (handed d))) (New t) # ds @
            [Host (Module_AddObject (name d)) Done]"
    have "(\<exists>e\<in>set ?evs. failed e) \<longleftrightarrow> (\<exists>e\<in>set ds. failed e)"
      using built_not_failed [OF b(1)] by auto
    with b installed(1,9-11) show ?thesis
      by (intro exI [of _ ?evs]) (simp add: group_events_type [where ok = True, simplified])
  qed
  then obtain evs where evs: "trace s' = trace s @ evs" "group_events d ok evs"
    "fresh s \<le> fresh s'"
    "if ok then err s' = (if \<exists>e\<in>set evs. failed e then Some HostError else err s)
     else err s' \<noteq> None"
    by blast
  from since_append [OF evs(1)] evs show ?thesis
    by simp
qed

lemma add_enum_failed_frame:
  assumes run: "add_enum h d m c s = (False, s')" and a: "a < fresh s"
  shows "objs s' a = objs s a \<and> refs s' a = refs s a"
  using run
proof (cases rule: add_enum_cases)
  case no_list
  then show ?thesis
    by (simp add: failed_call_def)
next
  case (no_entry l s1)
  from after_loop [OF no_entry(3,4)] a show ?thesis
    by auto
next
  case (no_type l s1 s2 s3)
  from after_loop [OF no_type(3,4)] obtain items where lo: "l = fresh s"
    "\<forall>a<fresh s. objs s2 a = objs s a \<and> refs s2 a = refs s a"
    "objs s2 l = Some (PyList items)"
    "\<forall>a. Some a \<in> set items \<longrightarrow> l < a \<and> a < fresh s2 \<and> held (objs s2 a) = []"
    "fresh s < fresh s2"
    by auto
  from no_type(5) have s3: "objs s3 = objs s2" "refs s3 = refs s2"
    by (simp_all add: failed_call_def)
  from lo a s3 have "objs s3 l = Some (PyList items)"
    "\<forall>a. Some a \<in> set items \<longrightarrow> l < a \<and> a < fresh s2 \<and> held (objs s3 a) = []"
    "a < l \<or> a = fresh s2" "l < fresh s2"
    by simp_all
  from release_list [OF this] lo a s3 no_type(6) show ?thesis
    by simp
next
  case (no_install l s1 s2 t cls ps s3 s4 s5)
  from before_install [OF no_install(3-8)] a
  have "objs s4 a = objs s a \<and> refs s4 a = refs s a"
    by blast
  with no_install(9,10) show ?thesis
    by (simp add: failed_call_def)
next
  case installed
  then show ?thesis
    by simp
qed

text \<open>
  When the module refuses the type, the type is still there with the one reference that
  \<open>add_enum\<close> held, and \<open>add_enum\<close> has returned.
\<close>

lemma add_enum_not_installed:
  assumes run: "add_enum h d m c s = (ok, s')"
    and ev: "Host (Module_AddObject (name d)) Failed \<in> set (since s s')"
  shows "\<not> ok \<and> (\<exists>t cls as. fresh s < t \<and>
           objs s' t = Some (PyEnumType cls (name d) (handed d) as) \<and> refs s' t = 1)"
  using run
proof (cases rule: add_enum_cases)
  case no_list
  from no_list(2) have "since s s' = [Host (List_New (count d)) Failed]"
    by (intro since_append) (simp add: failed_call_def)
  with ev show ?thesis
    by simp
next
  case (no_entry l s1)
  from after_loop [OF no_entry(3,4)] obtain bs t v where bs: "list_all built bs"
    "trace s' = trace s @ Host (List_New (count d)) (New l) # bs @
       [Host (BuildValue_si t v) Failed, Decref l]"
    by auto
  from since_append [OF bs(2)] ev bs(1) show ?thesis
    by (auto simp add: list_all_iff)
next
  case (no_type l s1 s2 s3)
  from after_loop [OF no_type(3,4)] obtain bs where bs: "list_all built bs"
    "trace s2 = trace s @ Host (List_New (count d)) (New l) # bs"
    by auto
  with no_type(5,6)
  have "trace s' = trace s @ Host (List_New (count d)) (New l) # bs @
     [Host (Object_CallFunction (class_of s2 c) (name d) (list_rows s2 l)) Failed]"
    by (simp add: failed_call_def)
  from since_append [OF this] ev bs(1) show ?thesis
    by (auto simp add: list_all_iff)
next
  case (no_install l s1 s2 t cls ps s3 s4 s5)
  from before_install [OF no_install(3-8)] obtain as where "fresh s < t"
    "objs s4 t = Some (PyEnumType cls (name d) (handed d) as)" "refs s4 t = 1"
    by blast
  with no_install(1,9,10) show ?thesis
    by (auto simp add: failed_call_def)
next
  case (installed l s1 s2 t cls ps s3 s4)
  from before_install [OF installed(3-8)] obtain bs ds where b: "list_all built bs"
    "doc_events ds"
    "trace s4 = trace s @ Host (List_New (count d)) (New l) # bs @
       Host (Object_CallFunction (Some cls) (name d) (Some (handed d))) (New t) # ds"
    by blast
  with installed(11)
  have "trace s' = trace s @ Host (List_New (count d)) (New l) # bs @
       Host (Object_CallFunction (Some cls) (name d) (Some (handed d))) (New t) # ds @
       [Host (Module_AddObject (name d)) Done]"
    by simp
  from since_append [OF this] ev b(1,2) show ?thesis
    by (auto simp add: list_all_iff doc_events_def)
qed

lemma add_enum_installed:
  assumes run: "add_enum h d m c s = (True, s')"
    and m: "m < fresh s" "objs s m = Some (PyModule mn dict)" "map_of dict (name d) = None"
  shows "\<exists>t cls as. fresh s < t \<and> t < fresh s' \<and>
           objs s' t = Some (PyEnumType cls (name d) (handed d) as) \<and> refs s' t = 1 \<and>
           (c < fresh s \<longrightarrow> class_of s c = Some cls) \<and>
           objs s' m = Some (PyModule mn (dict @ [(name d, t)])) \<and>
           (\<forall>a<fresh s. refs s' a = refs s a \<and> (a \<noteq> m \<longrightarrow> objs s' a = objs s a))"
  using run
proof (cases rule: add_enum_cases)
  case (installed l s1 s2 t cls ps s3 s4)
  from before_install [OF installed(3-8)] obtain as where b: "fresh s < t" "t < fresh s4"
    "objs s4 t = Some (PyEnumType cls (name d) (handed d) as)" "refs s4 t = 1"
    "\<forall>a<fresh s. objs s4 a = objs s a \<and> refs s4 a = refs s a"
    "c < fresh s \<longrightarrow> class_of s c = Some cls"
    by blast
  from b(5) m have m4: "objs s4 m = Some (PyModule mn dict)"
    by simp
  from module_store_new [OF m4 m(3), of t] installed(12,13)
  have st: "objs s' = (objs s4)(m \<mapsto> PyModule mn (dict @ [(name d, t)]))" "refs s' = refs s4"
    by simp_all
  from m b(1) have "t \<noteq> m"
    by simp
  with st b installed(9) show ?thesis
    by (intro exI [of _ t] exI [of _ cls] exI [of _ as]) simp
qed simp_all

subsection \<open>What the events of a run tell\<close>

lemma built_cases: "built e \<Longrightarrow> \<exists>t v a. e = Host (BuildValue_si t v) (New a)"
  by (cases e rule: built.cases) simp_all

lemma built_events:
  assumes "list_all built bs" "e \<in> set bs"
  shows "\<exists>t v a. e = Host (BuildValue_si t v) (New a)"
  using assms by (simp add: list_all_iff built_cases)

lemma doc_events_cases:
  assumes "doc_events ds" "e \<in> set ds"
  shows "(\<exists>t r. e = Host (Unicode_FromString t) r) \<or>
         (\<exists>r. e = Host (Object_SetAttrString ''__doc__'') r \<and> (r = Done \<or> r = Failed)) \<or>
         (\<exists>u. e = Decref u)"
  using assms unfolding doc_events_def by auto

lemma group_events_cases [consumes 1, case_names no_list no_entry no_type typed]:
  assumes "group_events d ok evs"
  obtains
    (no_list) "\<not> ok" "evs = [Host (List_New (count d)) Failed]"
  | (no_entry) l bs t v where "\<not> ok" "list_all built bs"
      "evs = Host (List_New (count d)) (New l) # bs @ [Host (BuildValue_si t v) Failed, Decref l]"
  | (no_type) l bs c where "\<not> ok" "list_all built bs"
      "evs = Host (List_New (count d)) (New l) # bs @
         [Host (Object_CallFunction c (name d) (Some (handed d))) Failed]"
  | (typed) l bs cls t ds where "list_all built bs" "doc_events ds"
      "evs = Host (List_New (count d)) (New l) # bs @
         Host (Object_CallFunction (Some cls) (name d) (Some (handed d))) (New t) # ds @
         [Host (Module_AddObject (name d)) (if ok then Done else Failed)]"
  using assms unfolding group_events_def by blast

lemma group_events_ok_iff:
  assumes "group_events d ok evs"
  shows "ok \<longleftrightarrow> (\<forall>e\<in>set evs. failed e \<longrightarrow> doc_step e)"
  using assms
proof (cases rule: group_events_cases)
  case (no_entry l bs t v)
  then show ?thesis
    by auto
next
  case (no_type l bs c)
  then show ?thesis
    by auto
next
  case (typed l bs cls t ds)
  have "\<forall>e\<in>set bs. \<not> failed e"
    using built_events [OF typed(1)] by fastforce
  moreover have "\<forall>e\<in>set ds. failed e \<longrightarrow> doc_step e"
    using doc_events_cases [OF typed(2)] by fastforce
  ultimately show ?thesis
    using typed(3) by (cases ok) auto
qed simp



lemma group_events_setattr:
  assumes "group_events d ok evs" "Host (Object_SetAttrString a) r \<in> set evs"
  shows "ok \<longleftrightarrow> Host (Module_AddObject (name d)) Done \<in> set evs"
  using assms(1)
proof (cases rule: group_events_cases)
  case no_list
  with assms(2) show ?thesis
    by simp
next
  case (no_entry l bs t v)
  with assms(2) built_events [OF no_entry(2)] show ?thesis
    by fastforce
next
  case (no_type l bs c)
  with assms(2) built_events [OF no_type(2)] show ?thesis
    by fastforce
next
  case (typed l bs cls t ds)
  have "Host (Module_AddObject (name d)) Done \<notin> set bs"
    "Host (Module_AddObject (name d)) Done \<notin> set ds"
    using built_events [OF typed(1)] doc_events_cases [OF typed(2)] by fastforce+
  with typed(3) show ?thesis
    by (cases ok) auto
qed







text \<open>
  Claim C2. A run of \<open>add_enum\<close> in which \<open>PyModule_AddObject\<close> fails returns false, and the
  type that was made is not given up: after the run it is still an object of the heap, with
  the one reference that \<open>add_enum\<close> held and has now lost, while the module is as it was
  before the run. The code has no \<open>Py_DECREF\<close> of the type on this path, where the path of a
  failed \<open>Py_BuildValue\<close> has one for the list.
\<close>

theorem add_enum_keeps_rejected_type:
  assumes run: "add_enum h d m c s = (ok, s')"
    and ev: "Host (Module_AddObject (name d)) Failed \<in> set (since s s')"
  shows "\<not> ok \<and>
         (\<exists>t cls as. fresh s < t \<and>
            objs s' t = Some (PyEnumType cls (name d) (handed d) as) \<and> refs s' t = 1) \<and>
         (m < fresh s \<longrightarrow> objs s' m = objs s m)"
proof -
  from add_enum_not_installed [OF run ev]
  have no: "\<not> ok" and t: "\<exists>t cls as. fresh s < t \<and>
      objs s' t = Some (PyEnumType cls (name d) (handed d) as) \<and> refs s' t = 1"
    by simp_all
  from run no have "add_enum h d m c s = (False, s')"
    by simp
  from add_enum_failed_frame [OF this] no t show ?thesis
    by simp
qed

text \<open>
  Claim C3. A run of \<open>add_enum\<close> returns true exactly when no call of the runtime has failed in
  it other than the two of the documentation step, the making of the string and the setting
  of the attribute: when the list, its entries, the type and the installation succeed, the
  result is true whatever happened to the documentation.
\<close>

theorem add_enum_doc_failure_ignored:
  assumes run: "add_enum h d m c s = (ok, s')"
  shows "ok \<longleftrightarrow> (\<forall>e\<in>set (since s s'). failed e \<longrightarrow> doc_step e)"
  using add_enum_events [OF run] group_events_ok_iff by blast

text \<open>
  Claim C10. In a run of \<open>add_enum\<close> where the setting of \<open>__doc__\<close> has failed, the result is
  true exactly when the installation in the module succeeds, and the error indicator is set
  at the end in both cases; when the result is true it still holds the error of the failed
  call, which nothing has cleared.
\<close>

theorem add_enum_leaves_error_set:
  assumes run: "add_enum h d m c s = (ok, s')"
    and ev: "Host (Object_SetAttrString ''__doc__'') Failed \<in> set (since s s')"
  shows "(ok \<longleftrightarrow> Host (Module_AddObject (name d)) Done \<in> set (since s s')) \<and>
         (ok \<longrightarrow> err s' = Some HostError) \<and> err s' \<noteq> None"
proof -
  from add_enum_events [OF run] have ge: "group_events d ok (since s s')"
    and er: "if ok then err s' = (if \<exists>e\<in>set (since s s'). failed e then Some HostError else err s)
          else err s' \<noteq> None"
    by simp_all
  from ev have "\<exists>e\<in>set (since s s'). failed e"
    by (intro bexI [of _ "Host (Object_SetAttrString ''__doc__'') Failed"]) simp_all
  with er have "ok \<longrightarrow> err s' = Some HostError" "err s' \<noteq> None"
    by (auto split: if_splits)
  with group_events_setattr [OF ge ev] show ?thesis
    by simp
qed

subsection \<open>Runs on the table \<open>AccessRights\<close>\<close>

text \<open>
  Rules that run the definitions on a state given by its five fields, and the loop one
  round at a time.
\<close>

lemmas prim_defs = objs_def refs_def record_event_def answered_def raise_host_def alloc_def
  put_def incref_def type_store_def release_def Py_DECREF_def Py_XDECREF_def PyErr_Clear_def
  PyErr_Format_RuntimeError_def is_module_def module_store_def new_object_def
  PyModule_Create_def PyImport_ImportModule_def PyObject_GetAttrString_def PyList_New_def
  Py_BuildValue_si_def PyUnicode_FromString_def PyList_SET_ITEM_def class_of_def pair_at_def
  list_rows_def PyObject_CallFunction_sN_def status_call_def PyObject_SetAttrString_def
  PyModule_AddObject_def add_int_def PyModule_AddIntConstant_def add_enum_doc_def add_enum_def
  lookup_flag_class_def register_groups_def PyInit_body_def error_exit_def

lemmas on_state =
  prim_defs [where s = "\<lparr>heap = hp, fresh = fr, err = er, trace = tr, tick = ti\<rparr>"]
  for hp fr er tr ti

lemma loop_step:
  "i < n \<Longrightarrow>
   add_enum_loop h d list n i \<lparr>heap = hp, fresh = fr, err = er, trace = tr, tick = ti\<rparr> =
     (case Py_BuildValue_si h (EnumDef.text d i) (EnumDef.value d i)
             \<lparr>heap = hp, fresh = fr, err = er, trace = tr, tick = ti\<rparr> of
        (None, s1) \<Rightarrow> (False, Py_DECREF list s1)
      | (Some entry, s1) \<Rightarrow> add_enum_loop h d list n (i + 1) (PyList_SET_ITEM list i entry s1))"
  by (subst add_enum_loop.simps) simp

lemma decref_all_run:
  "decref_all [] s = s"
  "decref_all (a # as) \<lparr>heap = hp, fresh = fr, err = er, trace = tr, tick = ti\<rparr> =
     (case map_of hp a of
        None \<Rightarrow> decref_all as \<lparr>heap = hp, fresh = fr, err = er, trace = tr, tick = ti\<rparr>
      | Some ob \<Rightarrow>
          if refcnt ob \<le> 1
          then decref_all (held (Some (val ob)) @ as)
                 \<lparr>heap = AList.delete a hp, fresh = fr, err = er, trace = tr, tick = ti\<rparr>
          else decref_all as
                 \<lparr>heap = AList.map_entry a (\<lambda>ob. ob\<lparr>refcnt := refcnt ob - 1\<rparr>) hp, fresh = fr,
                    err = er, trace = tr, tick = ti\<rparr>)"
  by (simp_all add: decref_all.simps split: option.splits)

lemma loop_done: "\<not> i < n \<Longrightarrow> add_enum_loop h d list n i s = (True, s)"
  by (subst add_enum_loop.simps) simp

lemma replicate_numeral: "replicate (numeral k) x = x # replicate (pred_numeral k) x"
  by (simp add: numeral_eq_Suc)

lemma list_update_numeral: "(x # xs)[numeral k := y] = x # xs[pred_numeral k := y]"
  by (simp add: numeral_eq_Suc)

lemma Suc_Suc_0: "Suc (Suc 0) = 2"
  by simp

lemmas run_simps = on_state loop_step loop_done decref_all_run c_int_def replicate_numeral list_update_numeral Suc_Suc_0
  List.map_filter_def PyInit_ca_def start_def prepared_def since_def namespace_def

lemmas group_simps = AccessRights_def AccessRights_entries_def Events_def Events_entries_def
  Type_def Status_def Severity_def epics_base_def rows_def handed_def upt_rec



lemma run_setattr_refused:
  "\<exists>S. add_enum (\<lambda>n. n \<noteq> 7) AccessRights 0 1 prepared = (True, S) \<and>
     since prepared S =
       [Host (List_New 4) (New 2), Host (BuildValue_si ''NO_ACCESS'' 0) (New 3),
        Host (BuildValue_si ''READ_ACCESS'' 1) (New 4),
        Host (BuildValue_si ''WRITE_ACCESS'' 2) (New 5),
        Host (BuildValue_si ''RW_ACCESS'' 3) (New 6),
        Host (Object_CallFunction (Some ''Flag'') ''AccessRights''
          (Some [(''NO_ACCESS'', 0), (''READ_ACCESS'', 1), (''WRITE_ACCESS'', 2),
                 (''RW_ACCESS'', 3)])) (New 7),
        Host (Unicode_FromString access_rights_doc) (New 8),
        Host (Object_SetAttrString ''__doc__'') Failed, Decref 8,
        Host (Module_AddObject ''AccessRights'') Done] \<and>
     namespace S 0 =
       [(''AccessRights'', Some (PyEnumType ''Flag'' ''AccessRights''
          [(''NO_ACCESS'', 0), (''READ_ACCESS'', 1), (''WRITE_ACCESS'', 2), (''RW_ACCESS'', 3)]
          []))]"
  apply (rule exI)
  apply (rule conjI)
   apply (simp add: run_simps group_simps)
  apply (simp add: run_simps group_simps)
  done

lemma run_install_refused:
  "\<exists>S. add_enum (\<lambda>n. n \<noteq> 8) AccessRights 0 1 prepared = (False, S) \<and>
     since prepared S =
       [Host (List_New 4) (New 2), Host (BuildValue_si ''NO_ACCESS'' 0) (New 3),
        Host (BuildValue_si ''READ_ACCESS'' 1) (New 4),
        Host (BuildValue_si ''WRITE_ACCESS'' 2) (New 5),
        Host (BuildValue_si ''RW_ACCESS'' 3) (New 6),
        Host (Object_CallFunction (Some ''Flag'') ''AccessRights''
          (Some [(''NO_ACCESS'', 0), (''READ_ACCESS'', 1), (''WRITE_ACCESS'', 2),
                 (''RW_ACCESS'', 3)])) (New 7),
        Host (Unicode_FromString access_rights_doc) (New 8),
        Host (Object_SetAttrString ''__doc__'') Done, Decref 8,
        Host (Module_AddObject ''AccessRights'') Failed] \<and>
     namespace S 0 = [] \<and>
     err S = Some (RuntimeError ''Could not add AccessRights enum'') \<and>
     map fst (heap S) = [0, 1, 7, 8] \<and>
     objs S 7 = Some (PyEnumType ''Flag'' ''AccessRights''
          [(''NO_ACCESS'', 0), (''READ_ACCESS'', 1), (''WRITE_ACCESS'', 2), (''RW_ACCESS'', 3)]
          [(''__doc__'', 8)]) \<and>
     refs S 7 = 1 \<and> objs S 8 = Some (PyUnicode access_rights_doc) \<and> refs S 8 = 1"
  apply (rule exI)
  apply (rule conjI)
   apply (simp add: run_simps group_simps)
  apply (simp add: run_simps group_simps)
  done



text \<open>
  The group \<open>AccessRights\<close> with the ninth call, \<open>PyModule_AddObject\<close>, failing: the heap
  keeps the object 7, the type, with one reference, and the object 8, its documentation; the
  module has no attribute.
\<close>

theorem add_enum_keeps_rejected_type_witness:
  "\<exists>S. add_enum (\<lambda>n. n \<noteq> 8) AccessRights 0 1 prepared = (False, S) \<and>
     Host (Module_AddObject (name AccessRights)) Failed \<in> set (since prepared S) \<and>
     map fst (heap S) = [0, 1, 7, 8] \<and> refs S 7 = 1 \<and> namespace S 0 = [] \<and>
     (\<exists>t cls as. fresh prepared < t \<and>
        objs S t = Some (PyEnumType cls (name AccessRights) (handed AccessRights) as) \<and>
        refs S t = 1)"
proof -
  from run_install_refused obtain S
    where run: "add_enum (\<lambda>n. n \<noteq> 8) AccessRights 0 1 prepared = (False, S)"
      and ev: "Host (Module_AddObject (name AccessRights)) Failed \<in> set (since prepared S)"
      and hp: "map fst (heap S) = [0, 1, 7, 8]" "refs S 7 = 1" "namespace S 0 = []"
    by (auto simp add: AccessRights_def)
  from add_enum_keeps_rejected_type [OF run ev]
  have "\<exists>t cls as. fresh prepared < t \<and>
      objs S t = Some (PyEnumType cls (name AccessRights) (handed AccessRights) as) \<and>
      refs S t = 1"
    by simp
  with run ev hp show ?thesis
    by (intro exI [of _ S]) simp
qed

text \<open>
  The group \<open>AccessRights\<close> with the eighth call, \<open>PyObject_SetAttrString\<close>, failing: the
  result is true.
\<close>

theorem add_enum_doc_failure_ignored_witness:
  "\<exists>S. add_enum (\<lambda>n. n \<noteq> 7) AccessRights 0 1 prepared = (True, S) \<and>
     Host (Object_SetAttrString ''__doc__'') Failed \<in> set (since prepared S) \<and>
     failed (Host (Object_SetAttrString ''__doc__'') Failed) \<and>
     (\<forall>e\<in>set (since prepared S). failed e \<longrightarrow> doc_step e)"
proof -
  from run_setattr_refused obtain S
    where run: "add_enum (\<lambda>n. n \<noteq> 7) AccessRights 0 1 prepared = (True, S)"
      and ev: "Host (Object_SetAttrString ''__doc__'') Failed \<in> set (since prepared S)"
    by auto
  from add_enum_doc_failure_ignored [OF run]
  have "\<forall>e\<in>set (since prepared S). failed e \<longrightarrow> doc_step e"
    by simp
  with run ev show ?thesis
    by (intro exI [of _ S]) simp
qed

text \<open>
  In the same run the error indicator, clear before, is set when \<open>add_enum\<close> returns true.
\<close>

theorem add_enum_leaves_error_set_witness:
  "\<exists>S. add_enum (\<lambda>n. n \<noteq> 7) AccessRights 0 1 prepared = (True, S) \<and>
     err prepared = None \<and>
     Host (Object_SetAttrString ''__doc__'') Failed \<in> set (since prepared S) \<and>
     Host (Module_AddObject (name AccessRights)) Done \<in> set (since prepared S) \<and>
     err S = Some HostError"
proof -
  from run_setattr_refused obtain S
    where run: "add_enum (\<lambda>n. n \<noteq> 7) AccessRights 0 1 prepared = (True, S)"
      and ev: "Host (Object_SetAttrString ''__doc__'') Failed \<in> set (since prepared S)"
    by auto
  from add_enum_leaves_error_set [OF run ev]
  have "Host (Module_AddObject (name AccessRights)) Done \<in> set (since prepared S)"
    "err S = Some HostError"
    by simp_all
  with run ev show ?thesis
    by (intro exI [of _ S]) (simp add: prepared_def)
qed

lemma map_filter_simps [simp]:
  "List.map_filter f [] = []"
  "List.map_filter f (x # xs) = (case f x of None \<Rightarrow> List.map_filter f xs | Some y \<Rightarrow> y # List.map_filter f xs)"
  "List.map_filter f (xs @ ys) = List.map_filter f xs @ List.map_filter f ys"
  by (simp_all add: List.map_filter_def split: option.splits)

lemma map_filter_none: "\<forall>x\<in>set xs. f x = None \<Longrightarrow> List.map_filter f xs = []"
  by (induction xs) simp_all

lemma built_quiet:
  assumes "list_all built bs"
  shows "attached bs = []" "acquired bs = []" "steps bs = []" "filter lookup bs = []"
    "\<forall>e\<in>set bs. \<not> fatal e"
proof -
  have "\<forall>e\<in>set bs. attaches e = None \<and> acquires e = None \<and> step_of e = None \<and>
      \<not> lookup e \<and> \<not> fatal e"
    using built_events [OF assms] by fastforce
  then show "attached bs = []" "acquired bs = []" "steps bs = []" "filter lookup bs = []"
    "\<forall>e\<in>set bs. \<not> fatal e"
    by (simp_all add: attached_def acquired_def steps_def map_filter_none)
qed

lemma doc_quiet:
  assumes "doc_events ds"
  shows "attached ds = []" "acquired ds = []" "steps ds = []" "filter lookup ds = []"
    "\<forall>e\<in>set ds. \<not> fatal e"
  using assms unfolding doc_events_def
  by (auto simp add: attached_def acquired_def steps_def)

lemma group_events_quiet:
  assumes "group_events d ok evs"
  shows "acquired evs = [] \<and> filter lookup evs = [] \<and>
    attached evs = (if ok then [name d] else []) \<and>
    (ok \<longleftrightarrow> (\<forall>e\<in>set evs. \<not> fatal e)) \<and>
    (\<forall>n r. Host (Module_AddObject n) r \<in> set evs \<longrightarrow> n = name d \<and> (r = Failed \<longleftrightarrow> \<not> ok))"
  using assms
proof (cases rule: group_events_cases)
  case no_list
  then show ?thesis
    by (simp add: acquired_def attached_def)
next
  case (no_entry l bs t v)
  note q = built_quiet [OF no_entry(2)]
  have "\<forall>n r. Host (Module_AddObject n) r \<notin> set bs"
    using built_events [OF no_entry(2)] by fastforce
  with no_entry q show ?thesis
    by (simp add: acquired_def attached_def)
next
  case (no_type l bs c)
  note q = built_quiet [OF no_type(2)]
  have "\<forall>n r. Host (Module_AddObject n) r \<notin> set bs"
    using built_events [OF no_type(2)] by fastforce
  with no_type q show ?thesis
    by (simp add: acquired_def attached_def)
next
  case (typed l bs cls t ds)
  note q = built_quiet [OF typed(1)] doc_quiet [OF typed(2)]
  have "\<forall>n r. Host (Module_AddObject n) r \<notin> set bs"
    using built_events [OF typed(1)] by fastforce
  moreover have "\<forall>n r. Host (Module_AddObject n) r \<notin> set ds"
    using doc_events_cases [OF typed(2)] by fastforce
  ultimately show ?thesis
    using typed q by (cases ok) (auto simp add: acquired_def attached_def)
qed

lemma register_groups_list:
  "register_groups h lib m ec fc s =
     add_enums h [(Severity lib, ec), (Status lib, ec), (Type lib, ec), (AccessRights, fc),
                  (Events lib, fc)] m s"
  by (simp add: register_groups_def split: prod.splits bool.splits)

lemma add_enum_steps:
  assumes run: "add_enum h d m c s = (ok, s')" and c: "c < fresh s"
  shows "prefix (steps (since s s'))
           [Object_CallFunction (class_of s c) (name d) (Some (handed d)), Module_AddObject (name d)] \<and>
         (ok \<longrightarrow> steps (since s s') =
           [Object_CallFunction (class_of s c) (name d) (Some (handed d)), Module_AddObject (name d)])"
  using run
proof (cases rule: add_enum_cases)
  case no_list
  from no_list(2) have "since s s' = [Host (List_New (count d)) Failed]"
    by (intro since_append) (simp add: failed_call_def)
  with no_list(1) show ?thesis
    by (simp add: steps_def)
next
  case (no_entry l s1)
  from after_loop [OF no_entry(3,4)] obtain bs t v where bs: "list_all built bs"
    "trace s' = trace s @ Host (List_New (count d)) (New l) # bs @
       [Host (BuildValue_si t v) Failed, Decref l]"
    by auto
  from since_append [OF bs(2)] built_quiet(3) [OF bs(1)] no_entry(1) show ?thesis
    by (simp add: steps_def)
next
  case (no_type l s1 s2 s3)
  from after_loop [OF no_type(3,4)] obtain bs where bs: "list_all built bs"
    "trace s2 = trace s @ Host (List_New (count d)) (New l) # bs"
    "list_rows s2 l = Some (handed d)" "\<forall>a<fresh s. objs s2 a = objs s a"
    by auto
  from bs(4) c have "class_of s2 c = class_of s c"
    by (simp add: class_of_def)
  with bs no_type(5,6)
  have "trace s' = trace s @ Host (List_New (count d)) (New l) # bs @
     [Host (Object_CallFunction (class_of s c) (name d) (Some (handed d))) Failed]"
    by (simp add: failed_call_def)
  from since_append [OF this] built_quiet(3) [OF bs(1)] no_type(1) show ?thesis
    by (simp add: steps_def)
next
  case (no_install l s1 s2 t cls ps s3 s4 s5)
  from before_install [OF no_install(3-8)] c obtain bs ds where b: "list_all built bs"
    "doc_events ds" "class_of s c = Some cls"
    "trace s4 = trace s @ Host (List_New (count d)) (New l) # bs @
       Host (Object_CallFunction (Some cls) (name d) (Some (handed d))) (New t) # ds"
    by blast
  with no_install(9,10)
  have "trace s' = trace s @ Host (List_New (count d)) (New l) # bs @
       Host (Object_CallFunction (Some cls) (name d) (Some (handed d))) (New t) # ds @
       [Host (Module_AddObject (name d)) Failed]"
    by (simp add: failed_call_def)
  from since_append [OF this] built_quiet(3) [OF b(1)] doc_quiet(3) [OF b(2)] b(3) no_install(1)
  show ?thesis
    by (simp add: steps_def)
next
  case (installed l s1 s2 t cls ps s3 s4)
  from before_install [OF installed(3-8)] c obtain bs ds where b: "list_all built bs"
    "doc_events ds" "class_of s c = Some cls"
    "trace s4 = trace s @ Host (List_New (count d)) (New l) # bs @
       Host (Object_CallFunction (Some cls) (name d) (Some (handed d))) (New t) # ds"
    by blast
  with installed(11)
  have "trace s' = trace s @ Host (List_New (count d)) (New l) # bs @
       Host (Object_CallFunction (Some cls) (name d) (Some (handed d))) (New t) # ds @
       [Host (Module_AddObject (name d)) Done]"
    by simp
  from since_append [OF this] built_quiet(3) [OF b(1)] doc_quiet(3) [OF b(2)] b(3)
  show ?thesis
    by (simp add: steps_def)
qed

lemma since_trans:
  assumes "trace s1 = trace s @ since s s1" "trace s2 = trace s1 @ since s1 s2"
  shows "since s s2 = since s s1 @ since s1 s2" "trace s2 = trace s @ since s s2"
proof -
  from assms have "trace s2 = trace s @ since s s1 @ since s1 s2"
    by simp
  from since_append [OF this] this show "since s s2 = since s s1 @ since s1 s2"
    "trace s2 = trace s @ since s s2"
    by simp_all
qed

lemma group_steps_frame:
  assumes "\<forall>x\<in>set ds. objs s1 (snd x) = objs s (snd x)"
  shows "group_steps s1 ds = group_steps s ds"
proof -
  from assms have "\<forall>x\<in>set ds. class_of s1 (snd x) = class_of s (snd x)"
    by (simp add: class_of_def)
  then have "map (\<lambda>(d, c). [Object_CallFunction (class_of s1 c) (name d) (Some (handed d)),
                             Module_AddObject (name d)]) ds =
             map (\<lambda>(d, c). [Object_CallFunction (class_of s c) (name d) (Some (handed d)),
                             Module_AddObject (name d)]) ds"
    by (intro map_cong) auto
  then show ?thesis
    by (simp only: group_steps_def)
qed

lemma add_enums_run:
  assumes run: "add_enums h ds m s = (ok, s')"
    and m: "m < fresh s" "objs s m = Some (PyModule mn dict)"
    and names: "distinct (map (\<lambda>y. name (fst y)) ds)"
      "\<forall>x\<in>set ds. map_of dict (name (fst x)) = None"
    and cls: "\<forall>x\<in>set ds. snd x < fresh s \<and> snd x \<noteq> m"
  shows "fresh s \<le> fresh s' \<and> trace s' = trace s @ since s s' \<and>
     (\<forall>a<fresh s. refs s' a = refs s a \<and> (a \<noteq> m \<longrightarrow> objs s' a = objs s a)) \<and>
     acquired (since s s') = [] \<and> filter lookup (since s s') = [] \<and>
     (ok \<longleftrightarrow> (\<forall>e\<in>set (since s s'). \<not> fatal e)) \<and>
     prefix (steps (since s s')) (group_steps s ds) \<and>
     (ok \<longrightarrow> steps (since s s') = group_steps s ds) \<and>
     prefix (attached (since s s')) (map (\<lambda>y. name (fst y)) ds) \<and>
     (ok \<longrightarrow> attached (since s s') = map (\<lambda>y. name (fst y)) ds) \<and>
     (\<forall>n. Host (Module_AddObject n) Failed \<in> set (since s s') \<longrightarrow>
        prefix (attached (since s s') @ [n]) (map (\<lambda>y. name (fst y)) ds)) \<and>
     (\<exists>new. objs s' m = Some (PyModule mn (dict @ new)) \<and>
        map fst new = attached (since s s') \<and> new_types s ds s' new)"
  using assms
proof (induction ds arbitrary: s dict)
  case Nil
  then have "s' = s" "ok"
    by simp_all
  then have "since s s' = []"
    by (simp add: since_def)
  with \<open>s' = s\<close> \<open>ok\<close> Nil.prems(3) show ?case
    by (simp add: acquired_def steps_def attached_def group_steps_def new_types_def)
next
  case (Cons x ds)
  obtain d c where x: "x = (d, c)"
    by (cases x)
  obtain ok1 s1 where one: "add_enum h d m c s = (ok1, s1)"
    by (cases "add_enum h d m c s")
  from Cons.prems(6) x have c: "c < fresh s" "c \<noteq> m"
    by simp_all
  from Cons.prems(5) x have new: "map_of dict (name d) = None"
    by simp
  note ev = add_enum_events [OF one]
  from ev have tr1: "trace s1 = trace s @ since s s1" and ge: "group_events d ok1 (since s s1)"
    and fr1: "fresh s \<le> fresh s1"
    by simp_all
  note q = group_events_quiet [OF ge]
  note st = add_enum_steps [OF one c(1)]
  show ?case
  proof (cases ok1)
    case False
    with one x Cons.prems(1) have res: "ok = False" "s' = s1"
      by simp_all
    from one False have "add_enum h d m c s = (False, s1)"
      by simp
    note frame = add_enum_failed_frame [OF this]
    from frame Cons.prems(2,3) have "objs s1 m = Some (PyModule mn (dict @ []))"
      by simp
    moreover from q False have q': "acquired (since s s1) = []" "filter lookup (since s s1) = []"
      "attached (since s s1) = []" "\<exists>e\<in>set (since s s1). fatal e"
      "\<forall>n r. Host (Module_AddObject n) r \<in> set (since s s1) \<longrightarrow> n = name d"
      by auto
    ultimately have mod: "\<exists>new. objs s1 m = Some (PyModule mn (dict @ new)) \<and>
        map fst new = attached (since s s1) \<and> new_types s (x # ds) s1 new"
      by (intro exI [of _ "[]"]) (simp add: new_types_def)
    from st have p1: "prefix (steps (since s s1)) (group_steps s (x # ds))"
      unfolding x group_steps_def by (auto intro: prefix_order.trans)
    from q' have p2: "\<forall>n. Host (Module_AddObject n) Failed \<in> set (since s s1) \<longrightarrow>
        prefix (attached (since s s1) @ [n]) (map (\<lambda>y. name (fst y)) (x # ds))"
      by (auto simp add: x)
    from res fr1 tr1 frame q' mod p1 p2 show ?thesis
      by simp
  next
    case True
    with one x Cons.prems(1) have rest: "add_enums h ds m s1 = (ok, s')"
      by simp
    from one True have "add_enum h d m c s = (True, s1)"
      by simp
    from add_enum_installed [OF this Cons.prems(2,3) new] c obtain t k as
      where t: "fresh s < t" "t < fresh s1"
        "objs s1 t = Some (PyEnumType k (name d) (handed d) as)" "refs s1 t = 1"
        "class_of s c = Some k" "objs s1 m = Some (PyModule mn (dict @ [(name d, t)]))"
      and frame1: "\<forall>a<fresh s. refs s1 a = refs s a \<and> (a \<noteq> m \<longrightarrow> objs s1 a = objs s a)"
      by blast
    have m1: "m < fresh s1"
      using Cons.prems(2) fr1 by simp
    have names1: "distinct (map (\<lambda>y. name (fst y)) ds)"
      "\<forall>y\<in>set ds. map_of (dict @ [(name d, t)]) (name (fst y)) = None"
      using Cons.prems(4,5) x by (force simp add: map_add_def split: option.splits)+
    have cls1: "\<forall>y\<in>set ds. snd y < fresh s1 \<and> snd y \<noteq> m"
      using Cons.prems(6) fr1 by auto
    note ih = Cons.IH [OF rest m1 t(6) names1 cls1]
    from ih have tr2: "trace s' = trace s1 @ since s1 s'" and fr2: "fresh s1 \<le> fresh s'"
      and frame2: "\<forall>a<fresh s1. refs s' a = refs s1 a \<and> (a \<noteq> m \<longrightarrow> objs s' a = objs s1 a)"
      by simp_all
    note sn = since_trans [OF tr1 tr2]
    have same: "\<forall>y\<in>set ds. objs s1 (snd y) = objs s (snd y)"
      using frame1 Cons.prems(6) by simp
    note gs = group_steps_frame [OF same]
    have a: "fresh s \<le> fresh s'" "trace s' = trace s @ since s s'"
      using fr1 fr2 sn by simp_all
    have b: "\<forall>a<fresh s. refs s' a = refs s a \<and> (a \<noteq> m \<longrightarrow> objs s' a = objs s a)"
      using frame1 frame2 fr1 by simp
    have e: "acquired (since s s') = []" "filter lookup (since s s') = []"
      "ok \<longleftrightarrow> (\<forall>e\<in>set (since s s'). \<not> fatal e)"
      using q ih True sn(1) by (auto simp add: acquired_def)
    have f: "prefix (steps (since s s')) (group_steps s (x # ds))"
      "ok \<longrightarrow> steps (since s s') = group_steps s (x # ds)"
      using st ih True sn(1) gs by (simp_all add: steps_def x group_steps_def)
    have g: "prefix (attached (since s s')) (map (\<lambda>y. name (fst y)) (x # ds))"
      "ok \<longrightarrow> attached (since s s') = map (\<lambda>y. name (fst y)) (x # ds)"
      using q ih True sn(1) by (simp_all add: attached_def x)
    have i: "\<forall>n. Host (Module_AddObject n) Failed \<in> set (since s s') \<longrightarrow>
        prefix (attached (since s s') @ [n]) (map (\<lambda>y. name (fst y)) (x # ds))"
      using q ih True sn(1) by (auto simp add: attached_def x)
    from ih obtain new2 where new2: "objs s' m = Some (PyModule mn ((dict @ [(name d, t)]) @ new2))"
      "map fst new2 = attached (since s1 s')" "new_types s1 ds s' new2"
      by blast
    have t': "objs s' t = Some (PyEnumType k (name d) (handed d) as)" "refs s' t = 1"
      using frame2 t Cons.prems(2) by auto
    have "new_types s (x # ds) s' ((name d, t) # new2)"
      unfolding new_types_def
    proof (intro ballI)
      fix p
      assume p: "p \<in> set ((name d, t) # new2)"
      show "case p of (n, u) \<Rightarrow> fresh s \<le> u \<and> u < fresh s' \<and> refs s' u = 1 \<and>
        (\<exists>y\<in>set (x # ds). \<exists>k as. n = name (fst y) \<and> class_of s (snd y) = Some k \<and>
           objs s' u = Some (PyEnumType k n (handed (fst y)) as))"
      proof (cases "p = (name d, t)")
        case True
        with t t' fr2 x show ?thesis
          by auto
      next
        case False
        with p have "p \<in> set new2"
          by simp
        with new2(3) obtain n u y k' as' where u: "p = (n, u)" "fresh s1 \<le> u" "u < fresh s'"
          "refs s' u = 1" "y \<in> set ds" "n = name (fst y)" "class_of s1 (snd y) = Some k'"
          "objs s' u = Some (PyEnumType k' n (handed (fst y)) as')"
          unfolding new_types_def by fastforce
        from same u(5) have "class_of s (snd y) = class_of s1 (snd y)"
          by (simp add: class_of_def)
        with u fr1 show ?thesis
          by auto
      qed
    qed
    with new2 q True sn(1)
    have "objs s' m = Some (PyModule mn (dict @ ((name d, t) # new2))) \<and>
        map fst ((name d, t) # new2) = attached (since s s') \<and>
        new_types s (x # ds) s' ((name d, t) # new2)"
      by (simp add: attached_def)
    then have h: "\<exists>new. objs s' m = Some (PyModule mn (dict @ new)) \<and>
        map fst new = attached (since s s') \<and> new_types s (x # ds) s' new"
      by blast
    from a b e f g i h show ?thesis
      by simp
  qed
qed

lemma lookup_flag_class_result:
  assumes "lookup_flag_class h em s = (r, s')"
  shows "(\<exists>fc. r = Some fc \<and>
            made_object (Object_GetAttrString ''Flag'') (PyClass ''Flag'') 2 s fc s') \<or>
         (\<exists>s1. failed_call (Object_GetAttrString ''Flag'') s s1 \<and>
            ((r = None \<and> failed_call (Object_GetAttrString ''IntEnum'') (PyErr_Clear s1) s') \<or>
             (\<exists>fc. r = Some fc \<and>
                made_object (Object_GetAttrString ''IntEnum'') (PyClass ''IntEnum'') 2
                  (PyErr_Clear s1) fc s')))"
proof -
  obtain r1 s1 where g: "PyObject_GetAttrString h em ''Flag'' s = (r1, s1)"
    by (cases "PyObject_GetAttrString h em ''Flag'' s")
  show ?thesis
  proof (cases r1)
    case None
    with g assms
    have "PyObject_GetAttrString h em ''IntEnum'' (PyErr_Clear s1) = (r, s')"
      by (simp add: lookup_flag_class_def)
    from PyObject_GetAttrString_result [OF this] PyObject_GetAttrString_result [OF g] None
    show ?thesis
      by auto
  next
    case (Some fc)
    with g assms have "r = Some fc" "s' = s1"
      by (simp_all add: lookup_flag_class_def)
    with PyObject_GetAttrString_result [OF g] Some show ?thesis
      by auto
  qed
qed

lemma PyInit_body_cases
  [consumes 1, case_names no_module no_epoch no_import no_enum no_flag no_groups ready]:
  assumes "PyInit_body h lib s = res"
  obtains
    (no_module) s1 where
      "res = Inl (\<lparr>module = None, enum_module = None, enum_class = None, flag_class = None\<rparr>, s1)"
      "failed_call (Module_Create ''ca_client.ca'') s s1"
  | (no_epoch) m s1 s2 where
      "res = Inl (\<lparr>module = Some m, enum_module = None, enum_class = None,
                   flag_class = None\<rparr>, s2)"
      "made_object (Module_Create ''ca_client.ca'') (PyModule ''ca_client.ca'' []) 1 s m s1"
      "failed_call (Module_AddIntConstant ''EPICS_EPOCH'' (POSIX_TIME_AT_EPICS_EPOCH lib)) s1 s2"
  | (no_import) m s2 s3 where
      "res = Inl (\<lparr>module = Some m, enum_module = None, enum_class = None,
                   flag_class = None\<rparr>, s3)"
      "epoch_published lib s m s2"
      "failed_call (Import_ImportModule ''enum'') s2 s3"
  | (no_enum) m s2 em s3 s4 where
      "res = Inl (\<lparr>module = Some m, enum_module = Some em, enum_class = None,
                   flag_class = None\<rparr>, s4)"
      "epoch_published lib s m s2"
      "made_object (Import_ImportModule ''enum'') (PyModule ''enum'' []) 2 s2 em s3"
      "failed_call (Object_GetAttrString ''Enum'') s3 s4"
  | (no_flag) m s2 em s3 ec s4 s5 where
      "res = Inl (\<lparr>module = Some m, enum_module = Some em, enum_class = Some ec,
                   flag_class = None\<rparr>, s5)"
      "epoch_published lib s m s2"
      "made_object (Import_ImportModule ''enum'') (PyModule ''enum'' []) 2 s2 em s3"
      "made_object (Object_GetAttrString ''Enum'') (PyClass ''Enum'') 2 s3 ec s4"
      "lookup_flag_class h em s4 = (None, s5)"
  | (no_groups) m s2 em s3 ec s4 fc s5 s6 where
      "res = Inl (\<lparr>module = Some m, enum_module = Some em, enum_class = Some ec,
                   flag_class = Some fc\<rparr>, s6)"
      "epoch_published lib s m s2"
      "made_object (Import_ImportModule ''enum'') (PyModule ''enum'' []) 2 s2 em s3"
      "made_object (Object_GetAttrString ''Enum'') (PyClass ''Enum'') 2 s3 ec s4"
      "lookup_flag_class h em s4 = (Some fc, s5)"
      "register_groups h lib m ec fc s5 = (False, s6)"
  | (ready) m s2 em s3 ec s4 fc s5 s6 where
      "res = Inr (m, Py_DECREF em (Py_DECREF ec (Py_DECREF fc s6)))"
      "epoch_published lib s m s2"
      "made_object (Import_ImportModule ''enum'') (PyModule ''enum'' []) 2 s2 em s3"
      "made_object (Object_GetAttrString ''Enum'') (PyClass ''Enum'') 2 s3 ec s4"
      "lookup_flag_class h em s4 = (Some fc, s5)"
      "register_groups h lib m ec fc s5 = (True, s6)"
proof -
  let ?v = "POSIX_TIME_AT_EPICS_EPOCH lib"
  obtain r1 s1 where mc: "PyModule_Create h ''ca_client.ca'' s = (r1, s1)"
    by (cases "PyModule_Create h ''ca_client.ca'' s")
  show thesis
  proof (cases r1)
    case None
    with mc assms PyModule_Create_result [OF mc] show thesis
      by (intro no_module [of s1]) (simp_all add: PyInit_body_def)
  next
    case (Some m)
    with PyModule_Create_result [OF mc]
    have mk: "made_object (Module_Create ''ca_client.ca'') (PyModule ''ca_client.ca'' []) 1 s m s1"
      by simp
    obtain r2 s2 where ai: "PyModule_AddIntConstant h m ''EPICS_EPOCH'' ?v s1 = (r2, s2)"
      by (cases "PyModule_AddIntConstant h m ''EPICS_EPOCH'' ?v s1")
    from PyModule_AddIntConstant_result [OF ai] show thesis
    proof (elim disjE conjE)
      assume "r2 = - 1" "failed_call (Module_AddIntConstant ''EPICS_EPOCH'' ?v) s1 s2"
      with mc Some ai assms mk show thesis
        by (intro no_epoch [of m s2 s1]) (simp_all add: PyInit_body_def)
    next
      assume r2: "r2 = 0" and s2: "fresh s2 = fresh s1 + 1" "err s2 = err s1"
        "trace s2 = trace s1 @ [Host (Module_AddIntConstant ''EPICS_EPOCH'' ?v) Done]"
        "objs s2 = objs (add_int m ''EPICS_EPOCH'' ?v s1)"
        "refs s2 = refs (add_int m ''EPICS_EPOCH'' ?v s1)"
      from mk have m1: "m = fresh s" "objs s1 = (objs s)(m \<mapsto> PyModule ''ca_client.ca'' [])"
        "refs s1 = (refs s)(m := 1)" "fresh s1 = m + 1" "err s1 = err s"
        "trace s1 = trace s @ [Host (Module_Create ''ca_client.ca'') (New m)]"
        by (simp_all add: made_object_def)
      have "objs s1 m = Some (PyModule ''ca_client.ca'' [])" "map_of [] ''EPICS_EPOCH'' = None"
        "m \<noteq> fresh s1"
        using m1 by simp_all
      note ad = add_int_new [OF this, of ?v]
      from ad s2 m1 have ep: "epoch_published lib s m s2"
        by (simp add: epoch_published_def fun_upd_twist)
      obtain r3 s3 where im: "PyImport_ImportModule h ''enum'' s2 = (r3, s3)"
        by (cases "PyImport_ImportModule h ''enum'' s2")
      note pre = mc Some ai r2
      show thesis
      proof (cases r3)
        case None
        with pre im assms ep PyImport_ImportModule_result [OF im] show thesis
          by (intro no_import [of m s3 s2]) (simp_all add: PyInit_body_def)
      next
        case (Some em)
        with PyImport_ImportModule_result [OF im]
        have me: "made_object (Import_ImportModule ''enum'') (PyModule ''enum'' []) 2 s2 em s3"
          by simp
        obtain r4 s4 where ge: "PyObject_GetAttrString h em ''Enum'' s3 = (r4, s4)"
          by (cases "PyObject_GetAttrString h em ''Enum'' s3")
        note pre2 = pre im Some
        show thesis
        proof (cases r4)
          case None
          with pre2 ge assms ep me PyObject_GetAttrString_result [OF ge] show thesis
            by (intro no_enum [of m em s4 s2 s3]) (simp_all add: PyInit_body_def)
        next
          case (Some ec)
          with PyObject_GetAttrString_result [OF ge]
          have mec: "made_object (Object_GetAttrString ''Enum'') (PyClass ''Enum'') 2 s3 ec s4"
            by simp
          obtain r5 s5 where lf: "lookup_flag_class h em s4 = (r5, s5)"
            by (cases "lookup_flag_class h em s4")
          note pre3 = pre2 ge Some
          show thesis
          proof (cases r5)
            case None
            with pre3 lf assms ep me mec show thesis
              by (intro no_flag [of m em ec s5 s2 s3 s4]) (simp_all add: PyInit_body_def)
          next
            case (Some fc)
            obtain ok s6 where rg: "register_groups h lib m ec fc s5 = (ok, s6)"
              by (cases "register_groups h lib m ec fc s5")
            show thesis
            proof (cases ok)
              case False
              with pre3 lf Some rg assms ep me mec show thesis
                by (intro no_groups [of m em ec fc s6 s2 s3 s4 s5]) (simp_all add: PyInit_body_def)
            next
              case True
              with pre3 lf Some rg assms ep me mec show thesis
                by (intro ready [of m em ec fc s6 s2 s3 s4 s5]) (simp_all add: PyInit_body_def)
            qed
          qed
        qed
      qed
    qed
  qed
qed

lemmas group_names = Severity_def Status_def Type_def AccessRights_def Events_def

lemma namespace_cong:
  assumes "objs s m = Some (PyModule mn dict)" "objs s' m = objs s m"
    "\<forall>(n, t)\<in>set dict. objs s' t = objs s t"
  shows "namespace s' m = namespace s m"
  using assms by (auto simp add: namespace_def)

text \<open>The state after the lookups and the calls of \<open>add_enum\<close>, whether they all succeed or not.\<close>

lemma groups_stage:
  assumes ep: "epoch_published lib s m s2"
    and me: "made_object (Import_ImportModule ''enum'') (PyModule ''enum'' []) 2 s2 em s3"
    and mec: "made_object (Object_GetAttrString ''Enum'') (PyClass ''Enum'') 2 s3 ec s4"
    and lf: "lookup_flag_class h em s4 = (Some fc, s5)"
    and rg: "register_groups h lib m ec fc s5 = (ok, s6)"
  shows "\<exists>fk fl gs dict.
     (fl = [Host (Object_GetAttrString ''Flag'') (New fc)] \<and> fk = ''Flag'' \<or>
      fl = [Host (Object_GetAttrString ''Flag'') Failed,
            Host (Object_GetAttrString ''IntEnum'') (New fc)] \<and> fk = ''IntEnum'') \<and>
     trace s6 = trace s @
       [Host (Module_Create ''ca_client.ca'') (New m),
        Host (Module_AddIntConstant ''EPICS_EPOCH'' (POSIX_TIME_AT_EPICS_EPOCH lib)) Done,
        Host (Import_ImportModule ''enum'') (New em),
        Host (Object_GetAttrString ''Enum'') (New ec)] @ fl @ gs \<and>
     acquired gs = [] \<and> filter lookup gs = [] \<and> (ok \<longleftrightarrow> (\<forall>e\<in>set gs. \<not> fatal e)) \<and>
     prefix (steps gs) (drop 2 (plan lib fk)) \<and> (ok \<longrightarrow> steps gs = drop 2 (plan lib fk)) \<and>
     prefix (attached gs) [''Severity'', ''Status'', ''Type'', ''AccessRights'', ''Events''] \<and>
     (ok \<longrightarrow> attached gs = [''Severity'', ''Status'', ''Type'', ''AccessRights'', ''Events'']) \<and>
     (\<forall>n. Host (Module_AddObject n) Failed \<in> set gs \<longrightarrow>
        prefix (attached gs @ [n]) [''Severity'', ''Status'', ''Type'', ''AccessRights'', ''Events'']) \<and>
     (\<exists>types. namespace s6 m =
          (''EPICS_EPOCH'', Some (PyLong (POSIX_TIME_AT_EPICS_EPOCH lib))) # types \<and>
        map fst types = attached gs \<and> typed_entries lib fk types) \<and>
     objs s6 m = Some (PyModule ''ca_client.ca'' dict) \<and>
     (\<forall>(n, t)\<in>set dict. t \<noteq> em \<and> t \<noteq> ec \<and> t \<noteq> fc) \<and>
     m < em \<and> em < ec \<and> ec < fc \<and>
     objs s6 em = Some (PyModule ''enum'' []) \<and> objs s6 ec = Some (PyClass ''Enum'') \<and>
     objs s6 fc = Some (PyClass fk) \<and>
     refs s6 m = 1 \<and> refs s6 em = 2 \<and> refs s6 ec = 2 \<and> refs s6 fc = 2"
proof -
  let ?v = "POSIX_TIME_AT_EPICS_EPOCH lib"
  let ?ds = "[(Severity lib, ec), (Status lib, ec), (Type lib, ec), (AccessRights, fc),
              (Events lib, fc)]"
  let ?pre = "[Host (Module_Create ''ca_client.ca'') (New m),
        Host (Module_AddIntConstant ''EPICS_EPOCH'' ?v) Done,
        Host (Import_ImportModule ''enum'') (New em),
        Host (Object_GetAttrString ''Enum'') (New ec)]"
  from ep have s2: "m = fresh s" "fresh s2 = m + 2"
    "trace s2 = trace s @ [Host (Module_Create ''ca_client.ca'') (New m),
        Host (Module_AddIntConstant ''EPICS_EPOCH'' ?v) Done]"
    "objs s2 = (objs s)(m + 1 \<mapsto> PyLong ?v,
        m \<mapsto> PyModule ''ca_client.ca'' [(''EPICS_EPOCH'', m + 1)])"
    "refs s2 = (refs s)(m := 1, m + 1 := 1)"
    by (simp_all add: epoch_published_def)
  from me s2 have s3: "em = m + 2" "fresh s3 = m + 3"
    "trace s3 = trace s2 @ [Host (Import_ImportModule ''enum'') (New em)]"
    "objs s3 = (objs s2)(em \<mapsto> PyModule ''enum'' [])" "refs s3 = (refs s2)(em := 2)"
    by (simp_all add: made_object_def)
  from mec s3 have s4: "ec = m + 3" "fresh s4 = m + 4"
    "trace s4 = trace s3 @ [Host (Object_GetAttrString ''Enum'') (New ec)]"
    "objs s4 = (objs s3)(ec \<mapsto> PyClass ''Enum'')" "refs s4 = (refs s3)(ec := 2)"
    by (simp_all add: made_object_def)
  have "\<exists>fk fl.
      (fl = [Host (Object_GetAttrString ''Flag'') (New fc)] \<and> fk = ''Flag'' \<or>
       fl = [Host (Object_GetAttrString ''Flag'') Failed,
             Host (Object_GetAttrString ''IntEnum'') (New fc)] \<and> fk = ''IntEnum'') \<and>
      fc = fresh s4 \<and> fresh s5 = fresh s4 + 1 \<and> trace s5 = trace s4 @ fl \<and>
      objs s5 = (objs s4)(fc \<mapsto> PyClass fk) \<and> refs s5 = (refs s4)(fc := 2)"
    using lookup_flag_class_result [OF lf]
  proof (elim disjE exE conjE)
    fix a
    assume "Some fc = Some a"
      "made_object (Object_GetAttrString ''Flag'') (PyClass ''Flag'') 2 s4 a s5"
    then show ?thesis
      by (intro exI [of _ "''Flag''"] exI [of _ "[Host (Object_GetAttrString ''Flag'') (New fc)]"])
        (simp add: made_object_def)
  next
    fix s1
    assume "Some fc = None"
    then show ?thesis
      by simp
  next
    fix s1 a
    assume "failed_call (Object_GetAttrString ''Flag'') s4 s1" "Some fc = Some a"
      "made_object (Object_GetAttrString ''IntEnum'') (PyClass ''IntEnum'') 2 (PyErr_Clear s1) a s5"
    then show ?thesis
      by (intro exI [of _ "''IntEnum''"]
            exI [of _ "[Host (Object_GetAttrString ''Flag'') Failed,
                        Host (Object_GetAttrString ''IntEnum'') (New fc)]"])
        (simp add: made_object_def failed_call_def)
  qed
  then obtain fk fl
    where fl: "fl = [Host (Object_GetAttrString ''Flag'') (New fc)] \<and> fk = ''Flag'' \<or>
      fl = [Host (Object_GetAttrString ''Flag'') Failed,
            Host (Object_GetAttrString ''IntEnum'') (New fc)] \<and> fk = ''IntEnum''"
      and s5: "fc = fresh s4" "fresh s5 = fresh s4 + 1" "trace s5 = trace s4 @ fl"
        "objs s5 = (objs s4)(fc \<mapsto> PyClass fk)" "refs s5 = (refs s4)(fc := 2)"
    by blast
  have tr5: "trace s5 = trace s @ ?pre @ fl"
    using s2 s3 s4 s5 by simp
  have at5: "m < fresh s5" "objs s5 m = Some (PyModule ''ca_client.ca'' [(''EPICS_EPOCH'', m + 1)])"
    "objs s5 (m + 1) = Some (PyLong ?v)" "objs s5 em = Some (PyModule ''enum'' [])"
    "objs s5 ec = Some (PyClass ''Enum'')" "objs s5 fc = Some (PyClass fk)"
    "refs s5 m = 1" "refs s5 em = 2" "refs s5 ec = 2" "refs s5 fc = 2" "fresh s5 = m + 5"
    using s2 s3 s4 s5 by simp_all
  have run: "add_enums h ?ds m s5 = (ok, s6)"
    using rg by (simp add: register_groups_list)
  have names: "distinct (map (\<lambda>y. name (fst y)) ?ds)"
    "\<forall>x\<in>set ?ds. map_of [(''EPICS_EPOCH'', m + 1)] (name (fst x)) = None"
    by (simp_all add: group_names)
  have cls: "\<forall>x\<in>set ?ds. snd x < fresh s5 \<and> snd x \<noteq> m"
    using s3 s4 s5 by simp
  from add_enums_run [OF run at5(1,2) names cls] obtain new
    where tr6: "trace s6 = trace s5 @ since s5 s6"
      and frame: "\<forall>a<fresh s5. refs s6 a = refs s5 a \<and> (a \<noteq> m \<longrightarrow> objs s6 a = objs s5 a)"
      and quiet: "acquired (since s5 s6) = []" "filter lookup (since s5 s6) = []"
        "ok \<longleftrightarrow> (\<forall>e\<in>set (since s5 s6). \<not> fatal e)"
      and st: "prefix (steps (since s5 s6)) (group_steps s5 ?ds)"
        "ok \<longrightarrow> steps (since s5 s6) = group_steps s5 ?ds"
      and at: "prefix (attached (since s5 s6)) (map (\<lambda>y. name (fst y)) ?ds)"
        "ok \<longrightarrow> attached (since s5 s6) = map (\<lambda>y. name (fst y)) ?ds"
        "\<forall>n. Host (Module_AddObject n) Failed \<in> set (since s5 s6) \<longrightarrow>
           prefix (attached (since s5 s6) @ [n]) (map (\<lambda>y. name (fst y)) ?ds)"
      and new: "objs s6 m = Some (PyModule ''ca_client.ca'' ([(''EPICS_EPOCH'', m + 1)] @ new))"
        "map fst new = attached (since s5 s6)" "new_types s5 ?ds s6 new"
    by blast
  have gsteps: "group_steps s5 ?ds = drop 2 (plan lib fk)"
    using at5 by (simp add: group_steps_def plan_def groups_def class_of_def)
  have gnames: "map (\<lambda>y. name (fst y)) ?ds =
      [''Severity'', ''Status'', ''Type'', ''AccessRights'', ''Events'']"
    by (simp add: group_names)
  have old: "objs s6 (m + 1) = Some (PyLong ?v)" "objs s6 em = Some (PyModule ''enum'' [])"
    "objs s6 ec = Some (PyClass ''Enum'')" "objs s6 fc = Some (PyClass fk)"
    "refs s6 m = 1" "refs s6 em = 2" "refs s6 ec = 2" "refs s6 fc = 2"
    using frame at5 s3 s4 s5 by simp_all
  let ?types = "map (\<lambda>(n, a). (n, objs s6 a)) new"
  have ns: "namespace s6 m = (''EPICS_EPOCH'', Some (PyLong ?v)) # ?types"
    using new(1) old(1) by (simp add: namespace_def)
  have "map fst ?types = map fst new"
    by (induction new) auto
  with new(2) have mf: "map fst ?types = attached (since s5 s6)"
    by simp
  have ty: "typed_entries lib fk ?types"
    unfolding typed_entries_def
  proof (intro ballI)
    fix p
    assume "p \<in> set ?types"
    then obtain n t where p: "p = (n, objs s6 t)" "(n, t) \<in> set new"
      by auto
    with new(3) obtain x k as where x: "x \<in> set ?ds" "n = name (fst x)"
      "class_of s5 (snd x) = Some k" "objs s6 t = Some (PyEnumType k n (handed (fst x)) as)"
      unfolding new_types_def by fastforce
    from x(1,3) at5 have "(fst x, k) \<in> set (groups lib fk)"
      by (auto simp add: groups_def class_of_def)
    with x p show "case p of (n, v) \<Rightarrow> \<exists>(d, k)\<in>set (groups lib fk).
        n = name d \<and> (\<exists>as. v = Some (PyEnumType k n (handed d) as))"
      by (auto intro!: bexI [of _ "(fst x, k)"])
  qed
  have away: "\<forall>(n, t)\<in>set ([(''EPICS_EPOCH'', m + 1)] @ new). t \<noteq> em \<and> t \<noteq> ec \<and> t \<noteq> fc"
    using new(3) at5(11) s3 s4 s5 unfolding new_types_def by fastforce
  have ord: "m < em" "em < ec" "ec < fc"
    using s3 s4 s5 by simp_all
  have tr: "trace s6 = trace s @ ?pre @ fl @ since s5 s6"
    using tr5 tr6 by simp
  show ?thesis
    apply (rule exI [of _ fk])
    apply (rule exI [of _ fl])
    apply (rule exI [of _ "since s5 s6"])
    apply (rule exI [of _ "[(''EPICS_EPOCH'', m + 1)] @ new"])
    using fl tr quiet st at new(1) mf ns ty away ord old gsteps gnames
    apply (simp del: append.simps)
    done
qed

lemma Py_XDECREF_simps [simp]:
  "Py_XDECREF None s = s" "Py_XDECREF (Some a) s = Py_DECREF a s"
  by (simp_all add: Py_XDECREF_def)

lemma class_given_up:
  assumes "objs s a = Some (PyClass k) \<or> objs s a = Some (PyModule n [])" "b \<noteq> a"
  shows "objs (Py_DECREF a s) b = objs s b" "refs (Py_DECREF a s) b = refs s b"
  using assms Py_DECREF_other [of b a s] by auto

lemma error_exit_frees:
  assumes "refs s m \<le> 1" "m \<noteq> em" "m \<noteq> ec" "m \<noteq> fc" "em \<noteq> ec" "em \<noteq> fc" "ec \<noteq> fc"
    and "objs s em = Some (PyModule ''enum'' [])" "objs s ec = Some (PyClass ''Enum'')"
      "objs s fc = Some (PyClass fk)"
  shows "objs (Py_DECREF m (Py_DECREF em (Py_DECREF ec (Py_DECREF fc s)))) m = None"
proof -
  let ?a = "Py_DECREF fc s"
  let ?b = "Py_DECREF ec ?a"
  let ?c = "Py_DECREF em ?b"
  have fc: "objs s fc = Some (PyClass fk) \<or> objs s fc = Some (PyModule ''x'' [])"
    using assms by simp
  note 1 = class_given_up [OF fc]
  have ec: "objs ?a ec = Some (PyClass ''Enum'') \<or> objs ?a ec = Some (PyModule ''x'' [])"
    using 1(1) [of ec] assms by simp
  note 2 = class_given_up [OF ec]
  have em: "objs ?b em = Some (PyClass ''x'') \<or> objs ?b em = Some (PyModule ''enum'' [])"
    using 1(1) [of em] 2(1) [of em] assms by simp
  note 3 = class_given_up [OF em]
  have "refs ?c m = refs s m"
    using 1(2) [of m] 2(2) [of m] 3(2) [of m] assms by simp
  with assms(1) show ?thesis
    by (intro Py_DECREF_last) simp
qed

text \<open>
  The runs of \<open>PyInit_ca\<close>, by the place where they stop, with the events of each. In the last
  two the lookups have succeeded: \<open>fl\<close> are the events of the lookup of the class \<open>fk\<close> for the
  flag groups and \<open>gs\<close> the events of the calls of \<open>add_enum\<close>.
\<close>

lemma PyInit_ca_cases
  [consumes 1, case_names no_module no_epoch no_import no_enum no_flag no_groups ready]:
  assumes "PyInit_ca h lib s = (r, s')"
  obtains
    (no_module) "r = None"
      "since s s' = [Host (Module_Create ''ca_client.ca'') Failed]"
  | (no_epoch) m where "r = None"
      "since s s' =
         [Host (Module_Create ''ca_client.ca'') (New m),
          Host (Module_AddIntConstant ''EPICS_EPOCH'' (POSIX_TIME_AT_EPICS_EPOCH lib)) Failed,
          Decref m]"
      "objs s' m = None"
  | (no_import) m where "r = None"
      "since s s' =
         [Host (Module_Create ''ca_client.ca'') (New m),
          Host (Module_AddIntConstant ''EPICS_EPOCH'' (POSIX_TIME_AT_EPICS_EPOCH lib)) Done,
          Host (Import_ImportModule ''enum'') Failed, Decref m]"
      "objs s' m = None"
  | (no_enum) m em where "r = None"
      "since s s' =
         [Host (Module_Create ''ca_client.ca'') (New m),
          Host (Module_AddIntConstant ''EPICS_EPOCH'' (POSIX_TIME_AT_EPICS_EPOCH lib)) Done,
          Host (Import_ImportModule ''enum'') (New em),
          Host (Object_GetAttrString ''Enum'') Failed, Decref em, Decref m]"
      "objs s' m = None"
  | (no_flag) m em ec where "r = None"
      "since s s' =
         [Host (Module_Create ''ca_client.ca'') (New m),
          Host (Module_AddIntConstant ''EPICS_EPOCH'' (POSIX_TIME_AT_EPICS_EPOCH lib)) Done,
          Host (Import_ImportModule ''enum'') (New em),
          Host (Object_GetAttrString ''Enum'') (New ec),
          Host (Object_GetAttrString ''Flag'') Failed,
          Host (Object_GetAttrString ''IntEnum'') Failed, Decref ec, Decref em, Decref m]"
      "objs s' m = None"
  | (no_groups) m em ec fc fk fl gs l s1 where "r = None"
      "fl = [Host (Object_GetAttrString ''Flag'') (New fc)] \<and> fk = ''Flag'' \<or>
       fl = [Host (Object_GetAttrString ''Flag'') Failed,
             Host (Object_GetAttrString ''IntEnum'') (New fc)] \<and> fk = ''IntEnum''"
      "since s s' =
         [Host (Module_Create ''ca_client.ca'') (New m),
          Host (Module_AddIntConstant ''EPICS_EPOCH'' (POSIX_TIME_AT_EPICS_EPOCH lib)) Done,
          Host (Import_ImportModule ''enum'') (New em),
          Host (Object_GetAttrString ''Enum'') (New ec)] @ fl @ gs @
         [Decref fc, Decref ec, Decref em, Decref m]"
      "acquired gs = []" "filter lookup gs = []" "\<exists>e\<in>set gs. fatal e"
      "prefix (steps gs) (drop 2 (plan lib fk))"
      "prefix (attached gs) [''Severity'', ''Status'', ''Type'', ''AccessRights'', ''Events'']"
      "\<forall>n. Host (Module_AddObject n) Failed \<in> set gs \<longrightarrow>
         prefix (attached gs @ [n]) [''Severity'', ''Status'', ''Type'', ''AccessRights'', ''Events'']"
      "PyInit_body h lib s = Inl (l, s1)" "module l = Some m" "s' = error_exit l s1"
      "\<exists>types. namespace s1 m =
          (''EPICS_EPOCH'', Some (PyLong (POSIX_TIME_AT_EPICS_EPOCH lib))) # types \<and>
        map fst types = attached gs \<and> typed_entries lib fk types"
      "objs s' m = None"
  | (ready) m em ec fc fk fl gs where "r = Some m"
      "fl = [Host (Object_GetAttrString ''Flag'') (New fc)] \<and> fk = ''Flag'' \<or>
       fl = [Host (Object_GetAttrString ''Flag'') Failed,
             Host (Object_GetAttrString ''IntEnum'') (New fc)] \<and> fk = ''IntEnum''"
      "since s s' =
         [Host (Module_Create ''ca_client.ca'') (New m),
          Host (Module_AddIntConstant ''EPICS_EPOCH'' (POSIX_TIME_AT_EPICS_EPOCH lib)) Done,
          Host (Import_ImportModule ''enum'') (New em),
          Host (Object_GetAttrString ''Enum'') (New ec)] @ fl @ gs @
         [Decref fc, Decref ec, Decref em]"
      "acquired gs = []" "filter lookup gs = []" "\<forall>e\<in>set gs. \<not> fatal e"
      "steps gs = drop 2 (plan lib fk)"
      "attached gs = [''Severity'', ''Status'', ''Type'', ''AccessRights'', ''Events'']"
      "\<exists>types. namespace s' m =
          (''EPICS_EPOCH'', Some (PyLong (POSIX_TIME_AT_EPICS_EPOCH lib))) # types \<and>
        map fst types = [''Severity'', ''Status'', ''Type'', ''AccessRights'', ''Events''] \<and>
        typed_entries lib fk types"
proof -
  let ?v = "POSIX_TIME_AT_EPICS_EPOCH lib"
  obtain res where body: "PyInit_body h lib s = res"
    by simp
  from body show thesis
  proof (cases rule: PyInit_body_cases)
    case (no_module s1)
    with assms body have "r = None" "s' = s1"
      by (simp_all add: PyInit_ca_def error_exit_def)
    moreover from no_module(2) have "since s s1 = [Host (Module_Create ''ca_client.ca'') Failed]"
      by (intro since_append) (simp add: failed_call_def)
    ultimately show thesis
      by (intro that(1)) simp_all
  next
    case (no_epoch m s1 s2)
    with assms body have "r = None" "s' = Py_DECREF m s2"
      by (simp_all add: PyInit_ca_def error_exit_def)
    moreover from no_epoch(2,3) have "since s (Py_DECREF m s2) =
         [Host (Module_Create ''ca_client.ca'') (New m),
          Host (Module_AddIntConstant ''EPICS_EPOCH'' ?v) Failed, Decref m]"
      by (intro since_append) (simp add: failed_call_def made_object_def)
    moreover from no_epoch(2,3) have "refs s2 m \<le> 1"
      by (simp add: failed_call_def made_object_def)
    then have "objs (Py_DECREF m s2) m = None"
      by (rule Py_DECREF_last)
    ultimately show thesis
      by (intro that(2) [of m]) simp_all
  next
    case (no_import m s2 s3)
    with assms body have "r = None" "s' = Py_DECREF m s3"
      by (simp_all add: PyInit_ca_def error_exit_def)
    moreover from no_import(2,3) have "since s (Py_DECREF m s3) =
         [Host (Module_Create ''ca_client.ca'') (New m),
          Host (Module_AddIntConstant ''EPICS_EPOCH'' ?v) Done,
          Host (Import_ImportModule ''enum'') Failed, Decref m]"
      by (intro since_append) (simp add: failed_call_def epoch_published_def)
    moreover from no_import(2,3) have "refs s3 m \<le> 1"
      by (simp add: failed_call_def epoch_published_def)
    then have "objs (Py_DECREF m s3) m = None"
      by (rule Py_DECREF_last)
    ultimately show thesis
      by (intro that(3) [of m]) simp_all
  next
    case (no_enum m s2 em s3 s4)
    with assms body have "r = None" "s' = Py_DECREF m (Py_DECREF em s4)"
      by (simp_all add: PyInit_ca_def error_exit_def)
    moreover from no_enum(2,3,4) have "since s (Py_DECREF m (Py_DECREF em s4)) =
         [Host (Module_Create ''ca_client.ca'') (New m),
          Host (Module_AddIntConstant ''EPICS_EPOCH'' ?v) Done,
          Host (Import_ImportModule ''enum'') (New em),
          Host (Object_GetAttrString ''Enum'') Failed, Decref em, Decref m]"
      by (intro since_append) (simp add: failed_call_def epoch_published_def made_object_def)
    moreover have "objs (Py_DECREF m (Py_DECREF em s4)) m = None"
    proof -
      from no_enum(2,3,4) have "refs s4 m \<le> 1" "m \<noteq> em"
        "objs s4 em = Some (PyClass ''x'') \<or> objs s4 em = Some (PyModule ''enum'' [])"
        by (simp_all add: failed_call_def epoch_published_def made_object_def)
      with class_given_up(2) [OF this(3), of m] show ?thesis
        by (intro Py_DECREF_last) simp
    qed
    ultimately show thesis
      by (intro that(4) [of m em]) simp_all
  next
    case (no_flag m s2 em s3 ec s4 s5)
    with assms body have "r = None" "s' = Py_DECREF m (Py_DECREF em (Py_DECREF ec s5))"
      by (simp_all add: PyInit_ca_def error_exit_def)
    moreover from lookup_flag_class_result [OF no_flag(5)]
    have "trace s5 = trace s4 @ [Host (Object_GetAttrString ''Flag'') Failed,
          Host (Object_GetAttrString ''IntEnum'') Failed]"
      by (auto simp add: failed_call_def)
    with no_flag(2,3,4) have "since s (Py_DECREF m (Py_DECREF em (Py_DECREF ec s5))) =
         [Host (Module_Create ''ca_client.ca'') (New m),
          Host (Module_AddIntConstant ''EPICS_EPOCH'' ?v) Done,
          Host (Import_ImportModule ''enum'') (New em),
          Host (Object_GetAttrString ''Enum'') (New ec),
          Host (Object_GetAttrString ''Flag'') Failed,
          Host (Object_GetAttrString ''IntEnum'') Failed, Decref ec, Decref em, Decref m]"
      by (intro since_append) (simp add: epoch_published_def made_object_def)
    moreover have "objs (Py_DECREF m (Py_DECREF em (Py_DECREF ec s5))) m = None"
    proof -
      from lookup_flag_class_result [OF no_flag(5)]
      have s5: "objs s5 = objs s4" "refs s5 = refs s4"
        by (auto simp add: failed_call_def)
      with no_flag(2,3,4) have a: "refs s5 m \<le> 1" "m \<noteq> em" "m \<noteq> ec" "em \<noteq> ec"
        and ec: "objs s5 ec = Some (PyClass ''Enum'') \<or> objs s5 ec = Some (PyModule ''x'' [])"
        and em5: "objs s5 em = Some (PyModule ''enum'' [])"
        by (simp_all add: epoch_published_def made_object_def)
      note 1 = class_given_up [OF ec]
      have em: "objs (Py_DECREF ec s5) em = Some (PyClass ''x'') \<or>
          objs (Py_DECREF ec s5) em = Some (PyModule ''enum'' [])"
        using 1(1) [of em] a em5 by simp
      note 2 = class_given_up [OF em]
      have "refs (Py_DECREF em (Py_DECREF ec s5)) m = refs s5 m"
        using 1(2) [of m] 2(2) [of m] a by simp
      with a(1) show ?thesis
        by (intro Py_DECREF_last) simp
    qed
    ultimately show thesis
      by (intro that(5) [of m em ec]) simp_all
  next
    case (no_groups m s2 em s3 ec s4 fc s5 s6)
    let ?l = "\<lparr>module = Some m, enum_module = Some em, enum_class = Some ec,
               flag_class = Some fc\<rparr>"
    from no_groups(1) assms body have res: "r = None" "s' = error_exit ?l s6"
      by (simp_all add: PyInit_ca_def)
    from groups_stage [OF no_groups(2-6)] obtain fk fl gs dict
      where g: "fl = [Host (Object_GetAttrString ''Flag'') (New fc)] \<and> fk = ''Flag'' \<or>
          fl = [Host (Object_GetAttrString ''Flag'') Failed,
                Host (Object_GetAttrString ''IntEnum'') (New fc)] \<and> fk = ''IntEnum''"
        "trace s6 = trace s @
           [Host (Module_Create ''ca_client.ca'') (New m),
            Host (Module_AddIntConstant ''EPICS_EPOCH'' ?v) Done,
            Host (Import_ImportModule ''enum'') (New em),
            Host (Object_GetAttrString ''Enum'') (New ec)] @ fl @ gs"
        "acquired gs = []" "filter lookup gs = []" "\<exists>e\<in>set gs. fatal e"
        "prefix (steps gs) (drop 2 (plan lib fk))"
        "prefix (attached gs) [''Severity'', ''Status'', ''Type'', ''AccessRights'', ''Events'']"
        "\<forall>n. Host (Module_AddObject n) Failed \<in> set gs \<longrightarrow>
           prefix (attached gs @ [n]) [''Severity'', ''Status'', ''Type'', ''AccessRights'', ''Events'']"
        "\<exists>types. namespace s6 m = (''EPICS_EPOCH'', Some (PyLong ?v)) # types \<and>
           map fst types = attached gs \<and> typed_entries lib fk types"
      and hp: "m < em" "em < ec" "ec < fc"
        "objs s6 em = Some (PyModule ''enum'' [])" "objs s6 ec = Some (PyClass ''Enum'')"
        "objs s6 fc = Some (PyClass fk)" "refs s6 m = 1"
      by blast
    have "objs (Py_DECREF m (Py_DECREF em (Py_DECREF ec (Py_DECREF fc s6)))) m = None"
      using hp by (intro error_exit_frees [where fk = fk]) simp_all
    then have freed: "objs (error_exit ?l s6) m = None"
      by (simp add: error_exit_def)
    from g(2) have "since s (error_exit ?l s6) =
         [Host (Module_Create ''ca_client.ca'') (New m),
          Host (Module_AddIntConstant ''EPICS_EPOCH'' ?v) Done,
          Host (Import_ImportModule ''enum'') (New em),
          Host (Object_GetAttrString ''Enum'') (New ec)] @ fl @ gs @
         [Decref fc, Decref ec, Decref em, Decref m]"
      by (intro since_append) (simp add: error_exit_def)
    with res g no_groups(1) body freed show thesis
      by (intro that(6) [of fl fc fk m em ec gs ?l s6]) simp_all
  next
    case (ready m s2 em s3 ec s4 fc s5 s6)
    let ?s7 = "Py_DECREF em (Py_DECREF ec (Py_DECREF fc s6))"
    from ready(1) assms body have res: "r = Some m" "s' = ?s7"
      by (simp_all add: PyInit_ca_def)
    from groups_stage [OF ready(2-6)] obtain fk fl gs dict
      where g: "fl = [Host (Object_GetAttrString ''Flag'') (New fc)] \<and> fk = ''Flag'' \<or>
          fl = [Host (Object_GetAttrString ''Flag'') Failed,
                Host (Object_GetAttrString ''IntEnum'') (New fc)] \<and> fk = ''IntEnum''"
        "trace s6 = trace s @
           [Host (Module_Create ''ca_client.ca'') (New m),
            Host (Module_AddIntConstant ''EPICS_EPOCH'' ?v) Done,
            Host (Import_ImportModule ''enum'') (New em),
            Host (Object_GetAttrString ''Enum'') (New ec)] @ fl @ gs"
        "acquired gs = []" "filter lookup gs = []" "\<forall>e\<in>set gs. \<not> fatal e"
        "steps gs = drop 2 (plan lib fk)"
        "attached gs = [''Severity'', ''Status'', ''Type'', ''AccessRights'', ''Events'']"
        "\<exists>types. namespace s6 m = (''EPICS_EPOCH'', Some (PyLong ?v)) # types \<and>
           map fst types = attached gs \<and> typed_entries lib fk types"
      and hp: "objs s6 m = Some (PyModule ''ca_client.ca'' dict)"
        "\<forall>(n, t)\<in>set dict. t \<noteq> em \<and> t \<noteq> ec \<and> t \<noteq> fc"
        "m < em" "em < ec" "ec < fc"
        "objs s6 em = Some (PyModule ''enum'' [])" "objs s6 ec = Some (PyClass ''Enum'')"
        "objs s6 fc = Some (PyClass fk)"
      by blast
    let ?s6a = "Py_DECREF fc s6"
    let ?s6b = "Py_DECREF ec ?s6a"
    have fc: "objs s6 fc = Some (PyClass fk) \<or> objs s6 fc = Some (PyModule ''x'' [])"
      using hp(8) by simp
    have "objs ?s6a ec = Some (PyClass ''Enum'')"
      using class_given_up(1) [OF fc, of ec] hp(5,7) by simp
    then have ec: "objs ?s6a ec = Some (PyClass ''Enum'') \<or> objs ?s6a ec = Some (PyModule ''x'' [])"
      by simp
    have "objs ?s6b em = Some (PyModule ''enum'' [])"
      using class_given_up(1) [OF ec, of em] class_given_up(1) [OF fc, of em] hp(4,5,6) by simp
    then have em: "objs ?s6b em = Some (PyClass ''x'') \<or> objs ?s6b em = Some (PyModule ''enum'' [])"
      by simp
    have keep: "objs ?s7 b = objs s6 b" if "b \<noteq> em" "b \<noteq> ec" "b \<noteq> fc" for b
      using class_given_up(1) [OF em, of b] class_given_up(1) [OF ec, of b]
        class_given_up(1) [OF fc, of b] that by simp
    have "namespace ?s7 m = namespace s6 m"
    proof (rule namespace_cong [OF hp(1)])
      show "objs ?s7 m = objs s6 m"
        using hp(3,4,5) by (intro keep) simp_all
      show "\<forall>(n, t)\<in>set dict. objs ?s7 t = objs s6 t"
        using hp(2) keep by auto
    qed
    with g(7,8) have ns: "\<exists>types. namespace ?s7 m = (''EPICS_EPOCH'', Some (PyLong ?v)) # types \<and>
        map fst types = [''Severity'', ''Status'', ''Type'', ''AccessRights'', ''Events''] \<and>
        typed_entries lib fk types"
      by simp
    from g(2) have "since s ?s7 =
         [Host (Module_Create ''ca_client.ca'') (New m),
          Host (Module_AddIntConstant ''EPICS_EPOCH'' ?v) Done,
          Host (Import_ImportModule ''enum'') (New em),
          Host (Object_GetAttrString ''Enum'') (New ec)] @ fl @ gs @
         [Decref fc, Decref ec, Decref em]"
      by (intro since_append) simp
    with res g(1,3-7) ns show thesis
      by (intro that(7) [of m fl fc fk em ec gs]) simp_all
  qed
qed

lemma plan_unfold:
  "plan lib fk =
     Module_Create ''ca_client.ca'' #
     Module_AddIntConstant ''EPICS_EPOCH'' (POSIX_TIME_AT_EPICS_EPOCH lib) # drop 2 (plan lib fk)"
  by (simp add: plan_def)

lemma steps_simps [simp]:
  "steps [] = []" "steps (xs @ ys) = steps xs @ steps ys"
  "steps (Host (Module_Create n) r # xs) = Module_Create n # steps xs"
  "steps (Host (Module_AddIntConstant n v) r # xs) = Module_AddIntConstant n v # steps xs"
  "steps (Host (Import_ImportModule n) r # xs) = steps xs"
  "steps (Host (Object_GetAttrString n) r # xs) = steps xs"
  "steps (Decref a # xs) = steps xs"
  by (simp_all add: steps_def)

lemma acquired_simps [simp]:
  "acquired [] = []" "acquired (xs @ ys) = acquired xs @ acquired ys"
  "acquired (Host c Failed # xs) = acquired xs" "acquired (Host c Done # xs) = acquired xs"
  "acquired (Host (Module_Create n) (New a) # xs) = a # acquired xs"
  "acquired (Host (Import_ImportModule n) (New a) # xs) = a # acquired xs"
  "acquired (Host (Object_GetAttrString n) (New a) # xs) = a # acquired xs"
  "acquired (Decref a # xs) = acquired xs"
  by (simp_all add: acquired_def)

lemma prefix_plan:
  assumes "prefix xs (drop 2 (plan lib fk))"
  shows "prefix (Module_Create ''ca_client.ca'' #
     Module_AddIntConstant ''EPICS_EPOCH'' (POSIX_TIME_AT_EPICS_EPOCH lib) # xs) (plan lib fk)"
  using assms by (subst plan_unfold) simp

text \<open>
  Claim C4. In every run of \<open>PyInit_ca\<close> the steps made, the creation of the module, the
  attaching of an integer and the calls of a class and installations of a type, are an
  initial part of the plan: the module \<open>ca_client.ca\<close> is created, the integer
  \<open>POSIX_TIME_AT_EPICS_EPOCH\<close> is attached as \<open>EPICS_EPOCH\<close>, and then for \<open>Severity\<close>,
  \<open>Status\<close>, \<open>Type\<close>, \<open>AccessRights\<close> and \<open>Events\<close> in this order the class is called and
  the type installed, the class being \<open>Enum\<close> for the first three and one class \<open>fk\<close>, \<open>Flag\<close>
  or \<open>IntEnum\<close>, for the last two. A run that returns the module has made all the steps of
  the plan, none of its calls other than those for the documentation and the lookup of
  \<open>Flag\<close> has failed, and the module has the attribute \<open>EPICS_EPOCH\<close> with that integer
  followed by the five types in the order of the plan, each of its class.
\<close>

theorem PyInit_ca_order:
  assumes run: "PyInit_ca h lib s = (r, s')"
  shows "\<exists>fk. (fk = ''Flag'' \<or> fk = ''IntEnum'') \<and>
           prefix (steps (since s s')) (plan lib fk) \<and>
           (\<forall>m. r = Some m \<longrightarrow>
              steps (since s s') = plan lib fk \<and>
              (\<forall>e\<in>set (since s s'). \<not> fatal e) \<and>
              (\<exists>types. namespace s' m =
                   (''EPICS_EPOCH'', Some (PyLong (POSIX_TIME_AT_EPICS_EPOCH lib))) # types \<and>
                 map fst types = [''Severity'', ''Status'', ''Type'', ''AccessRights'', ''Events''] \<and>
                 typed_entries lib fk types))"
  using run
proof (cases rule: PyInit_ca_cases)
  case no_module
  then show ?thesis
    by (intro exI [of _ "''Flag''"]) (simp add: plan_def)
next
  case (no_epoch m)
  then show ?thesis
    by (intro exI [of _ "''Flag''"]) (simp add: plan_def)
next
  case (no_import m)
  then show ?thesis
    by (intro exI [of _ "''Flag''"]) (simp add: plan_def)
next
  case (no_enum m em)
  then show ?thesis
    by (intro exI [of _ "''Flag''"]) (simp add: plan_def)
next
  case (no_flag m em ec)
  then show ?thesis
    by (intro exI [of _ "''Flag''"]) (simp add: plan_def)
next
  case (no_groups m em ec fc fk fl gs l s1)
  from no_groups(2) have "steps fl = []" "fk = ''Flag'' \<or> fk = ''IntEnum''"
    by auto
  with no_groups(1,3) prefix_plan [OF no_groups(7)] show ?thesis
    by (intro exI [of _ fk]) simp
next
  case (ready m em ec fc fk fl gs)
  from ready(2) have fl: "steps fl = []" "fk = ''Flag'' \<or> fk = ''IntEnum''" "\<forall>e\<in>set fl. \<not> fatal e"
    by auto
  from ready(3,7) fl(1) have "steps (since s s') = plan lib fk"
    by (simp add: plan_unfold [symmetric])
  moreover from ready(3,6) fl(3) have "\<forall>e\<in>set (since s s'). \<not> fatal e"
    by auto
  ultimately show ?thesis
    using ready(1,9) fl(2) by (intro exI [of _ fk]) simp
qed

lemma lookup_free:
  assumes "filter lookup gs = []"
  shows "Host (Object_GetAttrString n) r \<notin> set gs" "Host (Import_ImportModule n) r \<notin> set gs"
proof -
  from assms have "\<forall>e\<in>set gs. \<not> lookup e"
    by (simp add: filter_empty_conv)
  then show "Host (Object_GetAttrString n) r \<notin> set gs" "Host (Import_ImportModule n) r \<notin> set gs"
    by auto
qed

text \<open>
  Claim C5. The events of a run of \<open>PyInit_ca\<close> are a first part that holds every lookup,
  followed by a part without lookups; the first part has no step other than the creation of
  the module and the attaching of \<open>EPICS_EPOCH\<close>, so the lookups are made before any group is
  registered. The lookups are, each at most once and in this order, the import of \<open>enum\<close>,
  the attribute \<open>Enum\<close>, the attribute \<open>Flag\<close> and, only after \<open>Flag\<close> has failed, the
  attribute \<open>IntEnum\<close>. The result is null exactly when a call has failed that is none of
  the documentation step and not the lookup of \<open>Flag\<close>: a failed import, a failed lookup of
  \<open>Enum\<close> and a failed lookup of \<open>IntEnum\<close> make the result null, a failed lookup of
  \<open>Flag\<close> alone does not. The classes called are those of the plan with \<open>IntEnum\<close> for the
  flag groups when the lookup of \<open>Flag\<close> has failed, and with \<open>Flag\<close> otherwise.
\<close>

theorem PyInit_ca_lookups:
  assumes run: "PyInit_ca h lib s = (r, s')"
  shows "(\<exists>pre post. since s s' = pre @ post \<and> filter lookup post = [] \<and>
            prefix (steps pre) [Module_Create ''ca_client.ca'',
              Module_AddIntConstant ''EPICS_EPOCH'' (POSIX_TIME_AT_EPICS_EPOCH lib)] \<and>
            (filter lookup pre = [] \<or>
             filter lookup pre = [Host (Import_ImportModule ''enum'') Failed] \<or>
             (\<exists>em. filter lookup pre =
                [Host (Import_ImportModule ''enum'') (New em),
                 Host (Object_GetAttrString ''Enum'') Failed]) \<or>
             (\<exists>em ec. filter lookup pre =
                [Host (Import_ImportModule ''enum'') (New em),
                 Host (Object_GetAttrString ''Enum'') (New ec),
                 Host (Object_GetAttrString ''Flag'') Failed,
                 Host (Object_GetAttrString ''IntEnum'') Failed]) \<or>
             (\<exists>em ec fc. filter lookup pre =
                [Host (Import_ImportModule ''enum'') (New em),
                 Host (Object_GetAttrString ''Enum'') (New ec),
                 Host (Object_GetAttrString ''Flag'') (New fc)]) \<or>
             (\<exists>em ec fc. filter lookup pre =
                [Host (Import_ImportModule ''enum'') (New em),
                 Host (Object_GetAttrString ''Enum'') (New ec),
                 Host (Object_GetAttrString ''Flag'') Failed,
                 Host (Object_GetAttrString ''IntEnum'') (New fc)]))) \<and>
         (r = None \<longleftrightarrow> (\<exists>e\<in>set (since s s'). fatal e)) \<and>
         (Host (Import_ImportModule ''enum'') Failed \<in> set (since s s') \<or>
          Host (Object_GetAttrString ''Enum'') Failed \<in> set (since s s') \<or>
          Host (Object_GetAttrString ''IntEnum'') Failed \<in> set (since s s') \<longrightarrow> r = None) \<and>
         prefix (steps (since s s'))
           (plan lib (if Host (Object_GetAttrString ''Flag'') Failed \<in> set (since s s')
                      then ''IntEnum'' else ''Flag''))"
  using run
proof (cases rule: PyInit_ca_cases)
  case no_module
  then show ?thesis
    by (intro conjI exI [of _ "since s s'"] exI [of _ "[]"]) (simp_all add: plan_def)
next
  case (no_epoch m)
  then show ?thesis
    by (intro conjI exI [of _ "since s s'"] exI [of _ "[]"]) (simp_all add: plan_def)
next
  case (no_import m)
  then show ?thesis
    by (intro conjI exI [of _ "since s s'"] exI [of _ "[]"]) (simp_all add: plan_def)
next
  case (no_enum m em)
  then show ?thesis
    by (intro conjI exI [of _ "since s s'"] exI [of _ "[]"]) (simp_all add: plan_def)
next
  case (no_flag m em ec)
  then show ?thesis
    by (intro conjI exI [of _ "since s s'"] exI [of _ "[]"]) (simp_all add: plan_def)
next
  case (no_groups m em ec fc fk fl gs l s1)
  let ?pre = "[Host (Module_Create ''ca_client.ca'') (New m),
          Host (Module_AddIntConstant ''EPICS_EPOCH'' (POSIX_TIME_AT_EPICS_EPOCH lib)) Done,
          Host (Import_ImportModule ''enum'') (New em),
          Host (Object_GetAttrString ''Enum'') (New ec)] @ fl"
  let ?post = "gs @ [Decref fc, Decref ec, Decref em, Decref m]"
  note lf = lookup_free [OF no_groups(5)]
  have 1: "since s s' = ?pre @ ?post" "filter lookup ?post = []"
    using no_groups(3,5) by simp_all
  have 2: "prefix (steps ?pre) [Module_Create ''ca_client.ca'',
              Module_AddIntConstant ''EPICS_EPOCH'' (POSIX_TIME_AT_EPICS_EPOCH lib)]"
    using no_groups(2) by auto
  have 3: "filter lookup ?pre =
      [Host (Import_ImportModule ''enum'') (New em),
       Host (Object_GetAttrString ''Enum'') (New ec),
       Host (Object_GetAttrString ''Flag'') (New fc)] \<or>
     filter lookup ?pre =
      [Host (Import_ImportModule ''enum'') (New em),
       Host (Object_GetAttrString ''Enum'') (New ec),
       Host (Object_GetAttrString ''Flag'') Failed,
       Host (Object_GetAttrString ''IntEnum'') (New fc)]"
    using no_groups(2) by auto
  have 4: "\<exists>e\<in>set (since s s'). fatal e"
    using no_groups(3,6) by auto
  have 5: "(if Host (Object_GetAttrString ''Flag'') Failed \<in> set (since s s')
            then ''IntEnum'' else ''Flag'') = fk"
    using no_groups(2,3) lf by auto
  have 6: "prefix (steps (since s s')) (plan lib fk)"
    using no_groups(2,3) prefix_plan [OF no_groups(7)] by auto
  show ?thesis
    apply (intro conjI)
       apply (rule exI [of _ ?pre])
       apply (rule exI [of _ ?post])
    using 1 2 3 apply blast
    using 4 no_groups(1) apply simp
    using no_groups(1) apply simp
    using 5 6 apply simp
    done
next
  case (ready m em ec fc fk fl gs)
  let ?pre = "[Host (Module_Create ''ca_client.ca'') (New m),
          Host (Module_AddIntConstant ''EPICS_EPOCH'' (POSIX_TIME_AT_EPICS_EPOCH lib)) Done,
          Host (Import_ImportModule ''enum'') (New em),
          Host (Object_GetAttrString ''Enum'') (New ec)] @ fl"
  let ?post = "gs @ [Decref fc, Decref ec, Decref em]"
  note lf = lookup_free [OF ready(5)]
  have 1: "since s s' = ?pre @ ?post" "filter lookup ?post = []"
    using ready(3,5) by simp_all
  have 2: "prefix (steps ?pre) [Module_Create ''ca_client.ca'',
              Module_AddIntConstant ''EPICS_EPOCH'' (POSIX_TIME_AT_EPICS_EPOCH lib)]"
    using ready(2) by auto
  have 3: "filter lookup ?pre =
      [Host (Import_ImportModule ''enum'') (New em),
       Host (Object_GetAttrString ''Enum'') (New ec),
       Host (Object_GetAttrString ''Flag'') (New fc)] \<or>
     filter lookup ?pre =
      [Host (Import_ImportModule ''enum'') (New em),
       Host (Object_GetAttrString ''Enum'') (New ec),
       Host (Object_GetAttrString ''Flag'') Failed,
       Host (Object_GetAttrString ''IntEnum'') (New fc)]"
    using ready(2) by auto
  have 4: "\<forall>e\<in>set (since s s'). \<not> fatal e"
    using ready(2,3,6) by auto
  then have nf: "Host (Import_ImportModule ''enum'') Failed \<notin> set (since s s')"
    "Host (Object_GetAttrString ''Enum'') Failed \<notin> set (since s s')"
    "Host (Object_GetAttrString ''IntEnum'') Failed \<notin> set (since s s')"
    by fastforce+
  have 5: "(if Host (Object_GetAttrString ''Flag'') Failed \<in> set (since s s')
            then ''IntEnum'' else ''Flag'') = fk"
    using ready(2,3) lf by auto
  have 6: "prefix (steps (since s s')) (plan lib fk)"
    using ready(2,3,7) by (subst plan_unfold) auto
  show ?thesis
    apply (intro conjI)
       apply (rule exI [of _ ?pre])
       apply (rule exI [of _ ?post])
    using 1 2 3 apply blast
    using 4 ready(1) apply simp
    using nf apply simp
    using 5 6 apply simp
    done
qed

lemma acquired_free:
  assumes "acquired gs = []"
  shows "Host (Module_Create n) (New a) \<notin> set gs"
proof
  assume "Host (Module_Create n) (New a) \<in> set gs"
  then obtain xs ys where "gs = xs @ Host (Module_Create n) (New a) # ys"
    by (auto simp add: in_set_conv_decomp)
  with assms show False
    by simp
qed

text \<open>
  Claim C8. The result of \<open>PyInit_ca\<close> is null exactly when a call has failed that is none
  of the documentation step and not the lookup of \<open>Flag\<close>. When it is null, the run ends
  with one \<open>Py_DECREF\<close> for each reference acquired by \<open>PyModule_Create\<close>,
  \<open>PyImport_ImportModule\<close> and \<open>PyObject_GetAttrString\<close>, in the reverse of the order in
  which they were acquired, and the module that was created is no longer an object.
\<close>

theorem PyInit_ca_failure_releases:
  assumes run: "PyInit_ca h lib s = (r, s')"
  shows "(r = None \<longleftrightarrow> (\<exists>e\<in>set (since s s'). fatal e)) \<and>
         (r = None \<longrightarrow>
            (\<exists>pre. since s s' = pre @ map Decref (rev (acquired (since s s'))) \<and>
               acquired pre = acquired (since s s')) \<and>
            (\<forall>m. Host (Module_Create ''ca_client.ca'') (New m) \<in> set (since s s') \<longrightarrow>
               objs s' m = None))"
  using run
proof (cases rule: PyInit_ca_cases)
  case no_module
  then show ?thesis
    by simp
next
  case (no_epoch m)
  then show ?thesis
    by simp
next
  case (no_import m)
  then show ?thesis
    by simp
next
  case (no_enum m em)
  then show ?thesis
    by simp
next
  case (no_flag m em ec)
  then show ?thesis
    by simp
next
  case (no_groups m em ec fc fk fl gs l s1)
  let ?pre = "[Host (Module_Create ''ca_client.ca'') (New m),
          Host (Module_AddIntConstant ''EPICS_EPOCH'' (POSIX_TIME_AT_EPICS_EPOCH lib)) Done,
          Host (Import_ImportModule ''enum'') (New em),
          Host (Object_GetAttrString ''Enum'') (New ec)] @ fl @ gs"
  from no_groups(2) have "acquired fl = [fc]"
    by auto
  with no_groups(3,4) have "since s s' = ?pre @ map Decref (rev (acquired (since s s')))"
    "acquired ?pre = acquired (since s s')"
    by simp_all
  then have "\<exists>pre. since s s' = pre @ map Decref (rev (acquired (since s s'))) \<and>
               acquired pre = acquired (since s s')"
    by blast
  moreover have "\<exists>e\<in>set (since s s'). fatal e"
    using no_groups(3,6) by auto
  moreover have "\<forall>m'. Host (Module_Create ''ca_client.ca'') (New m') \<in> set (since s s') \<longrightarrow>
      objs s' m' = None"
    using no_groups(2,3,14) acquired_free [OF no_groups(4)] by auto
  ultimately show ?thesis
    using no_groups(1) by simp
next
  case (ready m em ec fc fk fl gs)
  have "\<forall>e\<in>set (since s s'). \<not> fatal e"
    using ready(2,3,6) by auto
  with ready(1) show ?thesis
    by simp
qed

lemma names_of_groups:
  "name (Severity lib) = ''Severity''" "name (Status lib) = ''Status''"
  "name (Type lib) = ''Type''" "name AccessRights = ''AccessRights''"
  "name (Events lib) = ''Events''"
  by (simp_all add: group_names)

lemma prefix_third:
  assumes "prefix (xs @ [''Type'']) [''Severity'', ''Status'', ''Type'', ''AccessRights'', ''Events'']"
  shows "xs = [''Severity'', ''Status'']"
  using assms by (auto simp add: prefix_def append_eq_Cons_conv Cons_eq_append_conv)

text \<open>
  Claim C9. When \<open>PyModule_AddObject\<close> fails for \<open>Type\<close>, the result of \<open>PyInit_ca\<close> is null,
  and in the state in which the body leaves for the label \<open>error\<close> the attributes of the
  module are exactly \<open>EPICS_EPOCH\<close>, the integer, \<open>Severity\<close> and \<open>Status\<close>, the types made by
  \<open>Enum\<close> from the pairs of these groups: none of \<open>Type\<close>, \<open>AccessRights\<close> and \<open>Events\<close>.
\<close>

theorem PyInit_ca_third_group_rejected:
  assumes run: "PyInit_ca h lib s = (r, s')"
    and ev: "Host (Module_AddObject ''Type'') Failed \<in> set (since s s')"
  shows "r = None \<and>
         (\<exists>l s1 m as1 as2. PyInit_body h lib s = Inl (l, s1) \<and> s' = error_exit l s1 \<and>
            module l = Some m \<and>
            namespace s1 m =
              [(''EPICS_EPOCH'', Some (PyLong (POSIX_TIME_AT_EPICS_EPOCH lib))),
               (''Severity'', Some (PyEnumType ''Enum'' ''Severity'' (handed (Severity lib)) as1)),
               (''Status'', Some (PyEnumType ''Enum'' ''Status'' (handed (Status lib)) as2))])"
  using run
proof (cases rule: PyInit_ca_cases)
  case no_module
  with ev show ?thesis
    by simp
next
  case (no_epoch m)
  with ev show ?thesis
    by simp
next
  case (no_import m)
  with ev show ?thesis
    by simp
next
  case (no_enum m em)
  with ev show ?thesis
    by simp
next
  case (no_flag m em ec)
  with ev show ?thesis
    by simp
next
  case (ready m em ec fc fk fl gs)
  from ev ready(2,3) have "Host (Module_AddObject ''Type'') Failed \<in> set gs"
    by auto
  with ready(6) show ?thesis
    by fastforce
next
  case (no_groups m em ec fc fk fl gs l s1)
  from ev no_groups(2,3) have "Host (Module_AddObject ''Type'') Failed \<in> set gs"
    by auto
  with no_groups(9) have at: "attached gs = [''Severity'', ''Status'']"
    by (intro prefix_third) simp
  from no_groups(13) at obtain types
    where ns: "namespace s1 m =
        (''EPICS_EPOCH'', Some (PyLong (POSIX_TIME_AT_EPICS_EPOCH lib))) # types"
      and ty: "map fst types = [''Severity'', ''Status'']" "typed_entries lib fk types"
    by auto
  from ty(1) obtain v1 v2 where types: "types = [(''Severity'', v1), (''Status'', v2)]"
    by (auto simp add: map_eq_Cons_conv)
  from ty(2) types no_groups(2) obtain as1 as2
    where "v1 = Some (PyEnumType ''Enum'' ''Severity'' (handed (Severity lib)) as1)"
      "v2 = Some (PyEnumType ''Enum'' ''Status'' (handed (Status lib)) as2)"
    by (auto simp add: typed_entries_def groups_def names_of_groups)
  with ns types no_groups(1,10,11,12) show ?thesis
    by auto
qed

lemmas event_simps = steps_def attached_def acquired_def

text \<open>Three runs of \<open>PyInit_ca\<close> on the tables of EPICS base, from the empty runtime.\<close>

lemma run_ready:
  "\<exists>S. PyInit_ca (\<lambda>n. True) epics_base start = (Some 0, S) \<and>
     attached (since start S) =
       [''EPICS_EPOCH'', ''Severity'', ''Status'', ''Type'', ''AccessRights'', ''Events''] \<and>
     map fst (namespace S 0) =
       [''EPICS_EPOCH'', ''Severity'', ''Status'', ''Type'', ''AccessRights'', ''Events''] \<and>
     map_of (namespace S 0) ''EPICS_EPOCH'' = Some (Some (PyLong 631152000)) \<and>
     filter lookup (since start S) =
       [Host (Import_ImportModule ''enum'') (New 2), Host (Object_GetAttrString ''Enum'') (New 3),
        Host (Object_GetAttrString ''Flag'') (New 4)] \<and>
     err S = None"
  apply (rule exI)
  apply (rule conjI)
   apply (simp add: run_simps group_simps)
  apply (simp add: run_simps group_simps event_simps)
  done

lemma run_without_Flag:
  "\<exists>S. PyInit_ca (\<lambda>n. n \<noteq> 4) epics_base start = (Some 0, S) \<and>
     filter lookup (since start S) =
       [Host (Import_ImportModule ''enum'') (New 2), Host (Object_GetAttrString ''Enum'') (New 3),
        Host (Object_GetAttrString ''Flag'') Failed,
        Host (Object_GetAttrString ''IntEnum'') (New 4)] \<and>
     map fst (namespace S 0) =
       [''EPICS_EPOCH'', ''Severity'', ''Status'', ''Type'', ''AccessRights'', ''Events''] \<and>
     map_of (namespace S 0) ''AccessRights'' =
       Some (Some (PyEnumType ''IntEnum'' ''AccessRights''
         [(''NO_ACCESS'', 0), (''READ_ACCESS'', 1), (''WRITE_ACCESS'', 2), (''RW_ACCESS'', 3)]
         [(''__doc__'', 53)])) \<and>
     objs S 53 = Some (PyUnicode access_rights_doc) \<and>
     err S = None"
  apply (rule exI)
  apply (rule conjI)
   apply (simp add: run_simps group_simps)
  apply (simp add: run_simps group_simps event_simps)
  done

lemma run_Type_refused:
  "\<exists>S. PyInit_ca (\<lambda>n. n \<noteq> 52) epics_base start = (None, S) \<and>
     Host (Module_AddObject ''Type'') Failed \<in> set (since start S) \<and>
     Host (Module_Create ''ca_client.ca'') (New 0) \<in> set (since start S) \<and>
     acquired (since start S) = [0, 2, 3, 4] \<and>
     attached (since start S) = [''EPICS_EPOCH'', ''Severity'', ''Status''] \<and>
     map fst (heap S) = [2, 3, 4, 45, 46] \<and>
     objs S 45 = Some (PyEnumType ''Enum'' ''Type''
         [(''STRING'', 0), (''SHORT'', 1), (''FLOAT'', 2), (''ENUM'', 3), (''CHAR'', 4),
          (''LONG'', 5), (''DOUBLE'', 6)]
         [(''__doc__'', 46)]) \<and>
     refs S 45 = 1 \<and> objs S 46 = Some (PyUnicode field_type_doc) \<and>
     err S = Some (RuntimeError ''Could not add Type enum'')"
  apply (rule exI)
  apply (rule conjI)
   apply (simp add: run_simps group_simps)
  apply (simp add: run_simps group_simps event_simps)
  done

text \<open>
  With every call answered the module is object 0 and is returned; the steps are those of
  the plan with the class \<open>Flag\<close>, and the module has the six attributes in the order of the
  plan, the first the integer 631152000.
\<close>

theorem PyInit_ca_order_witness:
  "\<exists>S. PyInit_ca (\<lambda>n. True) epics_base start = (Some 0, S) \<and>
     map fst (namespace S 0) =
       [''EPICS_EPOCH'', ''Severity'', ''Status'', ''Type'', ''AccessRights'', ''Events''] \<and>
     map_of (namespace S 0) ''EPICS_EPOCH'' = Some (Some (PyLong 631152000)) \<and>
     (\<exists>fk. (fk = ''Flag'' \<or> fk = ''IntEnum'') \<and> steps (since start S) = plan epics_base fk \<and>
        (\<exists>types. namespace S 0 =
             (''EPICS_EPOCH'', Some (PyLong (POSIX_TIME_AT_EPICS_EPOCH epics_base))) # types \<and>
           typed_entries epics_base fk types))"
proof -
  from run_ready obtain S
    where run: "PyInit_ca (\<lambda>n. True) epics_base start = (Some 0, S)"
      and ns: "map fst (namespace S 0) =
        [''EPICS_EPOCH'', ''Severity'', ''Status'', ''Type'', ''AccessRights'', ''Events'']"
        "map_of (namespace S 0) ''EPICS_EPOCH'' = Some (Some (PyLong 631152000))"
    by (elim exE conjE)
  from PyInit_ca_order [OF run]
  have "\<exists>fk. (fk = ''Flag'' \<or> fk = ''IntEnum'') \<and> steps (since start S) = plan epics_base fk \<and>
        (\<exists>types. namespace S 0 =
             (''EPICS_EPOCH'', Some (PyLong (POSIX_TIME_AT_EPICS_EPOCH epics_base))) # types \<and>
           typed_entries epics_base fk types)"
    by auto
  with run ns show ?thesis
    by (intro exI [of _ S]) simp
qed

text \<open>
  With the lookup of \<open>Flag\<close> failing, the fifth call, \<open>IntEnum\<close> is looked up, the
  initialisation succeeds, and the flag groups are of the class \<open>IntEnum\<close>.
\<close>

theorem PyInit_ca_lookups_witness:
  "\<exists>S. PyInit_ca (\<lambda>n. n \<noteq> 4) epics_base start = (Some 0, S) \<and>
     filter lookup (since start S) =
       [Host (Import_ImportModule ''enum'') (New 2), Host (Object_GetAttrString ''Enum'') (New 3),
        Host (Object_GetAttrString ''Flag'') Failed,
        Host (Object_GetAttrString ''IntEnum'') (New 4)] \<and>
     map_of (namespace S 0) ''AccessRights'' =
       Some (Some (PyEnumType ''IntEnum'' ''AccessRights''
         [(''NO_ACCESS'', 0), (''READ_ACCESS'', 1), (''WRITE_ACCESS'', 2), (''RW_ACCESS'', 3)]
         [(''__doc__'', 53)])) \<and>
     Host (Object_GetAttrString ''Flag'') Failed \<in> set (since start S) \<and>
     \<not> (\<exists>e\<in>set (since start S). fatal e) \<and>
     prefix (steps (since start S)) (plan epics_base ''IntEnum'')"
proof -
  from run_without_Flag obtain S
    where run: "PyInit_ca (\<lambda>n. n \<noteq> 4) epics_base start = (Some 0, S)"
      and lk: "filter lookup (since start S) =
       [Host (Import_ImportModule ''enum'') (New 2), Host (Object_GetAttrString ''Enum'') (New 3),
        Host (Object_GetAttrString ''Flag'') Failed,
        Host (Object_GetAttrString ''IntEnum'') (New 4)]"
      and ar: "map_of (namespace S 0) ''AccessRights'' =
       Some (Some (PyEnumType ''IntEnum'' ''AccessRights''
         [(''NO_ACCESS'', 0), (''READ_ACCESS'', 1), (''WRITE_ACCESS'', 2), (''RW_ACCESS'', 3)]
         [(''__doc__'', 53)]))"
    by (elim exE conjE)
  have "Host (Object_GetAttrString ''Flag'') Failed \<in> set (filter lookup (since start S))"
    unfolding lk by simp
  then have ev: "Host (Object_GetAttrString ''Flag'') Failed \<in> set (since start S)"
    by simp
  from PyInit_ca_lookups [OF run] ev
  have "\<not> (\<exists>e\<in>set (since start S). fatal e)"
    "prefix (steps (since start S)) (plan epics_base ''IntEnum'')"
    by simp_all
  with run lk ar ev show ?thesis
    by (intro exI [of _ S]) simp
qed

text \<open>
  With the installation of \<open>Type\<close> failing, the 53rd call, the result is null, and the last
  four events give up the class of the flag groups, the class \<open>Enum\<close>, the module \<open>enum\<close> and
  the module, the objects 4, 3, 2 and 0, which were acquired in the opposite order; the
  module is gone.
\<close>

theorem PyInit_ca_failure_releases_witness:
  "\<exists>S. PyInit_ca (\<lambda>n. n \<noteq> 52) epics_base start = (None, S) \<and>
     Host (Module_AddObject ''Type'') Failed \<in> set (since start S) \<and>
     fatal (Host (Module_AddObject ''Type'') Failed) \<and>
     acquired (since start S) = [0, 2, 3, 4] \<and>
     (\<exists>pre. since start S = pre @ [Decref 4, Decref 3, Decref 2, Decref 0]) \<and>
     Host (Module_Create ''ca_client.ca'') (New 0) \<in> set (since start S) \<and>
     objs S 0 = None"
proof -
  from run_Type_refused obtain S
    where run: "PyInit_ca (\<lambda>n. n \<noteq> 52) epics_base start = (None, S)"
      and ev: "Host (Module_AddObject ''Type'') Failed \<in> set (since start S)"
      and ac: "acquired (since start S) = [0, 2, 3, 4]"
      and mc: "Host (Module_Create ''ca_client.ca'') (New 0) \<in> set (since start S)"
    by (elim exE conjE)
  from PyInit_ca_failure_releases [OF run] ac mc
  have "\<exists>pre. since start S = pre @ [Decref 4, Decref 3, Decref 2, Decref 0]"
    "objs S 0 = None"
    by auto
  with run ev ac mc show ?thesis
    by (intro exI [of _ S]) simp
qed

text \<open>
  In the same run the module has the attributes \<open>EPICS_EPOCH\<close>, \<open>Severity\<close> and \<open>Status\<close> when
  the body of \<open>PyInit_ca\<close> leaves for the label \<open>error\<close>.
\<close>

theorem PyInit_ca_third_group_rejected_witness:
  "\<exists>S. PyInit_ca (\<lambda>n. n \<noteq> 52) epics_base start = (None, S) \<and>
     Host (Module_AddObject ''Type'') Failed \<in> set (since start S) \<and>
     attached (since start S) = [''EPICS_EPOCH'', ''Severity'', ''Status''] \<and>
     (\<exists>l s1 m as1 as2.
        PyInit_body (\<lambda>n. n \<noteq> 52) epics_base start = Inl (l, s1) \<and> S = error_exit l s1 \<and>
        module l = Some m \<and>
        namespace s1 m =
          [(''EPICS_EPOCH'', Some (PyLong (POSIX_TIME_AT_EPICS_EPOCH epics_base))),
           (''Severity'',
            Some (PyEnumType ''Enum'' ''Severity'' (handed (Severity epics_base)) as1)),
           (''Status'',
            Some (PyEnumType ''Enum'' ''Status'' (handed (Status epics_base)) as2))])"
proof -
  from run_Type_refused obtain S
    where run: "PyInit_ca (\<lambda>n. n \<noteq> 52) epics_base start = (None, S)"
      and ev: "Host (Module_AddObject ''Type'') Failed \<in> set (since start S)"
      and at: "attached (since start S) = [''EPICS_EPOCH'', ''Severity'', ''Status'']"
    by (elim exE conjE)
  from PyInit_ca_third_group_rejected [OF run ev]
  have "\<exists>l s1 m as1 as2.
        PyInit_body (\<lambda>n. n \<noteq> 52) epics_base start = Inl (l, s1) \<and> S = error_exit l s1 \<and>
        module l = Some m \<and>
        namespace s1 m =
          [(''EPICS_EPOCH'', Some (PyLong (POSIX_TIME_AT_EPICS_EPOCH epics_base))),
           (''Severity'',
            Some (PyEnumType ''Enum'' ''Severity'' (handed (Severity epics_base)) as1)),
           (''Status'',
            Some (PyEnumType ''Enum'' ''Status'' (handed (Status epics_base)) as2))]"
    by simp
  with run ev at show ?thesis
    by (intro exI [of _ S]) simp
qed

end
